(* ===== verification/Json.thy ===== *)
theory Json
  imports Go_Prelude
begin

text \<open>
  Package \<open>encoding/json\<close> as the collector uses it: JSON documents, the compact text
  \<open>json.Marshal\<close> prints for them, and the recursive-descent reading \<open>json.Unmarshal\<close>
  starts from. Every record that travels through the data pipeline is such a text.

  A number is kept as an exact finite decimal \<open>mant / 10 ^ scale\<close>, with scale 0 exactly for the
  literals that have neither a fraction nor an exponent, the ones that decode into an integer
  field: the collector compares
  numbers, truncates them to integers and prints them, and computes nothing else with them.
  The rounding of \<open>float64\<close> beyond 15 significant digits is not modelled. Bytes from
  \<open>0x80\<close> up are copied unchanged (text is taken to be valid UTF-8).
\<close>

section \<open>Decimal numbers\<close>

datatype dec = Dec (mant: int) (scale: nat)

fun dec_norm :: "int \<Rightarrow> nat \<Rightarrow> dec" where
  "dec_norm m 0 = Dec m 0"
| "dec_norm m (Suc k) = (if m mod 10 = 0 then dec_norm (m div 10) k else Dec m (Suc k))"

fun dec_normal :: "dec \<Rightarrow> bool" where
  "dec_normal (Dec m k) = (k = 0 \<or> m mod 10 \<noteq> 0)"

definition dec_of_int :: "int \<Rightarrow> dec" where
  "dec_of_int i = Dec i 0"

text \<open>The conversion \<open>int64(x)\<close> of a number drops the fraction.\<close>

definition dec_trunc :: "dec \<Rightarrow> int" where
  "dec_trunc d = tdiv (mant d) (10 ^ scale d)"

definition dec_positive :: "dec \<Rightarrow> bool" where
  "dec_positive d = (0 < mant d)"

lemma dec_norm_id: "dec_normal (Dec m k) \<Longrightarrow> dec_norm m k = Dec m k"
  by (cases k) auto

lemma dec_norm_mant: "dec_normal d \<Longrightarrow> dec_norm (mant d) (scale d) = d"
  by (cases d) (auto intro: dec_norm_id)

lemma dec_norm_normal [simp]: "dec_normal (dec_norm m k)"
  by (induction m k rule: dec_norm.induct) auto

lemma dec_normal_of_int [simp]: "dec_normal (dec_of_int i)"
  by (simp add: dec_of_int_def)

lemma dec_trunc_of_int [simp]: "dec_trunc (dec_of_int i) = i"
  by (simp add: dec_trunc_def dec_of_int_def tdiv_def abs_sgn mult.commute)

text \<open>The text of a number: positional between \<open>1e-6\<close> and \<open>1e21\<close>, scientific outside.\<close>

definition plain_str :: "int \<Rightarrow> nat \<Rightarrow> string" where
  "plain_str m k =
     (let ds = nat_str (nat \<bar>m\<bar>);
          p = replicate (Suc k - length ds) (CHR ''0'') @ ds;
          n = length p - k
      in (if m < 0 then ''-'' else '''') @
         (if k = 0 then ds else take n p @ CHR ''.'' # drop n p))"

definition exp_str :: "int \<Rightarrow> nat \<Rightarrow> string" where
  "exp_str m k =
     (let ds = nat_str (nat \<bar>m\<bar>);
          d = rev (dropWhile (\<lambda>c. c = CHR ''0'') (rev ds));
          x = int (length ds) - 1 - int k
      in (if m < 0 then ''-'' else '''') @ [hd d] @
         (if tl d = [] then '''' else CHR ''.'' # tl d) @
         (if x < 0 then ''e-'' else ''e+'') @ nat_str (nat \<bar>x\<bar>))"

fun dec_plain :: "dec \<Rightarrow> bool" where
  "dec_plain (Dec m k) =
     (m = 0 \<or> (\<bar>m\<bar> < 10 ^ 21 * 10 ^ k \<and> 10 ^ k \<le> \<bar>m\<bar> * 10 ^ 6))"

lemma dec_plain_norm: "dec_plain (Dec m k) \<Longrightarrow> dec_plain (dec_norm m k)"
proof (induction m k rule: dec_norm.induct)
  case (2 m k)
  show ?case
  proof (cases "m mod 10 = 0")
    case True
    then obtain q where q: "m = 10 * q" by (auto elim: dvdE)
    have "dec_plain (Dec q k)" using "2.prems" by (simp add: q abs_mult mult.commute)
    then show ?thesis using 2 True q by simp
  qed (use 2 in simp)
qed simp

fun num_str :: "dec \<Rightarrow> string" where
  "num_str (Dec m k) = (if dec_plain (Dec m k) then plain_str m k else exp_str m k)"

section \<open>Documents and their text\<close>

datatype json =
    JNull
  | JBool bool
  | JNum dec
  | JStr string
  | JArr "json list"
  | JObj "(string \<times> json) list"

definition hex_char :: "nat \<Rightarrow> char" where
  "hex_char d = (if d < 10 then digit_char d else char_of (87 + d))"

definition esc_u :: "char \<Rightarrow> string" where
  "esc_u c = [CHR 0x5C, CHR ''u'', CHR ''0'', CHR ''0'',
              hex_char (of_char c div 16), hex_char (of_char c mod 16)]"

text \<open>\<open>json.Marshal\<close> escapes the control characters and, against HTML injection,
  the characters \<open><\<close>, \<open>>\<close> and \<open>&\<close>.\<close>

definition esc_char :: "char \<Rightarrow> string" where
  "esc_char c =
     (if c = CHR 0x22 then [CHR 0x5C, CHR 0x22]
      else if c = CHR 0x5C then [CHR 0x5C, CHR 0x5C]
      else if c = CHR 0x08 then [CHR 0x5C, CHR ''b'']
      else if c = CHR 0x0C then [CHR 0x5C, CHR ''f'']
      else if c = CHR 0x0A then [CHR 0x5C, CHR ''n'']
      else if c = CHR 0x0D then [CHR 0x5C, CHR ''r'']
      else if c = CHR 0x09 then [CHR 0x5C, CHR ''t'']
      else if (of_char c :: nat) < 32 \<or> c = CHR ''<'' \<or> c = CHR ''>'' \<or> c = CHR ''&''
        then esc_u c
      else [c])"

fun esc_str :: "string \<Rightarrow> string" where
  "esc_str [] = []"
| "esc_str (c # cs) = esc_char c @ esc_str cs"

definition quote :: "string \<Rightarrow> string" where
  "quote s = CHR 0x22 # esc_str s @ [CHR 0x22]"

fun json_str :: "json \<Rightarrow> string"
  and elems_str :: "json list \<Rightarrow> string"
  and mems_str :: "(string \<times> json) list \<Rightarrow> string"
where
  "json_str JNull = ''null''"
| "json_str (JBool b) = (if b then ''true'' else ''false'')"
| "json_str (JNum d) = num_str d"
| "json_str (JStr s) = quote s"
| "json_str (JArr xs) = CHR ''['' # elems_str xs"
| "json_str (JObj kvs) = CHR ''{'' # mems_str kvs"
| "elems_str [] = '']''"
| "elems_str (x # xs) = json_str x @ (if xs = [] then '']'' else CHR '','' # elems_str xs)"
| "mems_str [] = ''}''"
| "mems_str ((k, v) # kvs) =
     quote k @ CHR '':'' # json_str v @ (if kvs = [] then ''}'' else CHR '','' # mems_str kvs)"

section \<open>Reading a document\<close>

type_synonym 'a parser = "string \<Rightarrow> ('a \<times> string) option"

fun skip_ws :: "string \<Rightarrow> string" where
  "skip_ws [] = []"
| "skip_ws (c # cs) =
     (if c = CHR '' '' \<or> c = CHR 0x09 \<or> c = CHR 0x0A \<or> c = CHR 0x0D then skip_ws cs else c # cs)"

subsection \<open>Numbers\<close>

definition parse_frac :: "string parser" where
  "parse_frac s =
     (case s of [] \<Rightarrow> Some ([], s)
      | c # r \<Rightarrow>
          if c = CHR ''.'' then
            (if takeWhile is_digit r = [] then None
             else Some (takeWhile is_digit r, dropWhile is_digit r))
          else Some ([], s))"

definition parse_exp :: "int option parser" where
  "parse_exp s =
     (case s of [] \<Rightarrow> Some (None, s)
      | c # r \<Rightarrow>
          if c = CHR ''e'' \<or> c = CHR ''E'' then
            (let neg = has_prefix r ''-'';
                 r' = (if neg \<or> has_prefix r ''+'' then tl r else r);
                 ds = takeWhile is_digit r'
             in if ds = [] then None
                else Some (Some (if neg then - int (digits_val ds) else int (digits_val ds)),
                           dropWhile is_digit r'))
          else Some (None, s))"

definition dec_lit :: "bool \<Rightarrow> string \<Rightarrow> string \<Rightarrow> int option \<Rightarrow> dec" where
  "dec_lit neg ds fs e =
     (let m = (if neg then - int (digits_val (ds @ fs)) else int (digits_val (ds @ fs)))
      in case e of
           None \<Rightarrow> Dec m (length fs)
         | Some x \<Rightarrow>
             (let k = int (length fs) - x
              in if k \<le> 0 then Dec (m * 10 ^ nat (1 - k)) 1 else Dec m (nat k)))"

definition parse_num :: "dec parser" where
  "parse_num s =
     (let neg = has_prefix s ''-'';
          s1 = (if neg then tl s else s);
          ds = takeWhile is_digit s1
      in if ds = [] \<or> (hd ds = CHR ''0'' \<and> tl ds \<noteq> []) then None
         else do { (fs, r1) \<leftarrow> parse_frac (dropWhile is_digit s1);
                   (e, r2) \<leftarrow> parse_exp r1;
                   Some (dec_lit neg ds fs e, r2) })"

subsection \<open>Strings\<close>

definition hex_val :: "char \<Rightarrow> nat option" where
  "hex_val c =
     (let n = of_char c :: nat
      in if 48 \<le> n \<and> n \<le> 57 then Some (n - 48)
         else if 97 \<le> n \<and> n \<le> 102 then Some (n - 87)
         else if 65 \<le> n \<and> n \<le> 70 then Some (n - 55)
         else None)"

fun parse_hex4 :: "nat parser" where
  "parse_hex4 (a # b # c # d # r) =
     do { w \<leftarrow> hex_val a; x \<leftarrow> hex_val b; y \<leftarrow> hex_val c; z \<leftarrow> hex_val d;
          Some (((w * 16 + x) * 16 + y) * 16 + z, r) }"
| "parse_hex4 _ = None"

definition utf8 :: "nat \<Rightarrow> string" where
  "utf8 n =
     (if n < 0x80 then [char_of n]
      else if n < 0x800 then [char_of (0xC0 + n div 64), char_of (0x80 + n mod 64)]
      else if 0xD800 \<le> n \<and> n < 0xE000 then [CHR 0xEF, CHR 0xBF, CHR 0xBD]
      else if n < 0x10000 then
        [char_of (0xE0 + n div 4096), char_of (0x80 + n div 64 mod 64), char_of (0x80 + n mod 64)]
      else [char_of (0xF0 + n div 262144), char_of (0x80 + n div 4096 mod 64),
            char_of (0x80 + n div 64 mod 64), char_of (0x80 + n mod 64)])"

text \<open>A high surrogate followed by an escaped low one is a single code point.\<close>

definition parse_u :: "string parser" where
  "parse_u s =
     do { (n, r) \<leftarrow> parse_hex4 s;
          if 0xD800 \<le> n \<and> n < 0xDC00 \<and> has_prefix r [CHR 0x5C, CHR ''u''] then
            (case parse_hex4 (drop 2 r) of
               Some (m, r') \<Rightarrow>
                 if 0xDC00 \<le> m \<and> m < 0xE000
                 then Some (utf8 (0x10000 + (n - 0xD800) * 1024 + (m - 0xDC00)), r')
                 else Some (utf8 n, r)
             | None \<Rightarrow> Some (utf8 n, r))
          else Some (utf8 n, r) }"

definition unescape :: "char \<Rightarrow> char option" where
  "unescape c =
     (if c = CHR 0x22 \<or> c = CHR 0x5C \<or> c = CHR ''/'' then Some c
      else if c = CHR ''b'' then Some (CHR 0x08)
      else if c = CHR ''f'' then Some (CHR 0x0C)
      else if c = CHR ''n'' then Some (CHR 0x0A)
      else if c = CHR ''r'' then Some (CHR 0x0D)
      else if c = CHR ''t'' then Some (CHR 0x09)
      else None)"

lemma parse_hex4_length: "parse_hex4 s = Some (n, r) \<Longrightarrow> length r + 4 = length s"
  by (cases s rule: parse_hex4.cases) auto

lemma parse_u_length: "parse_u s = Some (w, r) \<Longrightarrow> length r < length s"
  by (auto simp: parse_u_def dest!: parse_hex4_length split: if_splits option.splits prod.splits)

function parse_chars :: "string parser" where
  "parse_chars s =
     (case s of
        [] \<Rightarrow> None
      | c # cs \<Rightarrow>
          if c = CHR 0x22 then Some ([], cs)
          else if c = CHR 0x5C then
            (case cs of
               [] \<Rightarrow> None
             | d # r \<Rightarrow>
                 if d = CHR ''u'' then
                   (case parse_u r of
                      None \<Rightarrow> None
                    | Some (w, r') \<Rightarrow> map_option (apfst ((@) w)) (parse_chars r'))
                 else
                   (case unescape d of
                      None \<Rightarrow> None
                    | Some x \<Rightarrow> map_option (apfst (Cons x)) (parse_chars r)))
          else if (of_char c :: nat) < 32 then None
          else map_option (apfst (Cons c)) (parse_chars cs))"
  by pat_completeness auto
termination
  by (relation "measure length") (auto dest!: parse_u_length)

declare parse_chars.simps [simp del]

subsection \<open>Values\<close>

text \<open>
  The first argument is fuel. Every call consumes a character or is followed by one that
  does, so \<open>2 * length s + 2\<close> is enough for the text \<open>s\<close>; the round trip below shows it for
  every text \<open>json.Marshal\<close> prints.
\<close>

fun pval :: "nat \<Rightarrow> json parser"
  and pelems :: "nat \<Rightarrow> json list parser"
  and pmems :: "nat \<Rightarrow> (string \<times> json) list parser"
where
  "pval 0 s = None"
| "pval (Suc n) s =
     (case skip_ws s of
        [] \<Rightarrow> None
      | c # cs \<Rightarrow>
          if c = CHR ''{'' then
            (if has_prefix (skip_ws cs) ''}'' then Some (JObj [], tl (skip_ws cs))
             else map_option (apfst JObj) (pmems n cs))
          else if c = CHR ''['' then
            (if has_prefix (skip_ws cs) '']'' then Some (JArr [], tl (skip_ws cs))
             else map_option (apfst JArr) (pelems n cs))
          else if c = CHR 0x22 then map_option (apfst JStr) (parse_chars cs)
          else if has_prefix (c # cs) ''null'' then Some (JNull, drop 4 (c # cs))
          else if has_prefix (c # cs) ''true'' then Some (JBool True, drop 4 (c # cs))
          else if has_prefix (c # cs) ''false'' then Some (JBool False, drop 5 (c # cs))
          else map_option (apfst JNum) (parse_num (c # cs)))"
| "pelems 0 s = None"
| "pelems (Suc n) s =
     do { (v, r) \<leftarrow> pval n s;
          (case skip_ws r of
             [] \<Rightarrow> None
           | d # r' \<Rightarrow>
               if d = CHR '','' then map_option (apfst (Cons v)) (pelems n r')
               else if d = CHR '']'' then Some ([v], r')
               else None) }"
| "pmems 0 s = None"
| "pmems (Suc n) s =
     (if \<not> has_prefix (skip_ws s) [CHR 0x22] then None
      else do { (k, r) \<leftarrow> parse_chars (tl (skip_ws s));
                (if \<not> has_prefix (skip_ws r) '':'' then None
                 else do { (v, r') \<leftarrow> pval n (tl (skip_ws r));
                           (case skip_ws r' of
                              [] \<Rightarrow> None
                            | d # r'' \<Rightarrow>
                                if d = CHR '','' then map_option (apfst (Cons (k, v))) (pmems n r'')
                                else if d = CHR ''}'' then Some ([(k, v)], r'')
                                else None) }) })"

definition json_parse :: "string \<Rightarrow> json option" where
  "json_parse s =
     (case pval (2 * length s + 2) s of
        Some (v, r) \<Rightarrow> if skip_ws r = [] then Some v else None
      | None \<Rightarrow> None)"

section \<open>Reading back what was printed\<close>

lemma hex_val_hex_char [simp]: "d < 16 \<Longrightarrow> hex_val (hex_char d) = Some d"
  by (auto simp: hex_val_def hex_char_def digit_char_def Let_def)

lemma parse_chars_esc_u:
  assumes c: "(of_char c :: nat) < 128"
  shows "parse_chars (esc_u c @ t) = map_option (apfst (Cons c)) (parse_chars t)"
proof -
  have "hex_val (CHR ''0'') = Some 0" by (simp add: hex_val_def)
  then have "parse_u (CHR ''0'' # CHR ''0'' # hex_char (of_char c div 16) # hex_char (of_char c mod 16) # t)
      = Some ([c], t)"
    using c by (simp add: parse_u_def utf8_def)
  moreover have "(@) [c] = Cons c" by auto
  ultimately show ?thesis
    by (simp add: parse_chars.simps [of "CHR 0x5C # CHR ''u'' # _"] esc_u_def)
qed

lemma parse_chars_esc_char:
  "parse_chars (esc_char c @ t) = map_option (apfst (Cons c)) (parse_chars t)"
proof (cases "(of_char c :: nat) < 32 \<or> c = CHR ''<'' \<or> c = CHR ''>'' \<or> c = CHR ''&''")
  case True
  then have "(of_char c :: nat) < 128" by auto
  then have u: "parse_chars (esc_u c @ t) = map_option (apfst (Cons c)) (parse_chars t)"
    by (rule parse_chars_esc_u)
  show ?thesis
    using True u by (auto simp: esc_char_def parse_chars.simps [of "CHR 0x5C # _"] unescape_def)
next
  case False
  then show ?thesis
    by (auto simp: esc_char_def parse_chars.simps [of "CHR 0x5C # _"] parse_chars.simps [of "c # _"] unescape_def)
qed

lemma parse_chars_esc_str: "parse_chars (esc_str s @ CHR 0x22 # rest) = Some (s, rest)"
  by (induction s) (simp_all add: parse_chars_esc_char parse_chars.simps [of "CHR 0x22 # _"])

definition delim :: "string \<Rightarrow> bool" where
  "delim r = (case r of [] \<Rightarrow> True
     | c # _ \<Rightarrow> \<not> is_digit c \<and> c \<noteq> CHR ''.'' \<and> c \<noteq> CHR ''e'' \<and> c \<noteq> CHR ''E'')"

lemma takeWhile_digits: "(\<And>c. c \<in> set ds \<Longrightarrow> is_digit c) \<Longrightarrow> (case r of [] \<Rightarrow> True | c # _ \<Rightarrow> \<not> is_digit c) \<Longrightarrow>
   takeWhile is_digit (ds @ r) = ds \<and> dropWhile is_digit (ds @ r) = r"
  by (induction ds) (auto split: list.splits)

lemma is_digit_simps [simp]: "\<not> is_digit (CHR ''-'')" "\<not> is_digit (CHR ''.'')" "\<not> is_digit (CHR ''e'')" "is_digit (CHR ''0'')"
  by (simp_all add: is_digit_def)

lemma parse_exp_delim: "delim r \<Longrightarrow> parse_exp r = Some (None, r)"
  by (auto simp: parse_exp_def delim_def split: list.splits)

lemma parse_num_gen:
  assumes ds: "\<And>c. c \<in> set ds \<Longrightarrow> is_digit c" "ds \<noteq> []" "hd ds = CHR ''0'' \<Longrightarrow> tl ds = []"
    and t: "case t of [] \<Rightarrow> True | c # _ \<Rightarrow> \<not> is_digit c"
    and f: "parse_frac t = Some (fs, r)" and e: "parse_exp r = Some (x, r')"
  shows "parse_num ((if neg then ''-'' else '''') @ ds @ t) = Some (dec_lit neg ds fs x, r')"
proof -
  obtain d ds' where d: "ds = d # ds'" using ds(2) by (cases ds) auto
  have nd: "d \<noteq> CHR ''-''" using ds(1) [of d] by (auto simp: d)
  have td: "takeWhile is_digit (ds @ t) = ds" "dropWhile is_digit (ds @ t) = t"
    using takeWhile_digits [OF ds(1) t] by auto
  have z: "\<not> (hd ds = CHR ''0'' \<and> tl ds \<noteq> [])" using ds(3) by blast
  have p: "has_prefix ((if neg then ''-'' else '''') @ ds @ t) ''-'' = neg"
    using nd by (simp add: has_prefix_def d)
  have s1: "(if neg then tl ((if neg then ''-'' else '''') @ ds @ t)
             else ((if neg then ''-'' else '''') @ ds @ t)) = ds @ t" by simp
  show ?thesis
    unfolding parse_num_def Let_def p s1 td using f e z ds(2) by simp
qed

lemma parse_num_int:
  assumes "\<And>c. c \<in> set ds \<Longrightarrow> is_digit c" "ds \<noteq> []" "hd ds = CHR ''0'' \<Longrightarrow> tl ds = []" "delim r"
  shows "parse_num ((if neg then ''-'' else '''') @ ds @ r) = Some (dec_lit neg ds [] None, r)"
proof (rule parse_num_gen [where r = r])
  show "parse_frac r = Some ([], r)" "case r of [] \<Rightarrow> True | c # _ \<Rightarrow> \<not> is_digit c"
    using assms(4) by (auto simp: parse_frac_def delim_def split: list.splits)
qed (use assms parse_exp_delim in blast)+

lemma parse_num_frac:
  assumes "\<And>c. c \<in> set ds \<Longrightarrow> is_digit c" "ds \<noteq> []" "hd ds = CHR ''0'' \<Longrightarrow> tl ds = []" "delim r"
    "\<And>c. c \<in> set fs \<Longrightarrow> is_digit c" "fs \<noteq> []"
  shows "parse_num ((if neg then ''-'' else '''') @ ds @ CHR ''.'' # fs @ r) = Some (dec_lit neg ds fs None, r)"
proof (rule parse_num_gen [where r = r])
  have "case r of [] \<Rightarrow> True | c # _ \<Rightarrow> \<not> is_digit c"
    using assms(4) by (simp add: delim_def split: list.splits)
  from takeWhile_digits [OF assms(5) this] assms(6)
  show "parse_frac (CHR ''.'' # fs @ r) = Some (fs, r)" by (simp add: parse_frac_def)
  show "case CHR ''.'' # fs @ r of [] \<Rightarrow> True | c # _ \<Rightarrow> \<not> is_digit c" by simp
qed (use assms parse_exp_delim in blast)+

lemma digits_val_zeros: "digits_val (replicate k (CHR ''0'') @ ds) = digits_val ds"
  by (induction k) (simp_all add: digits_val_def digit_val_def)

lemma parse_num_str:
  assumes p: "dec_plain d" and r: "delim r"
  shows "parse_num (num_str d @ r) = Some (d, r)"
proof -
  obtain m k where d: "d = Dec m k" by (cases d)
  define ds where "ds = nat_str (nat \<bar>m\<bar>)"
  define p where "p = replicate (Suc k - length ds) (CHR ''0'') @ ds"
  have str: "num_str d = (if m < 0 then ''-'' else '''') @
      (if k = 0 then ds else take (length p - k) p @ CHR ''.'' # drop (length p - k) p)"
    using assms(1) by (simp add: d plain_str_def ds_def p_def Let_def)
  have dig: "is_digit c" if "c \<in> set p" for c
    using that nat_str_digits by (auto simp: p_def ds_def)
  have len: "k < length p" by (auto simp: p_def)
  have val: "digits_val p = nat \<bar>m\<bar>" by (simp add: p_def ds_def digits_val_zeros)
  have lit: "(if m < 0 then - int (nat \<bar>m\<bar>) else int (nat \<bar>m\<bar>)) = m" by auto
  show ?thesis
  proof (cases "k = 0")
    case True
    have "hd ds = CHR ''0'' \<Longrightarrow> tl ds = []"
      using hd_nat_str [of "nat \<bar>m\<bar>"] by (cases "m = 0") (auto simp: ds_def nat_str.simps [of 0])
    from parse_num_int [OF _ _ this r, of "m < 0"]
    have "parse_num ((if m < 0 then ''-'' else '''') @ ds @ r) = Some (dec_lit (m < 0) ds [] None, r)"
      by (metis ds_def nat_str_digits nat_str_neq_Nil)
    then show ?thesis using True lit unfolding str by (simp add: d dec_lit_def ds_def)
  next
    case False
    let ?a = "take (length p - k) p" and ?f = "drop (length p - k) p"
    have h: "tl ?a = []" if "hd ?a = CHR ''0''"
    proof (cases "length ds \<le> k")
      case True
      then have "length p - k = 1" by (simp add: p_def)
      then show "tl ?a = []" by (cases p) simp_all
    next
      case long: False
      then have "p = ds" by (simp add: p_def)
      moreover have "m \<noteq> 0" using long False by (auto simp: ds_def nat_str.simps [of 0])
      ultimately have "hd ?a \<noteq> CHR ''0''"
        using hd_nat_str [of "nat \<bar>m\<bar>"] long by (simp add: ds_def hd_take)
      then show ?thesis using that by simp
    qed
    have "parse_num ((if m < 0 then ''-'' else '''') @ ?a @ CHR ''.'' # ?f @ r)
            = Some (dec_lit (m < 0) ?a ?f None, r)"
      by (rule parse_num_frac [OF _ _ h r]) (use dig len False in \<open>auto dest: in_set_takeD in_set_dropD\<close>)
    moreover have "dec_lit (m < 0) ?a ?f None = d"
      using lit len by (auto simp: dec_lit_def val d)
    ultimately show ?thesis using False by (simp add: str)
  qed
qed

text \<open>Documents whose numbers are in the positional range, and the fuel
  that reading back such a document takes.\<close>

fun json_ok :: "json \<Rightarrow> bool" where
  "json_ok (JNum d) = dec_plain d"
| "json_ok (JArr xs) = (\<forall>x \<in> set xs. json_ok x)"
| "json_ok (JObj kvs) = (\<forall>kv \<in> set kvs. json_ok (snd kv))"
| "json_ok _ = True"

fun fuel :: "json \<Rightarrow> nat" and fuels :: "json list \<Rightarrow> nat" and fuelm :: "(string \<times> json) list \<Rightarrow> nat" where
  "fuel (JArr xs) = Suc (fuels xs)"
| "fuel (JObj kvs) = Suc (fuelm kvs)"
| "fuel _ = 1"
| "fuels [] = 0"
| "fuels (x # xs) = Suc (fuel x + fuels xs)"
| "fuelm [] = 0"
| "fuelm (kv # kvs) = Suc (fuel (snd kv) + fuelm kvs)"

lemma num_str_hd:
  assumes p: "dec_plain d"
  shows "\<exists>c s. num_str d = c # s \<and> (is_digit c \<or> c = CHR ''-'')"
proof -
  obtain m k where d: "d = Dec m k" by (cases d)
  define ds where "ds = nat_str (nat \<bar>m\<bar>)"
  define q where "q = replicate (Suc k - length ds) (CHR ''0'') @ ds"
  have ds: "ds \<noteq> []" "\<And>c. c \<in> set ds \<Longrightarrow> is_digit c" by (auto simp: ds_def nat_str_digits)
  then have q: "\<And>c. c \<in> set q \<Longrightarrow> is_digit c" "length q > k" by (auto simp: q_def)
  have ne: "take (length q - k) q \<noteq> []" using q(2) by auto
  then have h: "is_digit (hd (take (length q - k) q))"
    by (intro q(1)) (metis hd_in_set in_set_takeD)
  have str: "num_str d = (if m < 0 then ''-'' else []) @
      (if k = 0 then ds else take (length q - k) q @ CHR ''.'' # drop (length q - k) q)"
    using p by (simp add: d plain_str_def ds_def q_def Let_def)
  have "is_digit (hd ds)" using ds by simp
  with h ne ds(1) show ?thesis unfolding str
    by (cases ds; cases "take (length q - k) q") simp_all
qed

lemma digit_not:
  "is_digit c \<or> c = CHR ''-'' \<Longrightarrow> c \<noteq> CHR '' '' \<and> c \<noteq> CHR 0x09 \<and> c \<noteq> CHR 0x0A \<and> c \<noteq> CHR 0x0D \<and>
     c \<noteq> CHR ''{'' \<and> c \<noteq> CHR ''['' \<and> c \<noteq> CHR 0x22 \<and> c \<noteq> CHR ''n'' \<and> c \<noteq> CHR ''t'' \<and>
     c \<noteq> CHR ''f'' \<and> c \<noteq> CHR ''}'' \<and> c \<noteq> CHR '']''"
  by (auto simp: is_digit_def)

lemma json_str_hd:
  assumes "json_ok v"
  shows "\<exists>c s. json_str v = c # s \<and> c \<noteq> CHR '' '' \<and> c \<noteq> CHR 0x09 \<and> c \<noteq> CHR 0x0A \<and>
           c \<noteq> CHR 0x0D \<and> c \<noteq> CHR '']''"
proof (cases v)
  case (JNum d)
  then obtain c s where "num_str d = c # s" "is_digit c \<or> c = CHR ''-''"
    using num_str_hd [of d] assms by auto
  then show ?thesis using digit_not [of c] JNum by auto
qed (auto simp: quote_def)

lemma pval_num:
  assumes "dec_plain d" "delim r"
  shows "pval (Suc n) (num_str d @ r) = Some (JNum d, r)"
proof -
  obtain c s where c: "num_str d = c # s" "is_digit c \<or> c = CHR ''-''" using num_str_hd assms(1) by blast
  have "parse_num (c # s @ r) = Some (d, r)" using parse_num_str [OF assms] c(1) by simp
  then show ?thesis using digit_not [OF c(2)] by (simp add: c(1) has_prefix_def)
qed

lemma delim_simps [simp]:
  "delim []" "delim (CHR '','' # r)" "delim (CHR '']'' # r)" "delim (CHR ''}'' # r)"
  by (simp_all add: delim_def is_digit_def)

lemma pval_json_str:
  shows "json_ok v \<Longrightarrow> delim r \<Longrightarrow> fuel v \<le> n \<Longrightarrow> pval n (json_str v @ r) = Some (v, r)"
    and "\<forall>x \<in> set xs. json_ok x \<Longrightarrow> xs \<noteq> [] \<Longrightarrow> fuels xs \<le> n \<Longrightarrow> pelems n (elems_str xs @ r) = Some (xs, r)"
    and "\<forall>kv \<in> set kvs. json_ok (snd kv) \<Longrightarrow> kvs \<noteq> [] \<Longrightarrow> fuelm kvs \<le> n \<Longrightarrow> pmems n (mems_str kvs @ r) = Some (kvs, r)"
proof (induction v and xs and kvs arbitrary: n r and n r and n r rule: json_str_elems_str_mems_str.induct)
  case 1
  then show ?case by (cases n) (auto simp: has_prefix_def)
next
  case (2 b)
  then show ?case by (cases n) (auto simp: has_prefix_def)
next
  case (3 d)
  then obtain m where "n = Suc m" by (cases n) auto
  then show ?case using 3 pval_num by (simp del: pval.simps num_str.simps)
next
  case (4 s)
  then show ?case by (cases n) (auto simp: quote_def parse_chars_esc_str)
next
  case (5 xs)
  then obtain m where m: "n = Suc m" "fuels xs \<le> m" by (cases n) auto
  show ?case
  proof (cases xs)
    case Nil
    then show ?thesis by (simp add: m has_prefix_def)
  next
    case (Cons x ys)
    then obtain c s where "json_str x = c # s" "c \<noteq> CHR '' ''" "c \<noteq> CHR 0x09" "c \<noteq> CHR 0x0A" "c \<noteq> CHR 0x0D" "c \<noteq> CHR '']''"
      using json_str_hd [of x] "5.prems"(1) by auto
    then have "\<not> has_prefix (skip_ws (elems_str xs @ r)) '']''" by (simp add: Cons has_prefix_def)
    moreover have "pelems m (elems_str xs @ r) = Some (xs, r)"
      using "5.IH" "5.prems" m Cons by auto
    ultimately show ?thesis by (simp add: m)
  qed
next
  case (6 kvs)
  then obtain m where m: "n = Suc m" "fuelm kvs \<le> m" by (cases n) auto
  show ?case
  proof (cases kvs)
    case Nil
    then show ?thesis by (simp add: m has_prefix_def)
  next
    case (Cons x ys)
    then have "\<not> has_prefix (skip_ws (mems_str kvs @ r)) ''}''" by (cases x) (simp add: has_prefix_def quote_def)
    moreover have "pmems m (mems_str kvs @ r) = Some (kvs, r)"
      using "6.IH" "6.prems" m Cons by auto
    ultimately show ?thesis by (simp add: m)
  qed
next
  case 7
  then show ?case by simp
next
  case (8 x xs)
  then obtain m where m: "n = Suc m" "fuel x \<le> m" "fuels xs \<le> m" by (cases n) auto
  have x: "pval m (json_str x @ t) = Some (x, t)" if "delim t" for t
    using "8.IH"(1) "8.prems" m that by simp
  show ?case
  proof (cases "xs = []")
    case True
    then show ?thesis using m x by simp
  next
    case False
    then have "pelems m (elems_str xs @ r) = Some (xs, r)" using "8.IH"(2) "8.prems" m by simp
    then show ?thesis using False m x by simp
  qed
next
  case 9
  then show ?case by simp
next
  case (10 k v kvs)
  then obtain m where m: "n = Suc m" "fuel v \<le> m" "fuelm kvs \<le> m" by (cases n) auto
  have v: "pval m (json_str v @ t) = Some (v, t)" if "delim t" for t
    using "10.IH"(1) "10.prems" m that by simp
  show ?case
  proof (cases "kvs = []")
    case True
    then show ?thesis using m v by (simp add: quote_def has_prefix_def parse_chars_esc_str)
  next
    case False
    then have "pmems m (mems_str kvs @ r) = Some (kvs, r)" using "10.IH"(2) "10.prems" m by simp
    then show ?thesis using False m v by (simp add: quote_def has_prefix_def parse_chars_esc_str)
  qed
qed

lemma fuel_bound:
  shows "json_ok v \<Longrightarrow> fuel v \<le> 2 * length (json_str v)"
    and "\<forall>x \<in> set xs. json_ok x \<Longrightarrow> fuels xs + 2 \<le> 2 * length (elems_str xs) + 1"
    and "\<forall>kv \<in> set kvs. json_ok (snd kv) \<Longrightarrow> fuelm kvs + 2 \<le> 2 * length (mems_str kvs) + 1"
proof (induction v and xs and kvs rule: json_str_elems_str_mems_str.induct)
  case (3 d)
  then obtain c s where "num_str d = c # s" using num_str_hd [of d] by auto
  then show ?case by simp
next
  case (8 x xs)
  then show ?case by (cases "xs = []") auto
next
  case (10 k v kvs)
  then show ?case by (cases "kvs = []") (auto simp: quote_def)
qed (auto simp: quote_def)

lemma json_parse_json_str: 
  assumes ok: "json_ok v"
  shows "json_parse (json_str v) = Some v"
proof -
  have "fuel v \<le> 2 * length (json_str v) + 2" using fuel_bound(1) [OF ok] by simp
  then have "pval (2 * length (json_str v) + 2) (json_str v @ []) = Some (v, [])"
    using ok by (intro pval_json_str(1)) auto
  then show ?thesis unfolding json_parse_def by (simp del: pval.simps)
qed


section \<open>A marshalled document is one line\<close>

text \<open>A marshalled document is one line: it has no control character, whatever its
  strings hold, so a line-oriented reader gets it back in one piece.\<close>

definition printable :: "string \<Rightarrow> bool" where
  "printable s = (\<forall>c \<in> set s. 32 \<le> (of_char c :: nat))"

lemma printable_simps [simp]:
  "printable []" "printable (c # s) = (32 \<le> (of_char c :: nat) \<and> printable s)"
  "printable (s @ t) = (printable s \<and> printable t)"
  by (auto simp: printable_def)

lemma printable_digits: "(\<And>c. c \<in> set ds \<Longrightarrow> is_digit c) \<Longrightarrow> printable ds"
  unfolding printable_def is_digit_def by (meson le_trans numeral_le_iff semiring_norm(68,69,71,72,73,74,76,77,78,79))

lemma printable_nat_str [simp]: "printable (nat_str n)"
  by (rule printable_digits) (rule nat_str_digits)

lemma printable_sub: "printable s \<Longrightarrow> set t \<subseteq> set s \<Longrightarrow> printable t"
  by (auto simp: printable_def)

lemma printable_num_str:
  assumes p: "dec_plain d"
  shows "printable (num_str d)"
proof -
  obtain m k where d: "d = Dec m k" by (cases d)
  define ds where "ds = nat_str (nat \<bar>m\<bar>)"
  define q where "q = replicate (Suc k - length ds) (CHR ''0'') @ ds"
  have ds: "printable ds" by (simp add: ds_def)
  then have q: "printable q" by (simp add: q_def) (auto simp: printable_def)
  have tq: "printable (take n q)" "printable (drop n q)" for n
    using q by (auto intro: printable_sub dest: in_set_takeD in_set_dropD)
  have str: "num_str d = (if m < 0 then ''-'' else []) @
      (if k = 0 then ds else take (length q - k) q @ CHR ''.'' # drop (length q - k) q)"
    using p by (simp add: d plain_str_def ds_def q_def Let_def)
  show ?thesis unfolding str using ds tq by simp
qed

lemma printable_hex_char: "d < 16 \<Longrightarrow> printable [hex_char d]"
  by (auto simp: hex_char_def digit_char_def)

lemma printable_esc_str: "printable (esc_str s)"
proof (induction s)
  case (Cons c s)
  have "(of_char c :: nat) div 16 < 16" by (intro less_mult_imp_div_less) simp
  then have "printable (esc_u c)"
    using printable_hex_char [of "of_char c div 16"] printable_hex_char [of "of_char c mod 16"]
    by (simp add: esc_u_def)
  then have "printable (esc_char c)" by (auto simp: esc_char_def)
  then show ?case using Cons by simp
qed simp

lemma printable_json_str:
  shows "json_ok v \<Longrightarrow> printable (json_str v)"
    and "\<forall>x \<in> set xs. json_ok x \<Longrightarrow> printable (elems_str xs)"
    and "\<forall>kv \<in> set kvs. json_ok (snd kv) \<Longrightarrow> printable (mems_str kvs)"
  by (induction v and xs and kvs rule: json_str_elems_str_mems_str.induct)
     (auto simp: quote_def printable_esc_str printable_num_str simp del: num_str.simps)

section \<open>Maps\<close>

text \<open>
  A Go \<open>map[string]interface{}\<close> (type \<open>JsonObj\<close>) as the list of its entries in key order, the
  order \<open>json.Marshal\<close> prints them in. Decoding into \<open>interface{}\<close> builds such maps (a repeated
  key keeps its last value) and turns every number into a \<open>float64\<close>, which forgets the form
  of its literal.
\<close>

type_synonym obj = "(string \<times> json) list"

fun obj_set :: "obj \<Rightarrow> string \<Rightarrow> json \<Rightarrow> obj" where
  "obj_set [] k v = [(k, v)]"
| "obj_set ((k', v') # m) k v =
     (if k < k' then (k, v) # (k', v') # m
      else if k = k' then (k, v) # m
      else (k', v') # obj_set m k v)"

abbreviation obj_get :: "obj \<Rightarrow> string \<Rightarrow> json option" where
  "obj_get \<equiv> map_of"

definition obj_of :: "obj \<Rightarrow> obj" where
  "obj_of kvs = foldl (\<lambda>m (k, v). obj_set m k v) [] kvs"

definition obj_wf :: "obj \<Rightarrow> bool" where
  "obj_wf m = sorted_wrt (<) (map fst m)"

fun canon :: "json \<Rightarrow> json" and canons :: "json list \<Rightarrow> json list" and canonm :: "obj \<Rightarrow> obj" where
  "canon (JArr xs) = JArr (canons xs)"
| "canon (JObj kvs) = JObj (obj_of (canonm kvs))"
| "canon (JNum d) = JNum (dec_norm (mant d) (scale d))"
| "canon v = v"
| "canons [] = []"
| "canons (x # xs) = canon x # canons xs"
| "canonm [] = []"
| "canonm (kv # kvs) = (fst kv, canon (snd kv)) # canonm kvs"

fun canonical :: "json \<Rightarrow> bool" where
  "canonical (JArr xs) = (\<forall>x \<in> set xs. canonical x)"
| "canonical (JObj kvs) = (obj_wf kvs \<and> (\<forall>kv \<in> set kvs. canonical (snd kv)))"
| "canonical (JNum d) = dec_normal d"
| "canonical _ = True"

lemma obj_get_set [simp]: "obj_get (obj_set m k v) k' = (if k' = k then Some v else obj_get m k')"
  by (induction m) auto

lemma set_obj_set: "set (obj_set m k v) \<subseteq> insert (k, v) (set m)"
  by (induction m) (auto split: if_splits)

lemma fst_obj_set: "fst ` set (obj_set m k v) = insert k (fst ` set m)"
proof (induction m)
  case (Cons kv m)
  then show ?case by (cases kv) auto
qed simp

lemma obj_set_wf: "obj_wf m \<Longrightarrow> obj_wf (obj_set m k v)"
proof (induction m)
  case Nil
  then show ?case by (simp add: obj_wf_def)
next
  case (Cons kv m)
  have "obj_wf (obj_set m k v)" using Cons by (simp add: obj_wf_def)
  moreover have "fst kv < x" if "x \<in> fst ` set (obj_set m k v)" "fst kv < k" for x
    using that Cons.prems unfolding fst_obj_set by (auto simp: obj_wf_def)
  ultimately show ?case using Cons.prems
    by (cases kv) (auto simp: obj_wf_def)
qed

lemma obj_of_snoc [simp]: "obj_of (kvs @ [(k, v)]) = obj_set (obj_of kvs) k v"
  by (simp add: obj_of_def)

lemma obj_of_Nil [simp]: "obj_of [] = []"
  by (simp add: obj_of_def)

lemma obj_of_wf [simp]: "obj_wf (obj_of kvs)"
proof (induction kvs rule: rev_induct)
  case (snoc kv kvs)
  then show ?case by (cases kv) (simp add: obj_set_wf)
qed (simp add: obj_wf_def)

lemma set_obj_of: "set (obj_of kvs) \<subseteq> set kvs"
proof (induction kvs rule: rev_induct)
  case (snoc kv kvs)
  then show ?case using set_obj_set by (cases kv) (fastforce simp del: obj_set.simps)
qed simp

lemma obj_set_above: "\<forall>x \<in> set (map fst m). x < k \<Longrightarrow> obj_set m k v = m @ [(k, v)]"
  by (induction m) (auto simp: not_less_iff_gr_or_eq)

lemma obj_of_id: "obj_wf kvs \<Longrightarrow> obj_of kvs = kvs"
proof (induction kvs rule: rev_induct)
  case (snoc kv kvs)
  then have "obj_of kvs = kvs" by (simp add: obj_wf_def sorted_wrt_append)
  with snoc.prems show ?case
    by (cases kv) (auto simp: obj_wf_def sorted_wrt_append intro!: obj_set_above)
qed simp

lemma obj_of_get: "obj_get (obj_of kvs) k = obj_get (rev kvs) k"
proof (induction kvs rule: rev_induct)
  case (snoc kv kvs)
  then show ?case by (cases kv) simp
qed simp

lemma canonical_canon:
  shows "canonical (canon v)"
    and "\<forall>x \<in> set (canons xs). canonical x"
    and "\<forall>kv \<in> set (canonm kvs). canonical (snd kv)"
  by (induction v and xs and kvs rule: canon_canons_canonm.induct) (use set_obj_of in fastforce)+

lemma canon_id:
  shows "canonical v \<Longrightarrow> canon v = v"
    and "\<forall>x \<in> set xs. canonical x \<Longrightarrow> canons xs = xs"
    and "\<forall>kv \<in> set kvs. canonical (snd kv) \<Longrightarrow> canonm kvs = kvs"
  by (induction v and xs and kvs rule: canon_canons_canonm.induct) (auto simp: obj_of_id dec_norm_mant)

lemma json_ok_canon:
  shows "json_ok v \<Longrightarrow> json_ok (canon v)"
    and "\<forall>x \<in> set xs. json_ok x \<Longrightarrow> \<forall>x \<in> set (canons xs). json_ok x"
    and "\<forall>kv \<in> set kvs. json_ok (snd kv) \<Longrightarrow> \<forall>kv \<in> set (canonm kvs). json_ok (snd kv)"
proof (induction v and xs and kvs rule: canon_canons_canonm.induct)
  case (2 kvs)
  then show ?case using set_obj_of [of "canonm kvs"] by auto
next
  case (3 d)
  then show ?case using dec_plain_norm [of "mant d" "scale d"] by (cases d) simp
qed auto

end
