(* ===== verification/Json_Struct.thy ===== *)
theory Json_Struct
  imports Json
begin

text \<open>
  How \<open>encoding/json\<close> prints and reads Go structs. A struct type is described, as the package
  itself caches it, by the table of its fields in source order: the JSON name, how the field is
  printed (\<^term>\<open>None\<close> when \<open>omitempty\<close> leaves it out), and how a value read for it is stored
  (with a flag that is False when the value has the wrong type).

  Reading folds over the members of the document: each one goes to the field whose name matches
  it ignoring case, unknown names are skipped, and a value of the wrong type is reported but
  does not stop the rest. The locale \<open>json_struct\<close> states what a table has to satisfy for a
  printed struct to be read back, and is interpreted for every struct of the event log schema.
\<close>

section \<open>Tables of fields\<close>

datatype 's field = Field (fname: string) (fget: "'s \<Rightarrow> json option") (fset: "json \<Rightarrow> 's \<Rightarrow> 's \<times> bool")

type_synonym 's fields = "'s field list"

fun enc_fields :: "'s fields \<Rightarrow> 's \<Rightarrow> obj" where
  "enc_fields [] s = []"
| "enc_fields (f # fs) s =
     (case fget f s of None \<Rightarrow> enc_fields fs s | Some v \<Rightarrow> (fname f, v) # enc_fields fs s)"

definition find_field :: "'s fields \<Rightarrow> string \<Rightarrow> 's field option" where
  "find_field fs k = find (\<lambda>f. equal_fold (fname f) k) fs"

definition dec_member :: "'s fields \<Rightarrow> string \<times> json \<Rightarrow> 's \<times> bool \<Rightarrow> 's \<times> bool" where
  "dec_member fs kv s =
     (case find_field fs (fst kv) of
        None \<Rightarrow> s
      | Some f \<Rightarrow> (let (s', ok) = fset f (snd kv) (fst s) in (s', snd s \<and> ok)))"

definition dec_members :: "'s fields \<Rightarrow> obj \<Rightarrow> 's \<Rightarrow> 's \<times> bool" where
  "dec_members fs kvs s = fold (dec_member fs) kvs (s, True)"

text \<open>A struct value: \<open>null\<close> leaves it alone, anything but an object is a type error.\<close>

definition dec_struct :: "'s fields \<Rightarrow> json \<Rightarrow> 's \<Rightarrow> 's \<times> bool" where
  "dec_struct fs v s =
     (case v of JObj kvs \<Rightarrow> dec_members fs kvs s | JNull \<Rightarrow> (s, True) | _ \<Rightarrow> (s, False))"

definition enc_struct :: "'s fields \<Rightarrow> 's \<Rightarrow> json" where
  "enc_struct fs s = JObj (enc_fields fs s)"

section \<open>Scalars, maps, slices and pointers\<close>

definition dec_string :: "json \<Rightarrow> string \<Rightarrow> string \<times> bool" where
  "dec_string v old = (case v of JStr s \<Rightarrow> (s, True) | JNull \<Rightarrow> (old, True) | _ \<Rightarrow> (old, False))"

definition dec_float :: "json \<Rightarrow> dec \<Rightarrow> dec \<times> bool" where
  "dec_float v old =
     (case v of JNum d \<Rightarrow> (dec_norm (mant d) (scale d), True) | JNull \<Rightarrow> (old, True) | _ \<Rightarrow> (old, False))"

text \<open>An integer field takes only literals without fraction and exponent, in range.\<close>

definition dec_int :: "json \<Rightarrow> int \<Rightarrow> int \<times> bool" where
  "dec_int v old =
     (case v of
        JNum d \<Rightarrow> if scale d = 0 \<and> in_int64 (mant d) then (mant d, True) else (old, False)
      | JNull \<Rightarrow> (old, True)
      | _ \<Rightarrow> (old, False))"

definition dec_bool :: "json \<Rightarrow> bool \<Rightarrow> bool \<times> bool" where
  "dec_bool v old = (case v of JBool b \<Rightarrow> (b, True) | JNull \<Rightarrow> (old, True) | _ \<Rightarrow> (old, False))"

text \<open>A map that is already there keeps its entries: only a repeated member reaches that case.\<close>

definition dec_map :: "json \<Rightarrow> obj option \<Rightarrow> obj option \<times> bool" where
  "dec_map v old =
     (case v of
        JObj kvs \<Rightarrow> (Some (fold (\<lambda>(k, x) m. obj_set m k x) (canonm kvs)
                                (case old of None \<Rightarrow> [] | Some m \<Rightarrow> m)), True)
      | JNull \<Rightarrow> (None, True)
      | _ \<Rightarrow> (old, False))"

definition dec_slice :: "json \<Rightarrow> json list option \<Rightarrow> json list option \<times> bool" where
  "dec_slice v old =
     (case v of JArr xs \<Rightarrow> (Some (canons xs), True) | JNull \<Rightarrow> (None, True) | _ \<Rightarrow> (old, False))"

definition dec_iface :: "json \<Rightarrow> json option \<Rightarrow> json option \<times> bool" where
  "dec_iface v old = (case v of JNull \<Rightarrow> (None, True) | _ \<Rightarrow> (Some (canon v), True))"

text \<open>A pointer to a struct: \<open>null\<close> clears it, anything else allocates it if it is nil.\<close>

definition dec_ptr :: "'s fields \<Rightarrow> 's \<Rightarrow> json \<Rightarrow> 's option \<Rightarrow> 's option \<times> bool" where
  "dec_ptr fs zero v old =
     (case v of
        JNull \<Rightarrow> (None, True)
      | _ \<Rightarrow> apfst Some (dec_struct fs v (case old of None \<Rightarrow> zero | Some s \<Rightarrow> s)))"

definition enc_string :: "string \<Rightarrow> json option" where
  "enc_string s = (if s = [] then None else Some (JStr s))"

definition enc_float :: "dec \<Rightarrow> json option" where
  "enc_float d = (if mant d = 0 then None else Some (JNum d))"

definition enc_int :: "int \<Rightarrow> json option" where
  "enc_int i = (if i = 0 then None else Some (JNum (dec_of_int i)))"

definition enc_bool :: "bool \<Rightarrow> json option" where
  "enc_bool b = (if b then Some (JBool True) else None)"

definition enc_map :: "obj option \<Rightarrow> json option" where
  "enc_map m = (case m of None \<Rightarrow> None | Some kvs \<Rightarrow> if kvs = [] then None else Some (JObj kvs))"

definition enc_slice :: "json list option \<Rightarrow> json option" where
  "enc_slice a = (case a of None \<Rightarrow> None | Some xs \<Rightarrow> if xs = [] then None else Some (JArr xs))"

definition enc_ptr :: "'s fields \<Rightarrow> 's option \<Rightarrow> json option" where
  "enc_ptr fs p = map_option (enc_struct fs) p"

section \<open>Field descriptions\<close>

text \<open>One constructor per kind of Go field; the arguments are the JSON name, the selector and
  the update function of the record. The fields of an embedded struct pointer belong to the
  outer struct: printing skips them when the pointer is nil, reading one of them allocates it.\<close>

definition str_field :: "string \<Rightarrow> ('s \<Rightarrow> string) \<Rightarrow> ((string \<Rightarrow> string) \<Rightarrow> 's \<Rightarrow> 's) \<Rightarrow> 's field" where
  "str_field n get upd = Field n (\<lambda>s. enc_string (get s))
     (\<lambda>v s. apfst (\<lambda>x. upd (\<lambda>_. x) s) (dec_string v (get s)))"

definition float_field :: "string \<Rightarrow> ('s \<Rightarrow> dec) \<Rightarrow> ((dec \<Rightarrow> dec) \<Rightarrow> 's \<Rightarrow> 's) \<Rightarrow> 's field" where
  "float_field n get upd = Field n (\<lambda>s. enc_float (get s))
     (\<lambda>v s. apfst (\<lambda>x. upd (\<lambda>_. x) s) (dec_float v (get s)))"

definition int_field :: "string \<Rightarrow> ('s \<Rightarrow> int) \<Rightarrow> ((int \<Rightarrow> int) \<Rightarrow> 's \<Rightarrow> 's) \<Rightarrow> 's field" where
  "int_field n get upd = Field n (\<lambda>s. enc_int (get s))
     (\<lambda>v s. apfst (\<lambda>x. upd (\<lambda>_. x) s) (dec_int v (get s)))"

definition bool_field :: "string \<Rightarrow> ('s \<Rightarrow> bool) \<Rightarrow> ((bool \<Rightarrow> bool) \<Rightarrow> 's \<Rightarrow> 's) \<Rightarrow> 's field" where
  "bool_field n get upd = Field n (\<lambda>s. enc_bool (get s))
     (\<lambda>v s. apfst (\<lambda>x. upd (\<lambda>_. x) s) (dec_bool v (get s)))"

definition map_field ::
  "string \<Rightarrow> ('s \<Rightarrow> obj option) \<Rightarrow> ((obj option \<Rightarrow> obj option) \<Rightarrow> 's \<Rightarrow> 's) \<Rightarrow> 's field" where
  "map_field n get upd = Field n (\<lambda>s. enc_map (get s))
     (\<lambda>v s. apfst (\<lambda>x. upd (\<lambda>_. x) s) (dec_map v (get s)))"

definition slice_field ::
  "string \<Rightarrow> ('s \<Rightarrow> json list option) \<Rightarrow> ((json list option \<Rightarrow> json list option) \<Rightarrow> 's \<Rightarrow> 's) \<Rightarrow> 's field" where
  "slice_field n get upd = Field n (\<lambda>s. enc_slice (get s))
     (\<lambda>v s. apfst (\<lambda>x. upd (\<lambda>_. x) s) (dec_slice v (get s)))"

definition iface_field ::
  "string \<Rightarrow> ('s \<Rightarrow> json option) \<Rightarrow> ((json option \<Rightarrow> json option) \<Rightarrow> 's \<Rightarrow> 's) \<Rightarrow> 's field" where
  "iface_field n get upd = Field n get
     (\<lambda>v s. apfst (\<lambda>x. upd (\<lambda>_. x) s) (dec_iface v (get s)))"

definition struct_field ::
  "string \<Rightarrow> 'a fields \<Rightarrow> ('s \<Rightarrow> 'a) \<Rightarrow> (('a \<Rightarrow> 'a) \<Rightarrow> 's \<Rightarrow> 's) \<Rightarrow> 's field" where
  "struct_field n fs get upd = Field n (\<lambda>s. Some (enc_struct fs (get s)))
     (\<lambda>v s. apfst (\<lambda>x. upd (\<lambda>_. x) s) (dec_struct fs v (get s)))"

definition ptr_field ::
  "string \<Rightarrow> 'a fields \<Rightarrow> 'a \<Rightarrow> ('s \<Rightarrow> 'a option) \<Rightarrow> (('a option \<Rightarrow> 'a option) \<Rightarrow> 's \<Rightarrow> 's) \<Rightarrow> 's field" where
  "ptr_field n fs zero get upd = Field n (\<lambda>s. enc_ptr fs (get s))
     (\<lambda>v s. apfst (\<lambda>x. upd (\<lambda>_. x) s) (dec_ptr fs zero v (get s)))"

definition emb_field ::
  "('s \<Rightarrow> 'a option) \<Rightarrow> (('a option \<Rightarrow> 'a option) \<Rightarrow> 's \<Rightarrow> 's) \<Rightarrow> 'a \<Rightarrow> 'a field \<Rightarrow> 's field" where
  "emb_field get upd zero f = Field (fname f)
     (\<lambda>s. case get s of None \<Rightarrow> None | Some a \<Rightarrow> fget f a)
     (\<lambda>v s. apfst (\<lambda>a. upd (\<lambda>_. Some a) s)
             (fset f v (case get s of None \<Rightarrow> zero | Some a \<Rightarrow> a)))"

lemmas field_defs = str_field_def float_field_def int_field_def bool_field_def map_field_def
  slice_field_def iface_field_def struct_field_def ptr_field_def emb_field_def

section \<open>Values that survive printing and reading\<close>

definition float_ok :: "dec \<Rightarrow> bool" where
  "float_ok d = dec_normal d"

definition map_ok :: "obj option \<Rightarrow> bool" where
  "map_ok m = (case m of None \<Rightarrow> True | Some kvs \<Rightarrow> canonical (JObj kvs))"

definition slice_ok :: "json list option \<Rightarrow> bool" where
  "slice_ok a = (case a of None \<Rightarrow> True | Some xs \<Rightarrow> canonical (JArr xs))"

definition iface_ok :: "json option \<Rightarrow> bool" where
  "iface_ok v = (case v of None \<Rightarrow> True | Some x \<Rightarrow> canonical x \<and> x \<noteq> JNull)"

lemma fold_obj_set: "fold (\<lambda>(k, x) m. obj_set m k x) kvs [] = obj_of kvs"
  by (simp add: obj_of_def foldl_conv_fold case_prod_unfold)

lemma enc_dec_string: "enc_string s = Some v \<Longrightarrow> dec_string v t = (s, True)"
  by (auto simp: enc_string_def dec_string_def split: if_splits)

lemma enc_dec_float: "enc_float d = Some v \<Longrightarrow> float_ok d \<Longrightarrow> dec_float v t = (d, True)"
  by (auto simp: enc_float_def dec_float_def float_ok_def dec_norm_mant split: if_splits)

lemma enc_dec_int: "enc_int i = Some v \<Longrightarrow> in_int64 i \<Longrightarrow> dec_int v t = (i, True)"
  by (auto simp: enc_int_def dec_int_def dec_of_int_def split: if_splits)

lemma enc_dec_bool: "enc_bool b = Some v \<Longrightarrow> dec_bool v t = (b, True)"
  by (auto simp: enc_bool_def dec_bool_def split: if_splits)

lemma enc_dec_map: "enc_map m = Some v \<Longrightarrow> map_ok m \<Longrightarrow> enc_map t = None \<Longrightarrow> dec_map v t = (m, True)"
  by (auto simp: enc_map_def dec_map_def map_ok_def fold_obj_set canon_id obj_of_id
      split: option.splits if_splits)

lemma enc_dec_slice: "enc_slice a = Some v \<Longrightarrow> slice_ok a \<Longrightarrow> dec_slice v t = (a, True)"
  by (auto simp: enc_slice_def dec_slice_def slice_ok_def canon_id split: option.splits if_splits)

lemma dec_iface_ok: "iface_ok (Some v) \<Longrightarrow> dec_iface v t = (Some v, True)"
  by (cases v) (auto simp: dec_iface_def iface_ok_def canon_id obj_of_id dec_norm_mant)

lemmas enc_dec = enc_dec_string enc_dec_float enc_dec_int enc_dec_bool enc_dec_map enc_dec_slice

lemma enc_zero [simp]:
  "enc_string [] = None" "enc_float (Dec 0 0) = None" "enc_int 0 = None" "enc_bool False = None"
  "enc_map None = None" "enc_slice None = None" "enc_ptr fs None = None"
  by (simp_all add: enc_string_def enc_float_def enc_int_def enc_bool_def enc_map_def enc_slice_def
      enc_ptr_def)

lemma enc_ptr_None [simp]: "enc_ptr fs p = None \<longleftrightarrow> p = None"
  by (simp add: enc_ptr_def)

section \<open>Structs that survive printing and reading\<close>

locale json_struct =
  fixes fs :: "'s fields" and zero :: 's and ok :: "'s \<Rightarrow> bool"
  assumes names: "distinct (map (map to_lower \<circ> fname) fs)"
    and independent: "f \<in> set fs \<Longrightarrow> g \<in> set fs \<Longrightarrow> fname f \<noteq> fname g \<Longrightarrow>
      fget g (fst (fset f v s)) = fget g s"
    and restored: "f \<in> set fs \<Longrightarrow> ok s \<Longrightarrow> fget f s = Some v \<Longrightarrow> fget f t = fget f zero \<Longrightarrow>
      fget f (fst (fset f v t)) = Some v \<and> snd (fset f v t)"
    and omitted: "f \<in> set fs \<Longrightarrow> ok s \<Longrightarrow> fget f s = None \<Longrightarrow> fget f zero = None"
begin

lemma find_field_fname: "f \<in> set fs \<Longrightarrow> find_field fs (fname f) = Some f"
  using names unfolding find_field_def
  by (induction fs) (auto simp: equal_fold_def)

lemma dec_member_field:
  "f \<in> set fs \<Longrightarrow> dec_member fs (fname f, v) (t, b) = (fst (fset f v t), b \<and> snd (fset f v t))"
  by (simp add: dec_member_def find_field_fname split: prod.splits)

text \<open>Reading the fields \<open>gs\<close> of a printed struct sets each of them and touches no other.\<close>

lemma dec_enc_suffix:
  assumes "ok s" "set gs \<subseteq> set fs" "distinct (map fname gs)"
    and "\<And>g. g \<in> set gs \<Longrightarrow> fget g t = fget g zero"
  shows "\<exists>t'. fold (dec_member fs) (enc_fields gs s) (t, b) = (t', b) \<and>
    (\<forall>g \<in> set gs. fget g t' = fget g s) \<and>
    (\<forall>f \<in> set fs. fname f \<notin> fname ` set gs \<longrightarrow> fget f t' = fget f t)"
  using assms(2-)
proof (induction gs arbitrary: t)
  case (Cons g gs)
  show ?case
  proof (cases "fget g s")
    case None
    then have "fget g zero = None" using omitted assms(1) Cons.prems(1) by (simp add: omitted)
    with Cons.prems(3) have g0: "fget g t = None" by simp
    obtain t' where "fold (dec_member fs) (enc_fields gs s) (t, b) = (t', b)"
      "\<forall>g \<in> set gs. fget g t' = fget g s"
      "\<forall>f \<in> set fs. fname f \<notin> fname ` set gs \<longrightarrow> fget f t' = fget f t"
      using Cons.IH [of t] Cons.prems by auto
    with None g0 Cons.prems(1,2) show ?thesis by (intro exI [of _ t']) auto
  next
    case (Some v)
    let ?t = "fst (fset g v t)"
    have g: "g \<in> set fs" "fget g ?t = Some v" "snd (fset g v t)"
      using restored [of g s v t] assms(1) Some Cons.prems by auto
    have keep: "fget f ?t = fget f t" if "f \<in> set fs" "fname f \<noteq> fname g" for f
      using independent that g(1) by metis
    have "fget h ?t = fget h zero" if h: "h \<in> set gs" for h
    proof -
      have "h \<in> set fs" "fname h \<noteq> fname g" "fget h t = fget h zero"
        using Cons.prems h by (auto simp: image_def)
      then show ?thesis using keep by simp
    qed
    then obtain t' where "fold (dec_member fs) (enc_fields gs s) (?t, b) = (t', b)"
      "\<forall>g \<in> set gs. fget g t' = fget g s"
      "\<forall>f \<in> set fs. fname f \<notin> fname ` set gs \<longrightarrow> fget f t' = fget f ?t"
      using Cons.IH [of ?t] Cons.prems by auto
    with Some g keep Cons.prems(1,2) show ?thesis
      by (intro exI [of _ t']) (auto simp: dec_member_field)
  qed
qed auto

lemma distinct_fnames: "distinct (map fname fs)"
  using names by (metis distinct_map map_map)

text \<open>The round trip: what is read back prints the same, and no type error is reported.\<close>

lemma round_trip:
  assumes "ok s" and "\<And>f. f \<in> set fs \<Longrightarrow> fget f t = fget f zero"
  shows "enc_struct fs (fst (dec_struct fs (enc_struct fs s) t)) = enc_struct fs s"
    and "snd (dec_struct fs (enc_struct fs s) t)"
proof -
  obtain t' where t': "fold (dec_member fs) (enc_fields fs s) (t, True) = (t', True)"
    and get: "\<forall>g \<in> set fs. fget g t' = fget g s"
    using dec_enc_suffix [OF assms(1) subset_refl distinct_fnames, of t True] assms(2) by auto
  have "enc_fields gs t' = enc_fields gs s" if "set gs \<subseteq> set fs" for gs
    using that get by (induction gs) (auto split: option.splits)
  then show "enc_struct fs (fst (dec_struct fs (enc_struct fs s) t)) = enc_struct fs s"
    and "snd (dec_struct fs (enc_struct fs s) t)"
    by (simp_all add: enc_struct_def dec_struct_def dec_members_def t')
qed

lemma enc_fields_lookup:
  assumes "f \<in> set fs"
  shows "map_of (enc_fields fs s) (fname f) = fget f s"
proof -
  have "map_of (enc_fields gs s) (fname f) = (if f \<in> set gs then fget f s else None)"
    if "distinct (map fname gs)" "f \<in> set gs \<or> fname f \<notin> fname ` set gs" for gs
    using that
  proof (induction gs)
    case (Cons g gs)
    then show ?case by (auto split: option.splits) (metis image_eqI)
  qed simp
  from this [OF distinct_fnames] assms show ?thesis by simp
qed

text \<open>The same for a nested struct, whose old value is only known to print like the zero value.\<close>

lemma nested:
  assumes "ok s" "enc_struct fs t = enc_struct fs zero"
  shows "enc_struct fs (fst (dec_struct fs (enc_struct fs s) t)) = enc_struct fs s"
    and "snd (dec_struct fs (enc_struct fs s) t)"
proof -
  have "fget f t = fget f zero" if "f \<in> set fs" for f
    using enc_fields_lookup [OF that, of t] enc_fields_lookup [OF that, of zero] assms(2)
    by (simp add: enc_struct_def)
  then show "enc_struct fs (fst (dec_struct fs (enc_struct fs s) t)) = enc_struct fs s"
    and "snd (dec_struct fs (enc_struct fs s) t)"
    using round_trip [OF assms(1)] by auto
qed

lemma nested_ptr:
  assumes "\<And>s. p = Some s \<Longrightarrow> ok s" "enc_ptr fs p = Some v"
  shows "enc_ptr fs (fst (dec_ptr fs zero v None)) = Some v" and "snd (dec_ptr fs zero v None)"
proof -
  obtain s where s: "p = Some s" "v = enc_struct fs s" using assms(2) by (auto simp: enc_ptr_def)
  then show "enc_ptr fs (fst (dec_ptr fs zero v None)) = Some v" "snd (dec_ptr fs zero v None)"
    using nested [of s zero] assms(1) by (simp_all add: dec_ptr_def enc_ptr_def enc_struct_def apfst_def)
qed

end

section \<open>What decoding can produce\<close>

lemma dec_float_ok: "float_ok old \<Longrightarrow> float_ok (fst (dec_float v old))"
  by (auto simp: dec_float_def float_ok_def split: json.splits)

lemma dec_int_ok: "in_int64 old \<Longrightarrow> in_int64 (fst (dec_int v old))"
  by (auto simp: dec_int_def split: json.splits)

lemma fold_obj_set_ok:
  "obj_wf m \<Longrightarrow> \<forall>kv \<in> set m. canonical (snd kv) \<Longrightarrow> \<forall>kv \<in> set kvs. canonical (snd kv) \<Longrightarrow>
   canonical (JObj (fold (\<lambda>(k, x) m. obj_set m k x) kvs m))"
proof (induction kvs arbitrary: m)
  case (Cons kv kvs)
  obtain k v where kv: "kv = (k, v)" by (cases kv)
  have "\<forall>x \<in> set (obj_set m k v). canonical (snd x)"
    using Cons.prems set_obj_set [of m k v] kv by auto
  moreover have "obj_wf (obj_set m k v)" using Cons.prems(1) by (rule obj_set_wf)
  ultimately show ?case using Cons.IH [of "obj_set m k v"] Cons.prems(3) kv by simp
qed simp

lemma dec_map_ok: "map_ok old \<Longrightarrow> map_ok (fst (dec_map v old))"
proof (cases v)
  case (JObj kvs)
  assume "map_ok old"
  then have "obj_wf (case old of None \<Rightarrow> [] | Some m \<Rightarrow> m)"
    "\<forall>kv \<in> set (case old of None \<Rightarrow> [] | Some m \<Rightarrow> m). canonical (snd kv)"
    by (auto simp: map_ok_def obj_wf_def split: option.splits)
  from fold_obj_set_ok [OF this canonical_canon(3)] show ?thesis
    by (simp add: JObj dec_map_def map_ok_def)
qed (auto simp: dec_map_def map_ok_def)

lemma dec_slice_ok: "slice_ok old \<Longrightarrow> slice_ok (fst (dec_slice v old))"
  using canonical_canon(2) by (auto simp: dec_slice_def slice_ok_def split: json.splits)

lemma dec_iface_ok': "iface_ok (fst (dec_iface v old))"
  using canonical_canon(1) [of v] by (cases v) (auto simp: dec_iface_def iface_ok_def)

lemma zero_values_ok [simp]:
  "float_ok (Dec 0 0)" "in_int64 0" "map_ok None" "slice_ok None" "iface_ok None"
  by (simp_all add: float_ok_def in_int64_def map_ok_def slice_ok_def iface_ok_def)

lemmas dec_ok = dec_float_ok dec_int_ok dec_map_ok dec_slice_ok dec_iface_ok'

text \<open>A table all of whose setters keep \<open>ok\<close>: then everything decoding builds satisfies it.\<close>

locale json_struct_inv = json_struct fs zero ok for fs :: "'s fields" and zero ok +
  assumes preserved: "f \<in> set fs \<Longrightarrow> ok s \<Longrightarrow> ok (fst (fset f v s))"
    and zero_ok: "ok zero"
begin

lemma dec_struct_ok:
  assumes "ok s"
  shows "ok (fst (dec_struct fs v s))"
proof -
  have step: "ok (fst (dec_member fs kv (t, b)))" if "ok t" for kv t b
    using that preserved by (auto simp: dec_member_def find_field_def find_Some_iff split: option.splits prod.splits)
      (metis fst_conv nth_mem)
  have "ok (fst (fold (dec_member fs) kvs sb))" if "ok (fst sb)" for kvs sb
    using that
  proof (induction kvs arbitrary: sb)
    case (Cons kv kvs)
    then show ?case using step [of "fst sb" kv "snd sb"] by simp
  qed simp
  then show ?thesis using assms by (auto simp: dec_struct_def dec_members_def split: json.splits)
qed

lemma dec_ptr_ok:
  assumes "opt_all ok p"
  shows "opt_all ok (fst (dec_ptr fs zero v p))"
  using dec_struct_ok [of zero v] zero_ok assms
  by (cases p) (auto simp: dec_ptr_def dec_struct_ok split: json.splits)

end

end
