(* ===== verification/Event_Schema.thy ===== *)
theory Event_Schema
  imports Json_Struct
begin

text \<open>
  The event log schema (\<open>pkg/types/eventlog-schema.go\<close>): one record per struct, with its fields
  in source order and its JSON names in the table next to it. Structs embedded by value are
  flattened into the struct that embeds them, struct pointers are options, \<open>JsonObj\<close> and
  \<open>JsonArr\<close> are options of the map and the slice (\<^term>\<open>None\<close> is nil).
\<close>

section \<open>Leaf structs\<close>

record EventLogDataProcessingTime =
  pt_StartTime :: string
  pt_FirstAudioBufferTime :: string
  pt_DurationMs :: dec

definition pt_zero :: EventLogDataProcessingTime where
  "pt_zero = \<lparr>pt_StartTime = [], pt_FirstAudioBufferTime = [], pt_DurationMs = Dec 0 0\<rparr>"

definition pt_fields :: "EventLogDataProcessingTime fields" where
  "pt_fields =
     [str_field ''startTime'' pt_StartTime pt_StartTime_update,
      str_field ''firstAudioBufferTime'' pt_FirstAudioBufferTime pt_FirstAudioBufferTime_update,
      float_field ''durationMs'' pt_DurationMs pt_DurationMs_update]"

record DlgEventLogData =
  dlg_SessionID :: string
  dlg_SeqID :: string
  dlg_Events :: "json list option"
  dlg_Channel :: string
  dlg_SessionTimeoutSec :: int

definition dlg_zero :: DlgEventLogData where
  "dlg_zero = \<lparr>dlg_SessionID = [], dlg_SeqID = [], dlg_Events = None, dlg_Channel = [],
     dlg_SessionTimeoutSec = 0\<rparr>"

definition dlg_fields :: "DlgEventLogData fields" where
  "dlg_fields =
     [str_field ''sessionid'' dlg_SessionID dlg_SessionID_update,
      str_field ''seqid'' dlg_SeqID dlg_SeqID_update,
      slice_field ''events'' dlg_Events dlg_Events_update,
      str_field ''channel'' dlg_Channel dlg_Channel_update,
      int_field ''sessionTimeoutSec'' dlg_SessionTimeoutSec dlg_SessionTimeoutSec_update]"

record AsrCallSummaryPayload =
  cs_SessionID :: string
  cs_ClientData :: "obj option"
  cs_ServerData :: "obj option"
  cs_AbsStartTime :: int
  cs_DataPack :: "obj option"
  cs_RecognitionObjects :: "json list option"
  cs_Recognize :: "json list option"
  cs_IPKey :: string
  cs_AbsEndTime :: int
  cs_IPS3Events :: string

definition cs_zero :: AsrCallSummaryPayload where
  "cs_zero = \<lparr>cs_SessionID = [], cs_ClientData = None, cs_ServerData = None, cs_AbsStartTime = 0,
     cs_DataPack = None, cs_RecognitionObjects = None, cs_Recognize = None, cs_IPKey = [],
     cs_AbsEndTime = 0, cs_IPS3Events = []\<rparr>"

definition cs_fields :: "AsrCallSummaryPayload fields" where
  "cs_fields =
     [str_field ''sessionId'' cs_SessionID cs_SessionID_update,
      map_field ''clientData'' cs_ClientData cs_ClientData_update,
      map_field ''serverData'' cs_ServerData cs_ServerData_update,
      int_field ''absStartTime'' cs_AbsStartTime cs_AbsStartTime_update,
      map_field ''dataPack'' cs_DataPack cs_DataPack_update,
      slice_field ''recognitionObjects'' cs_RecognitionObjects cs_RecognitionObjects_update,
      slice_field ''recognize'' cs_Recognize cs_Recognize_update,
      str_field ''IPKey'' cs_IPKey cs_IPKey_update,
      int_field ''absEndTime'' cs_AbsEndTime cs_AbsEndTime_update,
      str_field ''IP!S3Events'' cs_IPS3Events cs_IPS3Events_update]"

record AsrFinalResultPayload =
  fr_Timestamp :: int

definition fr_zero :: AsrFinalResultPayload where
  "fr_zero = \<lparr>fr_Timestamp = 0\<rparr>"

definition fr_fields :: "AsrFinalResultPayload fields" where
  "fr_fields = [int_field ''timestamp'' fr_Timestamp fr_Timestamp_update]"

record RequestPayload =
  req_RecognitionInitMessage :: "obj option"
  req_Parameters :: "obj option"
  req_Model :: "obj option"
  req_UserID :: string
  req_Input :: "json option"
  req_SessionID :: string
  req_Selector :: "obj option"
  req_Payload :: "obj option"
  req_SessionTimeoutSec :: int
  req_ClientData :: "obj option"
  req_Resources :: "json list option"

definition req_zero :: RequestPayload where
  "req_zero = \<lparr>req_RecognitionInitMessage = None, req_Parameters = None, req_Model = None,
     req_UserID = [], req_Input = None, req_SessionID = [], req_Selector = None,
     req_Payload = None, req_SessionTimeoutSec = 0, req_ClientData = None, req_Resources = None\<rparr>"

definition req_fields :: "RequestPayload fields" where
  "req_fields =
     [map_field ''recognitionInitMessage'' req_RecognitionInitMessage req_RecognitionInitMessage_update,
      map_field ''parameters'' req_Parameters req_Parameters_update,
      map_field ''model'' req_Model req_Model_update,
      str_field ''userId'' req_UserID req_UserID_update,
      iface_field ''input'' req_Input req_Input_update,
      str_field ''sessionId'' req_SessionID req_SessionID_update,
      map_field ''selector'' req_Selector req_Selector_update,
      map_field ''payload'' req_Payload req_Payload_update,
      int_field ''sessionTimeoutSec'' req_SessionTimeoutSec req_SessionTimeoutSec_update,
      map_field ''clientData'' req_ClientData req_ClientData_update,
      slice_field ''resources'' req_Resources req_Resources_update]"

record ResponseStatus =
  st_Code :: int
  st_Message :: string
  st_Details :: string

definition st_zero :: ResponseStatus where
  "st_zero = \<lparr>st_Code = 0, st_Message = [], st_Details = []\<rparr>"

definition st_fields :: "ResponseStatus fields" where
  "st_fields =
     [int_field ''code'' st_Code st_Code_update,
      str_field ''message'' st_Message st_Message_update,
      str_field ''details'' st_Details st_Details_update]"

record ResultPayload =
  res_ResultType :: int
  res_AbsStartMs :: int
  res_AbsEndMs :: int
  res_DataPack :: "obj option"
  res_UtteranceInfo :: "obj option"
  res_Hypotheses :: "json list option"
  res_RedactedReason :: string
  res_FormattedLiteral :: string
  res_Interpretations :: "json list option"
  res_Literal :: string
  res_Sensitive :: bool

definition res_zero :: ResultPayload where
  "res_zero = \<lparr>res_ResultType = 0, res_AbsStartMs = 0, res_AbsEndMs = 0, res_DataPack = None,
     res_UtteranceInfo = None, res_Hypotheses = None, res_RedactedReason = [],
     res_FormattedLiteral = [], res_Interpretations = None, res_Literal = [], res_Sensitive = False\<rparr>"

definition res_fields :: "ResultPayload fields" where
  "res_fields =
     [int_field ''resultType'' res_ResultType res_ResultType_update,
      int_field ''AbsStartMs'' res_AbsStartMs res_AbsStartMs_update,
      int_field ''AbsEndMs'' res_AbsEndMs res_AbsEndMs_update,
      map_field ''dataPack'' res_DataPack res_DataPack_update,
      map_field ''utteranceInfo'' res_UtteranceInfo res_UtteranceInfo_update,
      slice_field ''hypotheses'' res_Hypotheses res_Hypotheses_update,
      str_field ''redactedReason'' res_RedactedReason res_RedactedReason_update,
      str_field ''formattedLiteral'' res_FormattedLiteral res_FormattedLiteral_update,
      slice_field ''interpretations'' res_Interpretations res_Interpretations_update,
      str_field ''literal'' res_Literal res_Literal_update,
      bool_field ''sensitive'' res_Sensitive res_Sensitive_update]"

record AsrStartOfSpeechPayload =
  sos_FirstAudioToStartOfSpeech :: int

definition sos_zero :: AsrStartOfSpeechPayload where
  "sos_zero = \<lparr>sos_FirstAudioToStartOfSpeech = 0\<rparr>"

definition sos_fields :: "AsrStartOfSpeechPayload fields" where
  "sos_fields =
     [int_field ''firstAudioToStartOfSpeech'' sos_FirstAudioToStartOfSpeech
        sos_FirstAudioToStartOfSpeech_update]"

section \<open>Nested structs\<close>

record AsrEventLogData =
  asr_AsrSessionID :: string
  asr_AudioUrn :: string
  asr_RedactedReason :: string
  asr_AudioDurationMs :: dec
  asr_CallSummary :: "AsrCallSummaryPayload option"
  asr_FinalResult :: "AsrFinalResultPayload option"

definition asr_zero :: AsrEventLogData where
  "asr_zero = \<lparr>asr_AsrSessionID = [], asr_AudioUrn = [], asr_RedactedReason = [],
     asr_AudioDurationMs = Dec 0 0, asr_CallSummary = None, asr_FinalResult = None\<rparr>"

definition asr_fields :: "AsrEventLogData fields" where
  "asr_fields =
     [str_field ''asrSessionid'' asr_AsrSessionID asr_AsrSessionID_update,
      str_field ''audioUrn'' asr_AudioUrn asr_AudioUrn_update,
      str_field ''redactedReason'' asr_RedactedReason asr_RedactedReason_update,
      float_field ''audioDurationMs'' asr_AudioDurationMs asr_AudioDurationMs_update,
      ptr_field ''callsummary'' cs_fields cs_zero asr_CallSummary asr_CallSummary_update,
      ptr_field ''finalResult'' fr_fields fr_zero asr_FinalResult asr_FinalResult_update]"

record ResponsePayload =
  resp_ResultPayload :: "ResultPayload option"
  resp_Events :: "json list option"
  resp_StartOfSeech :: "AsrStartOfSpeechPayload option"
  resp_Timestamp :: int
  resp_Payload :: "obj option"
  resp_Status :: "ResponseStatus option"

definition resp_zero :: ResponsePayload where
  "resp_zero = \<lparr>resp_ResultPayload = None, resp_Events = None, resp_StartOfSeech = None,
     resp_Timestamp = 0, resp_Payload = None, resp_Status = None\<rparr>"

definition resp_fields :: "ResponsePayload fields" where
  "resp_fields =
     [ptr_field ''result'' res_fields res_zero resp_ResultPayload resp_ResultPayload_update,
      slice_field ''events'' resp_Events resp_Events_update,
      ptr_field ''startOfSpeech'' sos_fields sos_zero resp_StartOfSeech resp_StartOfSeech_update,
      int_field ''timestamp'' resp_Timestamp resp_Timestamp_update,
      map_field ''event'' resp_Payload resp_Payload_update,
      ptr_field ''status'' st_fields st_zero resp_Status resp_Status_update]"

record EventLogData =
  data_Asr :: "AsrEventLogData option"
  data_Dlg :: "DlgEventLogData option"
  data_DataContentType :: string
  data_TraceID :: string
  data_RequestID :: string
  data_ClientRequestID :: string
  data_UserID :: string
  data_Locale :: string
  data_ClientData :: "obj option"
  data_ProcessingTime :: "EventLogDataProcessingTime option"
  data_Request :: "RequestPayload option"
  data_Response :: "ResponsePayload option"

definition data_zero :: EventLogData where
  "data_zero = \<lparr>data_Asr = None, data_Dlg = None, data_DataContentType = [], data_TraceID = [],
     data_RequestID = [], data_ClientRequestID = [], data_UserID = [], data_Locale = [],
     data_ClientData = None, data_ProcessingTime = None, data_Request = None, data_Response = None\<rparr>"

definition data_fields :: "EventLogData fields" where
  "data_fields =
     map (emb_field data_Asr data_Asr_update asr_zero) asr_fields @
     map (emb_field data_Dlg data_Dlg_update dlg_zero) dlg_fields @
     [str_field ''dataContentType'' data_DataContentType data_DataContentType_update,
      str_field ''traceid'' data_TraceID data_TraceID_update,
      str_field ''requestid'' data_RequestID data_RequestID_update,
      str_field ''clientRequestid'' data_ClientRequestID data_ClientRequestID_update,
      str_field ''userid'' data_UserID data_UserID_update,
      str_field ''locale'' data_Locale data_Locale_update,
      map_field ''clientData'' data_ClientData data_ClientData_update,
      ptr_field ''processingTime'' pt_fields pt_zero data_ProcessingTime data_ProcessingTime_update,
      ptr_field ''request'' req_fields req_zero data_Request data_Request_update,
      ptr_field ''response'' resp_fields resp_zero data_Response data_Response_update]"

record EventLogValue =
  elv_SpecVersion :: string
  elv_Service :: string
  elv_Source :: string
  elv_Type :: string
  elv_ID :: string
  elv_Timestamp :: string
  elv_AppID :: string
  elv_DataContentType :: string
  elv_Data :: EventLogData

definition elv_zero :: EventLogValue where
  "elv_zero = \<lparr>elv_SpecVersion = [], elv_Service = [], elv_Source = [], elv_Type = [], elv_ID = [],
     elv_Timestamp = [], elv_AppID = [], elv_DataContentType = [], elv_Data = data_zero\<rparr>"

definition elv_fields :: "EventLogValue fields" where
  "elv_fields =
     [str_field ''specversion'' elv_SpecVersion elv_SpecVersion_update,
      str_field ''service'' elv_Service elv_Service_update,
      str_field ''source'' elv_Source elv_Source_update,
      str_field ''type'' elv_Type elv_Type_update,
      str_field ''id'' elv_ID elv_ID_update,
      str_field ''timestamp'' elv_Timestamp elv_Timestamp_update,
      str_field ''appid'' elv_AppID elv_AppID_update,
      str_field ''datacontenttype'' elv_DataContentType elv_DataContentType_update,
      struct_field ''data'' data_fields elv_Data elv_Data_update]"

record EventLogKey =
  elk_Service :: string
  elk_ID :: string

definition elk_zero :: EventLogKey where
  "elk_zero = \<lparr>elk_Service = [], elk_ID = []\<rparr>"

definition elk_fields :: "EventLogKey fields" where
  "elk_fields =
     [str_field ''service'' elk_Service elk_Service_update,
      str_field ''id'' elk_ID elk_ID_update]"

record EventLogSchema =
  el_Topic :: string
  el_Key :: EventLogKey
  el_Partition :: dec
  el_Offset :: dec
  el_Value :: EventLogValue

definition el_zero :: EventLogSchema where
  "el_zero = \<lparr>el_Topic = [], el_Key = elk_zero, el_Partition = Dec 0 0, el_Offset = Dec 0 0,
     el_Value = elv_zero\<rparr>"

definition el_fields :: "EventLogSchema fields" where
  "el_fields =
     [str_field ''topic'' el_Topic el_Topic_update,
      struct_field ''key'' elk_fields el_Key el_Key_update,
      float_field ''partition'' el_Partition el_Partition_update,
      float_field ''offset'' el_Offset el_Offset_update,
      struct_field ''value'' elv_fields el_Value el_Value_update]"

section \<open>Marshal and Unmarshal\<close>

text \<open>\<open>json.Unmarshal\<close> checks the syntax of the whole text first: a syntax error stores nothing.
  A type error is reported at the end, with everything else stored.\<close>

datatype json_error = SyntaxError | TypeError

definition unmarshal_schema :: "string \<Rightarrow> EventLogSchema \<Rightarrow> EventLogSchema \<times> json_error option" where
  "unmarshal_schema bytes s =
     (case json_parse bytes of
        None \<Rightarrow> (s, Some SyntaxError)
      | Some v \<Rightarrow> (let (s', ok) = dec_struct el_fields v s
                   in (s', if ok then None else Some TypeError)))"

definition marshal_schema :: "EventLogSchema \<Rightarrow> string" where
  "marshal_schema s = json_str (enc_struct el_fields s)"

section \<open>Schemas that survive the round trip\<close>

text \<open>What decoding produces: maps in canonical form, \<open>float64\<close> values in normal form,
  integers in the range of \<open>int64\<close>.\<close>

definition dlg_ok :: "DlgEventLogData \<Rightarrow> bool" where
  "dlg_ok d = (slice_ok (dlg_Events d) \<and> in_int64 (dlg_SessionTimeoutSec d))"

definition cs_ok :: "AsrCallSummaryPayload \<Rightarrow> bool" where
  "cs_ok c = (map_ok (cs_ClientData c) \<and> map_ok (cs_ServerData c) \<and> in_int64 (cs_AbsStartTime c) \<and>
     map_ok (cs_DataPack c) \<and> slice_ok (cs_RecognitionObjects c) \<and> slice_ok (cs_Recognize c) \<and>
     in_int64 (cs_AbsEndTime c))"

definition fr_ok :: "AsrFinalResultPayload \<Rightarrow> bool" where
  "fr_ok r = in_int64 (fr_Timestamp r)"

definition pt_ok :: "EventLogDataProcessingTime \<Rightarrow> bool" where
  "pt_ok p = float_ok (pt_DurationMs p)"

definition req_ok :: "RequestPayload \<Rightarrow> bool" where
  "req_ok r = (map_ok (req_RecognitionInitMessage r) \<and> map_ok (req_Parameters r) \<and>
     map_ok (req_Model r) \<and> iface_ok (req_Input r) \<and> map_ok (req_Selector r) \<and>
     map_ok (req_Payload r) \<and> in_int64 (req_SessionTimeoutSec r) \<and> map_ok (req_ClientData r) \<and>
     slice_ok (req_Resources r))"

definition st_ok :: "ResponseStatus \<Rightarrow> bool" where
  "st_ok s = in_int64 (st_Code s)"

definition res_ok :: "ResultPayload \<Rightarrow> bool" where
  "res_ok r = (in_int64 (res_ResultType r) \<and> in_int64 (res_AbsStartMs r) \<and>
     in_int64 (res_AbsEndMs r) \<and> map_ok (res_DataPack r) \<and> map_ok (res_UtteranceInfo r) \<and>
     slice_ok (res_Hypotheses r) \<and> slice_ok (res_Interpretations r))"

definition sos_ok :: "AsrStartOfSpeechPayload \<Rightarrow> bool" where
  "sos_ok s = in_int64 (sos_FirstAudioToStartOfSpeech s)"

definition asr_ok :: "AsrEventLogData \<Rightarrow> bool" where
  "asr_ok a = (float_ok (asr_AudioDurationMs a) \<and> opt_all cs_ok (asr_CallSummary a) \<and>
     opt_all fr_ok (asr_FinalResult a))"

definition resp_ok :: "ResponsePayload \<Rightarrow> bool" where
  "resp_ok r = (opt_all res_ok (resp_ResultPayload r) \<and> slice_ok (resp_Events r) \<and>
     opt_all sos_ok (resp_StartOfSeech r) \<and> in_int64 (resp_Timestamp r) \<and>
     map_ok (resp_Payload r) \<and> opt_all st_ok (resp_Status r))"

definition data_ok :: "EventLogData \<Rightarrow> bool" where
  "data_ok d = (opt_all asr_ok (data_Asr d) \<and> opt_all dlg_ok (data_Dlg d) \<and>
     map_ok (data_ClientData d) \<and> opt_all pt_ok (data_ProcessingTime d) \<and>
     opt_all req_ok (data_Request d) \<and> opt_all resp_ok (data_Response d))"

definition elv_ok :: "EventLogValue \<Rightarrow> bool" where
  "elv_ok v = data_ok (elv_Data v)"

definition schema_ok :: "EventLogSchema \<Rightarrow> bool" where
  "schema_ok s = (float_ok (el_Partition s) \<and> float_ok (el_Offset s) \<and> elv_ok (el_Value s))"

section \<open>Every struct of the schema meets the contract\<close>

text \<open>No field of these structs is always printed: the zero value prints as the empty object.\<close>

lemma asr_fields_zero: "f \<in> set asr_fields \<Longrightarrow> fget f asr_zero = None"
  by (auto simp: asr_fields_def field_defs asr_zero_def)

lemma dlg_fields_zero: "f \<in> set dlg_fields \<Longrightarrow> fget f dlg_zero = None"
  by (auto simp: dlg_fields_def field_defs dlg_zero_def)

interpretation pt: json_struct pt_fields pt_zero pt_ok
  by unfold_locales (auto simp: pt_fields_def field_defs pt_zero_def pt_ok_def enc_dec to_lower_def)

interpretation dlg: json_struct dlg_fields dlg_zero dlg_ok
  by unfold_locales (auto simp: dlg_fields_def field_defs dlg_zero_def dlg_ok_def enc_dec to_lower_def)

interpretation cs: json_struct cs_fields cs_zero cs_ok
  by unfold_locales (auto simp: cs_fields_def field_defs cs_zero_def cs_ok_def enc_dec to_lower_def)

interpretation fr: json_struct fr_fields fr_zero fr_ok
  by unfold_locales (auto simp: fr_fields_def field_defs fr_zero_def fr_ok_def enc_dec)

interpretation req: json_struct req_fields req_zero req_ok
  by unfold_locales (auto simp: req_fields_def field_defs req_zero_def req_ok_def enc_dec dec_iface_ok to_lower_def)

interpretation st: json_struct st_fields st_zero st_ok
  by unfold_locales (auto simp: st_fields_def field_defs st_zero_def st_ok_def enc_dec to_lower_def)

interpretation res: json_struct res_fields res_zero res_ok
  by unfold_locales (auto simp: res_fields_def field_defs res_zero_def res_ok_def enc_dec to_lower_def)

interpretation sos: json_struct sos_fields sos_zero sos_ok
  by unfold_locales (auto simp: sos_fields_def field_defs sos_zero_def sos_ok_def enc_dec)

interpretation asr: json_struct asr_fields asr_zero asr_ok
proof unfold_locales
  fix f v s t
  assume f: "f \<in> set asr_fields" and ok: "asr_ok s" and v: "fget f s = Some v"
    and z: "fget f t = fget f asr_zero"
  have cs: "\<And>c. asr_CallSummary s = Some c \<Longrightarrow> cs_ok c" and fr: "\<And>c. asr_FinalResult s = Some c \<Longrightarrow> fr_ok c"
    using ok by (auto simp: asr_ok_def)
  note p = cs.nested_ptr [OF cs] fr.nested_ptr [OF fr]
  show "fget f (fst (fset f v t)) = Some v \<and> snd (fset f v t)"
    using f ok v z by (auto simp: asr_fields_def field_defs asr_zero_def asr_ok_def enc_dec p)
qed (auto simp: asr_fields_def field_defs asr_zero_def to_lower_def)

interpretation elk: json_struct elk_fields elk_zero "\<lambda>_. True"
  by unfold_locales (auto simp: elk_fields_def field_defs elk_zero_def enc_dec to_lower_def)

interpretation resp: json_struct resp_fields resp_zero resp_ok
proof unfold_locales
  fix f v s t
  assume f: "f \<in> set resp_fields" and ok: "resp_ok s" and v: "fget f s = Some v"
    and z: "fget f t = fget f resp_zero"
  have "\<And>c. resp_ResultPayload s = Some c \<Longrightarrow> res_ok c" "\<And>c. resp_StartOfSeech s = Some c \<Longrightarrow> sos_ok c"
    "\<And>c. resp_Status s = Some c \<Longrightarrow> st_ok c"
    using ok by (auto simp: resp_ok_def)
  note p = res.nested_ptr [OF this(1)] sos.nested_ptr [OF this(2)] st.nested_ptr [OF this(3)]
  show "fget f (fst (fset f v t)) = Some v \<and> snd (fset f v t)"
    using f ok v z by (auto simp: resp_fields_def field_defs resp_zero_def resp_ok_def enc_dec p)
qed (auto simp: resp_fields_def field_defs resp_zero_def to_lower_def)

text \<open>The fields of \<^typ>\<open>EventLogData\<close>: those of the two embedded pointers and its own.\<close>

definition data_own_fields :: "EventLogData fields" where
  "data_own_fields = drop 11 data_fields"

lemma emb_independent:
  assumes "json_struct fs zero ok" and "f \<in> set fs" "g \<in> set fs" "fname f \<noteq> fname g"
    and "fget g zero = None" and lens: "\<And>x s. get (upd (\<lambda>_. x) s) = x"
  shows "fget (emb_field get upd zero g) (fst (fset (emb_field get upd zero f) v s))
       = fget (emb_field get upd zero g) s"
  using json_struct.independent [OF assms(1-4)] assms(5)
  by (auto simp: emb_field_def lens split: option.splits)

lemma emb_restored:
  assumes "json_struct fs zero ok" and "f \<in> set fs" "\<And>a. get s = Some a \<Longrightarrow> ok a"
    and "fget f zero = None" and lens: "\<And>x s. get (upd (\<lambda>_. x) s) = x"
    and "fget (emb_field get upd zero f) s = Some v" "fget (emb_field get upd zero f) t = None"
  shows "fget (emb_field get upd zero f) (fst (fset (emb_field get upd zero f) v t)) = Some v
       \<and> snd (fset (emb_field get upd zero f) v t)"
proof -
  obtain a where a: "get s = Some a" "fget f a = Some v"
    using assms(6) by (auto simp: emb_field_def split: option.splits)
  have "fget f (fst (fset f v (case get t of None \<Rightarrow> zero | Some a \<Rightarrow> a))) = Some v
      \<and> snd (fset f v (case get t of None \<Rightarrow> zero | Some a \<Rightarrow> a))"
    using json_struct.restored [OF assms(1,2) assms(3) [OF a(1)] a(2)] assms(4,7)
    by (auto simp: emb_field_def split: option.splits)
  then show ?thesis by (auto simp: emb_field_def lens)
qed

lemma data_fields_cases:
  assumes "f \<in> set data_fields"
  obtains a where "a \<in> set asr_fields" "f = emb_field data_Asr data_Asr_update asr_zero a"
    | d where "d \<in> set dlg_fields" "f = emb_field data_Dlg data_Dlg_update dlg_zero d"
    | "f \<in> set data_own_fields"
  using assms by (auto simp: data_fields_def data_own_fields_def asr_fields_def dlg_fields_def)

lemma data_own_fields:
  "data_own_fields =
     [str_field ''dataContentType'' data_DataContentType data_DataContentType_update,
      str_field ''traceid'' data_TraceID data_TraceID_update,
      str_field ''requestid'' data_RequestID data_RequestID_update,
      str_field ''clientRequestid'' data_ClientRequestID data_ClientRequestID_update,
      str_field ''userid'' data_UserID data_UserID_update,
      str_field ''locale'' data_Locale data_Locale_update,
      map_field ''clientData'' data_ClientData data_ClientData_update,
      ptr_field ''processingTime'' pt_fields pt_zero data_ProcessingTime data_ProcessingTime_update,
      ptr_field ''request'' req_fields req_zero data_Request data_Request_update,
      ptr_field ''response'' resp_fields resp_zero data_Response data_Response_update]"
  by (simp add: data_own_fields_def data_fields_def asr_fields_def dlg_fields_def)

lemma data_own_independent:
  "f \<in> set data_own_fields \<Longrightarrow> data_Asr (fst (fset f v s)) = data_Asr s"
  "f \<in> set data_own_fields \<Longrightarrow> data_Dlg (fst (fset f v s)) = data_Dlg s"
  "g \<in> set data_own_fields \<Longrightarrow> fget g (data_Asr_update h s) = fget g s"
  "g \<in> set data_own_fields \<Longrightarrow> fget g (data_Dlg_update k s) = fget g s"
  by (auto simp: data_own_fields field_defs)

lemma data_own_pairs:
  "f \<in> set data_own_fields \<Longrightarrow> g \<in> set data_own_fields \<Longrightarrow> fname f \<noteq> fname g \<Longrightarrow>
     fget g (fst (fset f v s)) = fget g s"
  by (auto simp: data_own_fields field_defs)

lemma data_own_restored:
  assumes f: "f \<in> set data_own_fields" and ok: "data_ok s" and v: "fget f s = Some v"
    and z: "fget f t = fget f data_zero"
  shows "fget f (fst (fset f v t)) = Some v \<and> snd (fset f v t)"
proof -
  have "\<And>c. data_ProcessingTime s = Some c \<Longrightarrow> pt_ok c" "\<And>c. data_Request s = Some c \<Longrightarrow> req_ok c"
    "\<And>c. data_Response s = Some c \<Longrightarrow> resp_ok c"
    using ok by (auto simp: data_ok_def)
  note p = pt.nested_ptr [OF this(1)] req.nested_ptr [OF this(2)] resp.nested_ptr [OF this(3)]
  show ?thesis
    using f ok v z by (auto simp: data_own_fields field_defs data_zero_def data_ok_def enc_dec p)
qed

lemma data_own_zero: "f \<in> set data_own_fields \<Longrightarrow> fget f data_zero = None"
  by (auto simp: data_own_fields field_defs data_zero_def)

interpretation data: json_struct data_fields data_zero data_ok
proof unfold_locales
  show "distinct (map (map to_lower \<circ> fname) data_fields)"
    by (simp add: data_fields_def asr_fields_def dlg_fields_def field_defs) code_simp
next
  fix f g :: "EventLogData field" and v s
  assume f: "f \<in> set data_fields" and g: "g \<in> set data_fields" and n: "fname f \<noteq> fname g"
  show "fget g (fst (fset f v s)) = fget g s"
    using f
  proof (cases rule: data_fields_cases)
    case (1 a)
    show ?thesis using g
      by (cases rule: data_fields_cases)
        (use 1 n in \<open>auto intro!: emb_independent [OF asr.json_struct_axioms] simp: asr_fields_zero
           data_own_independent\<close>, auto simp: emb_field_def data_own_independent)
  next
    case (2 d)
    show ?thesis using g
      by (cases rule: data_fields_cases)
        (use 2 n in \<open>auto intro!: emb_independent [OF dlg.json_struct_axioms] simp: dlg_fields_zero
           data_own_independent\<close>, auto simp: emb_field_def data_own_independent)
  next
    case 3
    show ?thesis using g
      by (cases rule: data_fields_cases) (use 3 n in \<open>auto simp: emb_field_def data_own_independent data_own_pairs\<close>)
  qed
next
  fix f v s t
  assume f: "f \<in> set data_fields" and ok: "data_ok s" and v: "fget f s = Some v"
    and z: "fget f t = fget f data_zero"
  show "fget f (fst (fset f v t)) = Some v \<and> snd (fset f v t)"
    using f
  proof (cases rule: data_fields_cases)
    case (1 a)
    have "fget f t = None" using z 1 by (simp add: emb_field_def data_zero_def)
    then show ?thesis using v ok unfolding 1(2)
      by (intro emb_restored [OF asr.json_struct_axioms 1(1)]) (use 1(1) in \<open>auto simp: asr_fields_zero data_ok_def\<close>)
  next
    case (2 a)
    have "fget f t = None" using z 2 by (simp add: emb_field_def data_zero_def)
    then show ?thesis using v ok unfolding 2(2)
      by (intro emb_restored [OF dlg.json_struct_axioms 2(1)]) (use 2(1) in \<open>auto simp: dlg_fields_zero data_ok_def\<close>)
  next
    case 3
    then show ?thesis using data_own_restored ok v z by blast
  qed
next
  fix f s assume "f \<in> set data_fields"
  then show "fget f data_zero = None"
    by (cases rule: data_fields_cases) (auto simp: emb_field_def data_own_zero, auto simp: data_zero_def)
qed

interpretation elv: json_struct elv_fields elv_zero elv_ok
proof unfold_locales
  fix f v s t
  assume f: "f \<in> set elv_fields" and ok: "elv_ok s" and v: "fget f s = Some v"
    and z: "fget f t = fget f elv_zero"
  have "data_ok (elv_Data s)" using ok by (simp add: elv_ok_def)
  note p = data.nested [OF this]
  show "fget f (fst (fset f v t)) = Some v \<and> snd (fset f v t)"
    using f ok v z by (auto simp: elv_fields_def field_defs elv_zero_def enc_dec p)
qed (auto simp: elv_fields_def field_defs elv_zero_def to_lower_def)

interpretation el: json_struct el_fields el_zero schema_ok
proof unfold_locales
  fix f v s t
  assume f: "f \<in> set el_fields" and ok: "schema_ok s" and v: "fget f s = Some v"
    and z: "fget f t = fget f el_zero"
  have "elv_ok (el_Value s)" using ok by (simp add: schema_ok_def)
  note p = elv.nested [OF this] elk.nested [OF TrueI]
  show "fget f (fst (fset f v t)) = Some v \<and> snd (fset f v t)"
    using f ok v z by (auto simp: el_fields_def field_defs el_zero_def schema_ok_def enc_dec p)
qed (auto simp: el_fields_def field_defs el_zero_def to_lower_def)

section \<open>Decoding builds schemas in that form only\<close>

interpretation pt: json_struct_inv pt_fields pt_zero pt_ok
  by unfold_locales (auto simp: pt_fields_def field_defs pt_zero_def pt_ok_def dec_ok)

interpretation dlg: json_struct_inv dlg_fields dlg_zero dlg_ok
  by unfold_locales (auto simp: dlg_fields_def field_defs dlg_zero_def dlg_ok_def dec_ok)

interpretation cs: json_struct_inv cs_fields cs_zero cs_ok
  by unfold_locales (auto simp: cs_fields_def field_defs cs_zero_def cs_ok_def dec_ok)

interpretation fr: json_struct_inv fr_fields fr_zero fr_ok
  by unfold_locales (auto simp: fr_fields_def field_defs fr_zero_def fr_ok_def dec_ok)

interpretation req: json_struct_inv req_fields req_zero req_ok
  by unfold_locales (auto simp: req_fields_def field_defs req_zero_def req_ok_def dec_ok)

interpretation st: json_struct_inv st_fields st_zero st_ok
  by unfold_locales (auto simp: st_fields_def field_defs st_zero_def st_ok_def dec_ok)

interpretation res: json_struct_inv res_fields res_zero res_ok
  by unfold_locales (auto simp: res_fields_def field_defs res_zero_def res_ok_def dec_ok)

interpretation sos: json_struct_inv sos_fields sos_zero sos_ok
  by unfold_locales (auto simp: sos_fields_def field_defs sos_zero_def sos_ok_def dec_ok)

interpretation asr: json_struct_inv asr_fields asr_zero asr_ok
  by unfold_locales (auto simp: asr_fields_def field_defs asr_zero_def asr_ok_def dec_ok
      cs.dec_ptr_ok fr.dec_ptr_ok)

interpretation resp: json_struct_inv resp_fields resp_zero resp_ok
  by unfold_locales (auto simp: resp_fields_def field_defs resp_zero_def resp_ok_def dec_ok
      res.dec_ptr_ok sos.dec_ptr_ok st.dec_ptr_ok)

lemma data_own_preserved: "f \<in> set data_own_fields \<Longrightarrow> data_ok s \<Longrightarrow> data_ok (fst (fset f v s))"
  by (auto simp: data_own_fields field_defs data_ok_def dec_ok pt.dec_ptr_ok req.dec_ptr_ok
      resp.dec_ptr_ok)

interpretation data: json_struct_inv data_fields data_zero data_ok
proof unfold_locales
  fix f v s
  assume f: "f \<in> set data_fields" and ok: "data_ok s"
  show "data_ok (fst (fset f v s))"
    using f
  proof (cases rule: data_fields_cases)
    case (1 a)
    then show ?thesis using ok asr.preserved asr.zero_ok
      by (auto simp: emb_field_def data_ok_def split: option.splits)
  next
    case (2 d)
    then show ?thesis using ok dlg.preserved dlg.zero_ok
      by (auto simp: emb_field_def data_ok_def split: option.splits)
  qed (use ok data_own_preserved in blast)
qed (simp add: data_ok_def data_zero_def)

interpretation elv: json_struct_inv elv_fields elv_zero elv_ok
  by unfold_locales (auto simp: elv_fields_def field_defs elv_zero_def elv_ok_def dec_ok
      data.dec_struct_ok data.zero_ok)

interpretation el: json_struct_inv el_fields el_zero schema_ok
  by unfold_locales (auto simp: el_fields_def field_defs el_zero_def schema_ok_def dec_ok
      elv.dec_struct_ok elv.zero_ok)

lemma unmarshal_schema_ok: "schema_ok s \<Longrightarrow> schema_ok (fst (unmarshal_schema bytes s))"
  using el.dec_struct_ok by (auto simp: unmarshal_schema_def split: option.splits prod.splits) (metis fst_conv)

end
