(* ===== verification/Log_Filter.thy ===== *)
theory Log_Filter
  imports Go_Prelude
begin

text \<open>
  The content type filter of the log processors
  (\<open>pkg/log_processors/types/processor/filter.go\<close>). A list of patterns, exact names or
  prefixes marked by a final star, is either the list of what passes or of what is dropped.
\<close>

record FilterConfig =
  fc_Type :: string
  fc_ContentType :: "string list"

record Filter =
  f_config :: FilterConfig
  f_ignoreAsrSummary :: bool

definition EventAsrCallSummary :: string where
  "EventAsrCallSummary = ''application/x-nuance-asr-callsummary.''"

text \<open>The two loops return from inside at the first pattern that matches.\<close>

fun white_loop :: "string list \<Rightarrow> string \<Rightarrow> bool" where
  "white_loop [] input = True"
| "white_loop (value # values) input =
     (if has_suffix value ''*'' then
        (if has_prefix input (trim_suffix value ''*'') then False else white_loop values input)
      else (if input = value then False else white_loop values input))"

fun black_loop :: "string list \<Rightarrow> string \<Rightarrow> bool" where
  "black_loop [] input = False"
| "black_loop (value # values) input =
     (if has_suffix value ''*'' then
        (if has_prefix input (trim_suffix value ''*'') then True else black_loop values input)
      else (if input = value then True else black_loop values input))"

definition applyWhiteListFilter :: "Filter \<Rightarrow> string \<Rightarrow> bool" where
  "applyWhiteListFilter f input = white_loop (fc_ContentType (f_config f)) input"

definition applyBlackListFilter :: "Filter \<Rightarrow> string \<Rightarrow> bool" where
  "applyBlackListFilter f input = black_loop (fc_ContentType (f_config f)) input"

definition IsFiltered :: "Filter \<Rightarrow> string \<Rightarrow> bool" where
  "IsFiltered f input =
     (if fc_Type (f_config f) = ''whitelist'' then applyWhiteListFilter f input
      else applyBlackListFilter f input)"

definition NewFilter :: "FilterConfig \<Rightarrow> Filter" where
  "NewFilter config =
     (let f = \<lparr>f_config = config, f_ignoreAsrSummary = False\<rparr>
      in f\<lparr>f_ignoreAsrSummary := IsFiltered f EventAsrCallSummary\<rparr>)"

definition IsAsrSummaryIgnored :: "Filter \<Rightarrow> bool" where
  "IsAsrSummaryIgnored f = f_ignoreAsrSummary f"

section \<open>What a pattern means\<close>

text \<open>The reference reading: a pattern with a final star matches every input that starts with
  the rest of it, any other pattern matches itself.\<close>

definition matches :: "string \<Rightarrow> string \<Rightarrow> bool" where
  "matches pat input = ((\<exists>p r. pat = p @ ''*'' \<and> input = p @ r) \<or>
                        ((\<nexists>p. pat = p @ ''*'') \<and> input = pat))"

lemma matches_star: "matches (p @ ''*'') input \<longleftrightarrow> has_prefix input p"
  by (auto simp: matches_def has_prefix_iff)

lemma matches_plain: "\<not> has_suffix pat ''*'' \<Longrightarrow> matches pat input \<longleftrightarrow> input = pat"
  by (auto simp: matches_def has_suffix_iff)

lemma matches_code:
  "matches pat input =
     (if has_suffix pat ''*'' then has_prefix input (trim_suffix pat ''*'') else input = pat)"
proof (cases "has_suffix pat ''*''")
  case True
  then obtain p where "pat = p @ ''*''" by (auto simp: has_suffix_iff)
  then show ?thesis by (simp add: matches_star)
qed (simp add: matches_plain)

lemma loop_step:
  "white_loop (v # vs) input = (\<not> matches v input \<and> white_loop vs input)"
  "black_loop (v # vs) input = (matches v input \<or> black_loop vs input)"
  by (simp_all add: matches_code)

lemma white_loop_iff: "white_loop vs input \<longleftrightarrow> \<not> (\<exists>v \<in> set vs. matches v input)"
  by (induction vs) (simp_all add: loop_step del: white_loop.simps(2))

lemma black_loop_iff: "black_loop vs input \<longleftrightarrow> (\<exists>v \<in> set vs. matches v input)"
  by (induction vs) (simp_all add: loop_step del: black_loop.simps(2))

lemma IsFiltered_NewFilter:
  "IsFiltered (NewFilter c) input =
     ((fc_Type c = ''whitelist'') \<noteq> (\<exists>v \<in> set (fc_ContentType c). matches v input))"
  by (auto simp: IsFiltered_def NewFilter_def applyWhiteListFilter_def applyBlackListFilter_def
      white_loop_iff black_loop_iff Let_def)

lemma IsAsrSummaryIgnored_NewFilter:
  "IsAsrSummaryIgnored (NewFilter c) = IsFiltered (NewFilter c) EventAsrCallSummary"
  by (simp add: IsAsrSummaryIgnored_def NewFilter_def IsFiltered_def applyWhiteListFilter_def
      applyBlackListFilter_def Let_def)


end
