(* ===== verification/Base_Worker.thy ===== *)
theory Base_Worker
  imports Event_Schema Log_Filter
begin

text \<open>
  The base worker, the base log processor and the noop processor
  (\<open>pkg/log_processors/types/processor/worker.go\<close>, \<open>processor.go\<close>, \<open>noop/processor.go\<close>).

  A worker carries one record through \<open>Start\<close>, \<open>Validate\<close>, \<open>Filter\<close>, \<open>Transform\<close>, \<open>Join\<close> and
  \<open>Write\<close>; each step looks at and sets the flags. The pipeline writer is a parameter: a function
  on its own state that may return an error. \<open>jobHandler\<close> runs a worker and reports metrics from
  the flags it ends with; a method call on a nil error in it is a panic, the value \<^term>\<open>None\<close>.
  Log lines, worker ids and the values of the gauges are left out.
\<close>

datatype worker_error = JsonErr json_error | WriteErr string | TransformErr string

record worker =
  w_Record :: string
  w_Schema :: EventLogSchema
  w_Failed :: bool
  w_Valid :: bool
  w_Filtered :: bool
  w_Written :: bool
  w_Err :: "worker_error option"
  w_filt :: Filter

type_synonym 'p writer = "'p \<Rightarrow> string \<Rightarrow> 'p \<times> string option"

section \<open>Worker methods\<close>

definition NewWorker :: "FilterConfig \<Rightarrow> worker" where
  "NewWorker fc = \<lparr>w_Record = [], w_Schema = el_zero, w_Failed = False, w_Valid = False,
     w_Filtered = False, w_Written = False, w_Err = None, w_filt = NewFilter fc\<rparr>"

definition w_Start :: "string \<Rightarrow> worker \<Rightarrow> worker" where
  "w_Start record w = w\<lparr>w_Record := record, w_Failed := False, w_Valid := False,
     w_Filtered := False, w_Written := False, w_Err := None\<rparr>"

text \<open>The flag \<open>Valid\<close> is set after an unmarshalling error, too.\<close>

definition w_Validate :: "worker \<Rightarrow> worker" where
  "w_Validate w =
     (if w_Failed w then w
      else (let (s, err) = unmarshal_schema (w_Record w) (w_Schema w);
                w1 = w\<lparr>w_Schema := s\<rparr>;
                w2 = (case err of None \<Rightarrow> w1 | Some e \<Rightarrow> w1\<lparr>w_Err := Some (JsonErr e), w_Failed := True\<rparr>)
            in w2\<lparr>w_Valid := True\<rparr>))"

definition w_content_type :: "worker \<Rightarrow> string" where
  "w_content_type w = data_DataContentType (elv_Data (el_Value (w_Schema w)))"

definition w_Filter :: "worker \<Rightarrow> worker" where
  "w_Filter w =
     (if w_Failed w then w
      else if IsFiltered (w_filt w) (w_content_type w)
      then w\<lparr>w_Failed := True, w_Filtered := True\<rparr>
      else w)"

definition w_Transform :: "worker \<Rightarrow> worker" where
  "w_Transform w = w"

definition w_Join :: "worker \<Rightarrow> worker" where
  "w_Join w = w"

definition w_Write :: "'p writer \<Rightarrow> 'p \<Rightarrow> worker \<Rightarrow> 'p \<times> worker" where
  "w_Write wr p w =
     (if w_Failed w then (p, w)
      else (let (p', err) = wr p (marshal_schema (w_Schema w))
            in case err of
                 Some e \<Rightarrow> (p', w\<lparr>w_Err := Some (WriteErr e), w_Failed := True\<rparr>)
               | None \<Rightarrow> (p', w\<lparr>w_Written := True\<rparr>)))"

lemmas w_defs [worker_defs] = NewWorker_def w_Start_def w_Validate_def w_content_type_def
  w_Filter_def w_Transform_def w_Join_def w_Write_def

section \<open>Running a worker on a record\<close>

text \<open>The method chains of the base processor and of the noop processor.\<close>

definition base_runWorker :: "FilterConfig \<Rightarrow> 'p writer \<Rightarrow> 'p \<Rightarrow> string \<Rightarrow> 'p \<times> worker" where
  "base_runWorker fc wr p record = w_Write wr p (w_Validate (w_Start record (NewWorker fc)))"

definition noop_RunWorker :: "FilterConfig \<Rightarrow> 'p writer \<Rightarrow> 'p \<Rightarrow> string \<Rightarrow> 'p \<times> worker" where
  "noop_RunWorker fc wr p record =
     w_Write wr p (w_Filter (w_Validate (w_Start record (NewWorker fc))))"

section \<open>jobHandler\<close>

datatype metric = Gauge string "string list" | Counter string "string list"

definition msg_text :: "worker_error \<Rightarrow> string" where
  "msg_text e = (case e of JsonErr _ \<Rightarrow> ''json'' | WriteErr m \<Rightarrow> m | TransformErr m \<Rightarrow> m)"

text \<open>The metrics a finished worker gives rise to, in the order they are reported. The text of a
  decoding error is abbreviated.\<close>

definition job_metrics :: "worker \<Rightarrow> metric list option" where
  "job_metrics w =
     (let topic = (if w_Valid w then el_Topic (w_Schema w) else ''unknown'');
          c = ''processor'';
          lag_in = (if w_Valid w then [Gauge ''ElcLagIn'' [c, topic]] else []);
          recs_in = [Counter ''ElcNumRecordsInCounter'' [c, topic]];
          status = (if w_Written w then ''success'' else ''failed'');
          out = (if w_Written w
                 then [Gauge ''ElcLagOut'' [c, topic], Counter ''ElcNumRecordsOutCounter'' [c, topic]]
                 else []);
          total = (\<lambda>code message. [Gauge ''ElcProcessingDuration'' [c, topic, status, code, message],
                                   Counter ''ElcProcessingTotal'' [c, topic, status, code, message]])
      in if w_Filtered w then Some (lag_in @ recs_in @ out @ total ''200'' ''filtered'')
         else if w_Failed w then
           (case w_Err w of
              None \<Rightarrow> None
            | Some e \<Rightarrow> Some (lag_in @ recs_in @ out @
                              [Counter ''ElcErrors'' [c, topic, ''521'', msg_text e]] @
                              total ''524'' (msg_text e)))
         else Some (lag_in @ recs_in @ out @ total ''200'' ''processed''))"

text \<open>The handler, for a processor given by its state and its run function (which may panic).\<close>

definition jobHandler ::
  "('p \<Rightarrow> string \<Rightarrow> ('p \<times> worker) option) \<Rightarrow> 'p \<Rightarrow> string \<Rightarrow> ('p \<times> worker \<times> metric list) option" where
  "jobHandler run p record =
     do { (p', w) \<leftarrow> run p record;
          ms \<leftarrow> job_metrics w;
          Some (p', w, ms) }"

section \<open>The contract of a run function\<close>

text \<open>What \<open>jobHandler\<close> relies on: the flags of a finished worker are consistent, so that a failed
  record that was not filtered has an error to report.\<close>

definition flags_ok :: "worker \<Rightarrow> bool" where
  "flags_ok w = (\<not> (w_Written w \<and> w_Failed w) \<and> (w_Filtered w \<longrightarrow> w_Failed w) \<and>
     (w_Failed w \<and> \<not> w_Filtered w \<longrightarrow> w_Err w \<noteq> None))"

locale run_contract =
  fixes run :: "'p \<Rightarrow> string \<Rightarrow> ('p \<times> worker) option"
  assumes run_flags: "run p record = Some (p', w) \<Longrightarrow> flags_ok w"
begin

lemma job_metrics_some: "run p record = Some (p', w) \<Longrightarrow> \<exists>ms. job_metrics w = Some ms"
  using run_flags by (fastforce simp: job_metrics_def flags_ok_def Let_def)

text \<open>The handler never fails by itself: it dies only when the run function does.\<close>

lemma handler_total: "jobHandler run p record = None \<longleftrightarrow> run p record = None"
  by (cases "run p record") (auto simp: jobHandler_def dest!: job_metrics_some)

lemma handler_run:
  "jobHandler run p record = Some (p', w, ms) \<longleftrightarrow> run p record = Some (p', w) \<and> job_metrics w = Some ms"
  by (auto simp: jobHandler_def)

text \<open>One record in, one disposition out: exactly one total, one record in, and a record out
  exactly when it was written; an error exactly when it failed without being filtered.\<close>

lemma handler_counts:
  assumes "jobHandler run p record = Some (p', w, ms)"
  shows "length (filter (\<lambda>m. \<exists>l. m = Counter ''ElcProcessingTotal'' l) ms) = 1"
    and "length (filter (\<lambda>m. \<exists>l. m = Counter ''ElcNumRecordsInCounter'' l) ms) = 1"
    and "length (filter (\<lambda>m. \<exists>l. m = Counter ''ElcNumRecordsOutCounter'' l) ms) = (if w_Written w then 1 else 0)"
    and "length (filter (\<lambda>m. \<exists>l. m = Counter ''ElcErrors'' l) ms) =
           (if w_Failed w \<and> \<not> w_Filtered w then 1 else 0)"
  using assms unfolding handler_run job_metrics_def
  by (auto simp: Let_def split: if_splits option.splits)

end

lemma flags_ok_Write:
  "flags_ok w \<Longrightarrow> \<not> w_Written w \<Longrightarrow> flags_ok (snd (w_Write wr p w))"
  by (auto simp: w_Write_def flags_ok_def Let_def split: prod.splits option.splits)

lemma flags_ok_Filter: "flags_ok w \<Longrightarrow> \<not> w_Written w \<Longrightarrow> flags_ok (w_Filter w)"
  by (auto simp: w_Filter_def flags_ok_def)

lemma Written_simps [simp]:
  "w_Written (w_Filter w) = w_Written w" "w_Written (w_Validate w) = w_Written w"
  "\<not> w_Written (w_Start r w)"
  by (auto simp: worker_defs Let_def split: prod.splits option.splits)

lemma flags_ok_validated: "flags_ok (w_Validate (w_Start r w))"
  by (auto simp: worker_defs flags_ok_def Let_def split: prod.splits option.splits)

lemmas flags_intros = flags_ok_Write flags_ok_Filter flags_ok_validated

interpretation base_run: run_contract "\<lambda>p r. Some (base_runWorker fc wr p r)" for fc wr
proof unfold_locales
  fix p r p' w assume "Some (base_runWorker fc wr p r) = Some (p', w)"
  then have "w = snd (base_runWorker fc wr p r)" by (metis option.inject snd_conv)
  then show "flags_ok w" by (simp add: base_runWorker_def flags_intros)
qed

interpretation noop_run: run_contract "\<lambda>p r. Some (noop_RunWorker fc wr p r)" for fc wr
proof unfold_locales
  fix p r p' w assume "Some (noop_RunWorker fc wr p r) = Some (p', w)"
  then have "w = snd (noop_RunWorker fc wr p r)" by (metis option.inject snd_conv)
  then show "flags_ok w" by (simp add: noop_RunWorker_def flags_intros)
qed

section \<open>Properties\<close>

text \<open>The abstract specification of the noop processor: decode the record; if it decodes and is not
  filtered, send the canonical text of what was decoded, and nothing otherwise.\<close>

definition noop_spec :: "FilterConfig \<Rightarrow> string \<Rightarrow> string option" where
  "noop_spec fc record =
     (let (s, err) = unmarshal_schema record el_zero
      in if err = None \<and> \<not> IsFiltered (NewFilter fc) (data_DataContentType (elv_Data (el_Value s)))
         then Some (marshal_schema s) else None)"


definition ex_noop_fc :: FilterConfig where
  "ex_noop_fc = \<lparr>fc_Type = ''blacklist'', fc_ContentType = [''secret*'']\<rparr>"

lemma ex_noop_spec: "noop_spec ex_noop_fc ''{ \"topic\": \"t\" }'' = Some (marshal_schema (el_zero\<lparr>el_Topic := ''t''\<rparr>))"
  by code_simp


text \<open>C9. Whatever bytes arrive, the handler of the noop processor finishes: it reports exactly one
  processed record with one disposition, one record in, a record out exactly when the record was
  written to the pipeline, and an error exactly when it failed for a reason other than the filter
  (so the nil error of a filtered record is never dereferenced).\<close>

theorem noop_handler_accounts:
  "\<exists>p' w ms. jobHandler (\<lambda>p r. Some (noop_RunWorker fc wr p r)) p record = Some (p', w, ms) \<and>
     length (filter (\<lambda>m. \<exists>l. m = Counter ''ElcProcessingTotal'' l) ms) = 1 \<and>
     length (filter (\<lambda>m. \<exists>l. m = Counter ''ElcNumRecordsInCounter'' l) ms) = 1 \<and>
     length (filter (\<lambda>m. \<exists>l. m = Counter ''ElcNumRecordsOutCounter'' l) ms) = (if w_Written w then 1 else 0) \<and>
     length (filter (\<lambda>m. \<exists>l. m = Counter ''ElcErrors'' l) ms) = (if w_Failed w \<and> \<not> w_Filtered w then 1 else 0)"
proof -
  obtain p' w ms where h: "jobHandler (\<lambda>p r. Some (noop_RunWorker fc wr p r)) p record = Some (p', w, ms)"
    using noop_run.handler_total [of fc wr p "record"]
    by (cases "jobHandler (\<lambda>p r. Some (noop_RunWorker fc wr p r)) p record") auto
  then show ?thesis using noop_run.handler_counts [OF h] by auto
qed

end
