(* ===== verification/Cache_Model.thy ===== *)
theory Cache_Model
  imports Go_Prelude
begin

text \<open>
  The cache the log processors keep records in (\<open>pkg/cache\<close>). The interface \<open>Cache\<close> is a record
  of operations; its local implementation stores items with an expiry time in the vendored
  \<open>ttlcache\<close>, its Redis implementation talks to a server through a client that is a parameter.

  Both implementations turn a value into JSON text between \<open>Set\<close> and \<open>Get\<close>, so the model keeps
  the text. The clock is part of the state of the local cache: its \<open>n\<close>-th operation reads the
  \<open>n\<close>-th instant. Durations and instants are in nanoseconds.
\<close>

record 'c cache_ops =
  co_set :: "'c \<Rightarrow> string \<Rightarrow> string \<Rightarrow> int \<Rightarrow> 'c"
  co_get :: "'c \<Rightarrow> string \<Rightarrow> string option \<times> 'c"
  co_delete :: "'c \<Rightarrow> string \<Rightarrow> 'c"

definition DefaultTTL :: int where
  "DefaultTTL = -1"

definition NoTTL :: int where
  "NoTTL = 0"

section \<open>The vendored ttlcache\<close>

record item =
  it_value :: string
  it_ttl :: int
  it_expiresAt :: int

record ttl_cache =
  tc_items :: "string \<Rightarrow> item option"
  tc_ttl :: int
  tc_clock :: "nat \<Rightarrow> int"
  tc_tick :: nat

abbreviation tc_now :: "ttl_cache \<Rightarrow> int" where
  "tc_now c \<equiv> tc_clock c (tc_tick c)"

abbreviation tc_tock :: "ttl_cache \<Rightarrow> ttl_cache" where
  "tc_tock c \<equiv> c\<lparr>tc_tick := Suc (tc_tick c)\<rparr>"

definition isExpired :: "int \<Rightarrow> item \<Rightarrow> bool" where
  "isExpired now i = (0 < it_ttl i \<and> it_expiresAt i < now)"

definition touch :: "int \<Rightarrow> item \<Rightarrow> item" where
  "touch now i = (if it_ttl i \<le> 0 then i else i\<lparr>it_expiresAt := now + it_ttl i\<rparr>)"

definition newItem :: "int \<Rightarrow> string \<Rightarrow> int \<Rightarrow> item" where
  "newItem now v ttl = touch now \<lparr>it_value = v, it_ttl = ttl, it_expiresAt = 0\<rparr>"

text \<open>A time to live of 0 stands for the default of the cache, a negative one for none. Setting
  a key that is there updates its item, and the effect on later reads is that of a new one.\<close>

definition ttl_set :: "ttl_cache \<Rightarrow> string \<Rightarrow> string \<Rightarrow> int \<Rightarrow> ttl_cache" where
  "ttl_set c k v ttl =
     (let ttl' = (if ttl = 0 then tc_ttl c else ttl)
      in tc_tock (c\<lparr>tc_items := (tc_items c)(k \<mapsto> newItem (tc_now c) v ttl')\<rparr>))"

definition ttl_get :: "ttl_cache \<Rightarrow> string \<Rightarrow> string option \<times> ttl_cache" where
  "ttl_get c k =
     (case tc_items c k of
        None \<Rightarrow> (None, tc_tock c)
      | Some i \<Rightarrow>
          if isExpired (tc_now c) i then (None, tc_tock c)
          else (Some (it_value i),
                tc_tock (c\<lparr>tc_items := (tc_items c)(k \<mapsto> touch (tc_now c) i)\<rparr>)))"

definition ttl_delete :: "ttl_cache \<Rightarrow> string \<Rightarrow> ttl_cache" where
  "ttl_delete c k = tc_tock (c\<lparr>tc_items := (tc_items c)(k := None)\<rparr>)"

section \<open>LocalCache\<close>

definition NewLocalCache :: "int \<Rightarrow> (nat \<Rightarrow> int) \<Rightarrow> ttl_cache" where
  "NewLocalCache expiration clock =
     \<lparr>tc_items = (\<lambda>_. None), tc_ttl = wrap64 (expiration * 1000000000), tc_clock = clock, tc_tick = 0\<rparr>"

text \<open>The library expects -1 for no time to live and 0 for the default.\<close>

definition local_Set :: "ttl_cache \<Rightarrow> string \<Rightarrow> string \<Rightarrow> int \<Rightarrow> ttl_cache" where
  "local_Set c k v ttl =
     ttl_set c k v (if ttl = DefaultTTL then 0 else if ttl = NoTTL then -1 else ttl)"

definition local_Get :: "ttl_cache \<Rightarrow> string \<Rightarrow> string option \<times> ttl_cache" where
  "local_Get c k = ttl_get c k"

definition local_Delete :: "ttl_cache \<Rightarrow> string \<Rightarrow> ttl_cache" where
  "local_Delete c k = ttl_delete c k"

definition local_ops :: "ttl_cache cache_ops" where
  "local_ops = \<lparr>co_set = local_Set, co_get = local_Get, co_delete = local_Delete\<rparr>"

section \<open>RedisCache\<close>

text \<open>The client is a parameter: a connection state with the commands \<open>SET\<close>, \<open>GET\<close> and \<open>DEL\<close>,
  each of which may fail (\<open>SET\<close> reports whether it succeeded). A client that is nil makes every
  operation a no-op.\<close>

record 'r redis_client =
  rc_set :: "'r \<Rightarrow> string \<Rightarrow> string \<Rightarrow> int \<Rightarrow> 'r \<times> bool"
  rc_get :: "'r \<Rightarrow> string \<Rightarrow> string option \<times> 'r"
  rc_del :: "'r \<Rightarrow> string \<Rightarrow> 'r"

record 'r redis_cache =
  ru_Client :: "'r redis_client option"
  ru_DefaultTTL :: int
  ru_state :: 'r

definition redis_Set :: "'r redis_cache \<Rightarrow> string \<Rightarrow> string \<Rightarrow> int \<Rightarrow> 'r redis_cache" where
  "redis_Set c k v ttl =
     (case ru_Client c of
        None \<Rightarrow> c
      | Some cl \<Rightarrow>
          (let ttl' = (if ttl = DefaultTTL then ru_DefaultTTL c else ttl)
           in c\<lparr>ru_state := fst (rc_set cl (ru_state c) k v ttl')\<rparr>))"

definition redis_Get :: "'r redis_cache \<Rightarrow> string \<Rightarrow> string option \<times> 'r redis_cache" where
  "redis_Get c k =
     (case ru_Client c of
        None \<Rightarrow> (None, c)
      | Some cl \<Rightarrow> (let (v, r) = rc_get cl (ru_state c) k in (v, c\<lparr>ru_state := r\<rparr>)))"

definition redis_Delete :: "'r redis_cache \<Rightarrow> string \<Rightarrow> 'r redis_cache" where
  "redis_Delete c k =
     (case ru_Client c of None \<Rightarrow> c | Some cl \<Rightarrow> c\<lparr>ru_state := rc_del cl (ru_state c) k\<rparr>)"

definition redis_ops :: "'r redis_cache cache_ops" where
  "redis_ops = \<lparr>co_set = redis_Set, co_get = redis_Get, co_delete = redis_Delete\<rparr>"

section \<open>The contract of the interface\<close>

text \<open>
  While an invariant holds, a cache is a map: \<open>view\<close> says what it answers, a \<open>Set\<close> with a time to
  live that is \<open>long\<close> enough is seen by every later \<open>Get\<close>, and a \<open>Get\<close> changes no answer.
\<close>

locale cache_iface =
  fixes ops :: "'c cache_ops" and view :: "'c \<Rightarrow> string \<Rightarrow> string option"
    and inv :: "'c \<Rightarrow> bool" and long :: "int \<Rightarrow> bool"
  assumes get_view: "inv c \<Longrightarrow> fst (co_get ops c k) = view c k"
    and get_inv: "inv c \<Longrightarrow> inv (snd (co_get ops c k))"
    and get_keeps: "inv c \<Longrightarrow> view (snd (co_get ops c k)) = view c"
    and set_inv: "inv c \<Longrightarrow> long ttl \<Longrightarrow> inv (co_set ops c k v ttl)"
    and set_view: "inv c \<Longrightarrow> long ttl \<Longrightarrow> view (co_set ops c k v ttl) = (view c)(k \<mapsto> v)"
    and delete_inv: "inv c \<Longrightarrow> inv (co_delete ops c k)"
    and delete_view: "inv c \<Longrightarrow> view (co_delete ops c k) = (view c)(k := None)"
begin

lemma get_pair: "inv c \<Longrightarrow> co_get ops c k = (view c k, snd (co_get ops c k))"
  using get_view by (metis prod.collapse)

lemma fold_delete:
  assumes "inv c"
  shows "inv (fold (\<lambda>k c. co_delete ops c k) ks c)"
    and "view (fold (\<lambda>k c. co_delete ops c k) ks c) k = (if k \<in> set ks then None else view c k)"
  using assms by (induction ks arbitrary: c) (auto simp: delete_inv delete_view)

end

section \<open>The local cache meets the contract while its clock stays within the time to live\<close>

text \<open>From instant \<open>t0\<close> on, for a window of \<open>win\<close> nanoseconds: every instant read lies in the
  window and no stored item expires before its end.\<close>

definition clock_in :: "int \<Rightarrow> int \<Rightarrow> ttl_cache \<Rightarrow> bool" where
  "clock_in t0 win c = (\<forall>i. t0 \<le> tc_clock c i \<and> tc_clock c i \<le> t0 + win)"

definition local_inv :: "int \<Rightarrow> int \<Rightarrow> ttl_cache \<Rightarrow> bool" where
  "local_inv t0 win c = (clock_in t0 win c \<and>
     (\<forall>k i. tc_items c k = Some i \<longrightarrow> it_ttl i \<le> 0 \<or> (win \<le> it_ttl i \<and> t0 + win \<le> it_expiresAt i)))"

definition local_view :: "ttl_cache \<Rightarrow> string \<Rightarrow> string option" where
  "local_view c k = map_option it_value (tc_items c k)"

definition long_ttl :: "int \<Rightarrow> int \<Rightarrow> bool" where
  "long_ttl win ttl = (ttl \<noteq> DefaultTTL \<and> (ttl < 0 \<or> ttl = NoTTL \<or> win \<le> ttl))"

lemma local_inv_tock [simp]: "local_inv t0 win (tc_tock c) = local_inv t0 win c"
  by (simp add: local_inv_def clock_in_def)

lemma it_value_newItem [simp]: "it_value (newItem n v ttl) = v"
  by (simp add: newItem_def touch_def)

lemma local_get_live:
  assumes "local_inv t0 win c" "tc_items c k = Some i"
  shows "\<not> isExpired (tc_now c) i"
  using assms by (auto simp: local_inv_def clock_in_def isExpired_def) (smt (verit))

lemma local_inv_set:
  assumes "local_inv t0 win c" "long_ttl win ttl"
  shows "local_inv t0 win (local_Set c k v ttl)"
proof -
  have "t0 \<le> tc_now c" using assms(1) by (simp add: local_inv_def clock_in_def)
  then show ?thesis
    using assms
    by (auto simp: local_inv_def clock_in_def local_Set_def ttl_set_def newItem_def touch_def
        long_ttl_def DefaultTTL_def NoTTL_def Let_def intro!: add_mono)
qed

lemma local_inv_get:
  assumes "local_inv t0 win c"
  shows "local_inv t0 win (snd (local_Get c k))"
proof -
  have "t0 \<le> tc_now c" using assms by (simp add: local_inv_def clock_in_def)
  then show ?thesis
    using assms
    by (auto simp: local_inv_def clock_in_def local_Get_def ttl_get_def touch_def split: option.splits
        intro!: add_mono)
qed

interpretation lc: cache_iface local_ops local_view "local_inv t0 win" "long_ttl win" for t0 win
proof unfold_locales
  fix c :: ttl_cache and k v :: string and ttl
  assume inv: "local_inv t0 win c"
  show "fst (co_get local_ops c k) = local_view c k"
    "local_view (snd (co_get local_ops c k)) = local_view c"
    using local_get_live [OF inv]
    by (auto simp: local_ops_def local_Get_def ttl_get_def local_view_def touch_def split: option.splits)
  show "local_inv t0 win (snd (co_get local_ops c k))"
    using local_inv_get [OF inv] by (simp add: local_ops_def)
  show "local_inv t0 win (co_delete local_ops c k)"
    using inv by (auto simp: local_ops_def local_Delete_def ttl_delete_def local_inv_def clock_in_def)
  show "local_view (co_delete local_ops c k) = (local_view c)(k := None)"
    by (auto simp: local_ops_def local_Delete_def ttl_delete_def local_view_def)
  assume "long_ttl win ttl"
  with inv show "local_inv t0 win (co_set local_ops c k v ttl)"
    using local_inv_set by (simp add: local_ops_def)
  show "local_view (co_set local_ops c k v ttl) = (local_view c)(k \<mapsto> v)"
    by (auto simp: local_ops_def local_Set_def ttl_set_def local_view_def Let_def)
qed

lemma NewLocalCache_inv: "(\<And>i. t0 \<le> clock i \<and> clock i \<le> t0 + win) \<Longrightarrow> local_inv t0 win (NewLocalCache e clock)"
  by (simp add: local_inv_def clock_in_def NewLocalCache_def)

section \<open>Expiry\<close>

text \<open>A record that was set with a positive time to live is answered by a \<open>Get\<close> at any later
  instant up to its expiry, and by none after it: the first \<open>Get\<close> after \<open>Set\<close> returns the value
  exactly when the clock has not passed the set instant by more than the time to live. \<open>NoTTL\<close>
  entries are always answered, and so is every entry with a negative time to live other than
  the marker for the default.\<close>

lemma local_get_after_set:
  "fst (local_Get (local_Set c k v ttl) k) =
     (let d = (if ttl = DefaultTTL then tc_ttl c else if ttl = NoTTL then -1 else ttl)
      in if d \<le> 0 \<or> tc_clock c (Suc (tc_tick c)) \<le> tc_clock c (tc_tick c) + d
         then Some v else None)"
  by (auto simp: local_Get_def local_Set_def ttl_get_def ttl_set_def newItem_def touch_def
      isExpired_def DefaultTTL_def NoTTL_def Let_def)

end
