(* ===== verification/Go_Time.thy ===== *)
theory Go_Time
  imports Go_Prelude
begin

text \<open>
  The part of package \<open>time\<close> the collector uses: \<open>time.Parse(time.RFC3339, s)\<close>, \<open>Time.UnixNano\<close>
  and \<open>Time.Format\<close> with the layout \<open>01-02-2006\<close>. A time keeps its Unix seconds, its nanoseconds
  and the calendar date of its own zone. When parsing fails the caller, which ignores the
  error, continues with the zero time (1 January of the year 1).
\<close>

record go_time =
  t_unix :: int
  t_nsec :: int
  t_year :: int
  t_month :: int
  t_day :: int

definition time_zero :: go_time where
  "time_zero = \<lparr>t_unix = - 62135596800, t_nsec = 0, t_year = 1, t_month = 1, t_day = 1\<rparr>"

section \<open>The calendar\<close>

definition is_leap :: "int \<Rightarrow> bool" where
  "is_leap y = (y mod 4 = 0 \<and> (y mod 100 \<noteq> 0 \<or> y mod 400 = 0))"

definition days_in :: "int \<Rightarrow> int \<Rightarrow> int" where
  "days_in m y = (if m = 2 then if is_leap y then 29 else 28
     else if m \<in> {4, 6, 9, 11} then 30 else 31)"

definition days_before_month :: "int \<Rightarrow> int \<Rightarrow> int" where
  "days_before_month m y =
     [0, 31, 59, 90, 120, 151, 181, 212, 243, 273, 304, 334] ! nat (m - 1) +
     (if 2 < m \<and> is_leap y then 1 else 0)"

text \<open>Days from 1 January 1970; 719162 days separate it from 1 January of the year 1.\<close>

definition days_before_year :: "int \<Rightarrow> int" where
  "days_before_year y = 365 * (y - 1) + (y - 1) div 4 - (y - 1) div 100 + (y - 1) div 400"

definition unix_days :: "int \<Rightarrow> int \<Rightarrow> int \<Rightarrow> int" where
  "unix_days y m d = days_before_year y + days_before_month m y + d - 1 - 719162"

lemma unix_days_epoch: "unix_days 1970 1 1 = 0"
  by (simp add: unix_days_def days_before_year_def days_before_month_def)

lemma unix_days_zero_time: "unix_days 1 1 1 * 86400 = t_unix time_zero"
  by (simp add: unix_days_def days_before_year_def days_before_month_def time_zero_def)

lemma unix_days_leap: "unix_days 2024 3 1 - unix_days 2024 2 28 = 2"
  "unix_days 2100 3 1 - unix_days 2100 2 28 = 1" "unix_days 2024 3 1 = 19783"
  by (simp_all add: unix_days_def days_before_year_def days_before_month_def is_leap_def)

lemma days_before_month_Suc:
  assumes "1 \<le> m" "m < 12"
  shows "days_before_month (m + 1) y = days_before_month m y + days_in m y"
proof -
  have "m \<in> {1, 2, 3, 4, 5, 6, 7, 8, 9, 10, 11}"
    using assms unfolding insert_iff empty_iff by presburger
  then show ?thesis
    by (elim insertE emptyE) (simp_all add: days_before_month_def days_in_def)
qed

section \<open>Parse\<close>

definition at_digit :: "string \<Rightarrow> nat \<Rightarrow> bool" where
  "at_digit s i = (i < length s \<and> is_digit (s ! i))"

text \<open>\<open>getnum\<close>: two digits, or one when the layout element is not fixed.\<close>

definition getnum :: "bool \<Rightarrow> string \<Rightarrow> (int \<times> string) option" where
  "getnum fixed s =
     (if \<not> at_digit s 0 then None
      else if \<not> at_digit s 1 then
        (if fixed then None else Some (int (digit_val (s ! 0)), drop 1 s))
      else Some (int (digits_val (take 2 s)), drop 2 s))"

definition expect :: "char \<Rightarrow> string \<Rightarrow> string option" where
  "expect c s = (case s of [] \<Rightarrow> None | d # r \<Rightarrow> if d = c then Some r else None)"

definition get_year :: "string \<Rightarrow> (int \<times> string) option" where
  "get_year s = (if 4 \<le> length s \<and> list_all is_digit (take 4 s)
     then Some (int (digits_val (take 4 s)), drop 4 s) else None)"

definition in_range :: "int \<Rightarrow> int \<Rightarrow> int \<Rightarrow> unit option" where
  "in_range lo hi x = (if lo \<le> x \<and> x \<le> hi then Some () else None)"

text \<open>A fraction may follow the seconds although the layout has none; nine digits count.\<close>

definition get_frac :: "string \<Rightarrow> int \<times> string" where
  "get_frac s =
     (case s of
        [] \<Rightarrow> (0, s)
      | c # r \<Rightarrow>
          if (c = CHR ''.'' \<or> c = CHR '','') \<and> at_digit r 0 then
            (let ds = take 9 (takeWhile is_digit r)
             in (int (digits_val ds) * 10 ^ (9 - length ds), dropWhile is_digit r))
          else (0, s))"

text \<open>The zone: \<open>Z\<close>, or a sign with hours and minutes; the offset in seconds.\<close>

definition get_zone :: "string \<Rightarrow> (int \<times> string) option" where
  "get_zone s =
     (case s of
        [] \<Rightarrow> None
      | c # r \<Rightarrow>
          if c = CHR ''Z'' then Some (0, r)
          else if c = CHR ''+'' \<or> c = CHR ''-'' then
            do { (hh, r1) \<leftarrow> getnum True r;
                 r2 \<leftarrow> expect (CHR '':'') r1;
                 (mm, r3) \<leftarrow> getnum True r2;
                 _ \<leftarrow> in_range 0 24 hh;
                 _ \<leftarrow> in_range 0 60 mm;
                 Some ((if c = CHR ''-'' then -1 else 1) * (hh * 3600 + mm * 60), r3) }
          else None)"

definition parse_rfc3339_opt :: "string \<Rightarrow> go_time option" where
  "parse_rfc3339_opt s =
     do { (y, s1) \<leftarrow> get_year s;
          s2 \<leftarrow> expect (CHR ''-'') s1;
          (mo, s3) \<leftarrow> getnum True s2;
          _ \<leftarrow> in_range 1 12 mo;
          s4 \<leftarrow> expect (CHR ''-'') s3;
          (d, s5) \<leftarrow> getnum True s4;
          s6 \<leftarrow> expect (CHR ''T'') s5;
          (h, s7) \<leftarrow> getnum False s6;
          _ \<leftarrow> in_range 0 23 h;
          s8 \<leftarrow> expect (CHR '':'') s7;
          (mi, s9) \<leftarrow> getnum True s8;
          _ \<leftarrow> in_range 0 59 mi;
          s10 \<leftarrow> expect (CHR '':'') s9;
          (se, s11) \<leftarrow> getnum True s10;
          _ \<leftarrow> in_range 0 59 se;
          (let (ns, s12) = get_frac s11
           in do { (off, s13) \<leftarrow> get_zone s12;
                   _ \<leftarrow> (if s13 = [] then Some () else None);
                   _ \<leftarrow> in_range 1 (days_in mo y) d;
                   Some \<lparr>t_unix = unix_days y mo d * 86400 + h * 3600 + mi * 60 + se - off,
                         t_nsec = ns, t_year = y, t_month = mo, t_day = d\<rparr> }) }"

definition time_parse :: "string \<Rightarrow> go_time" where
  "time_parse s = (case parse_rfc3339_opt s of None \<Rightarrow> time_zero | Some t \<Rightarrow> t)"

section \<open>UnixNano and Format\<close>

text \<open>\<open>UnixNano\<close> is a product and a sum of \<open>int64\<close>: years outside 1678 to 2262 wrap around.\<close>

definition unix_nano :: "go_time \<Rightarrow> int" where
  "unix_nano t = wrap64 (t_unix t * 1000000000 + t_nsec t)"

definition unix_milli :: "go_time \<Rightarrow> int" where
  "unix_milli t = tdiv (unix_nano t) 1000000"

definition two_digits :: "int \<Rightarrow> string" where
  "two_digits i = [digit_char (nat i div 10 mod 10), digit_char (nat i mod 10)]"

definition format_mdy :: "go_time \<Rightarrow> string" where
  "format_mdy t =
     two_digits (t_month t) @ ''-'' @ two_digits (t_day t) @ ''-'' @
     two_digits (t_year t div 100) @ two_digits (t_year t mod 100)"

lemma in_int64_unix_milli: "in_int64 (unix_milli t)"
proof -
  have "in_int64 (unix_nano t)" by (simp add: unix_nano_def wrap64_range)
  then have "\<bar>unix_nano t\<bar> \<le> 2 ^ 63" by (simp add: in_int64_def abs_le_iff)
  then have "\<bar>unix_nano t\<bar> div 1000000 < 2 ^ 62" by simp
  moreover have "0 \<le> \<bar>unix_nano t\<bar> div 1000000" by simp
  ultimately show ?thesis
    by (auto simp: unix_milli_def tdiv_def in_int64_def sgn_if)
qed

lemma unix_milli_zero_time: "unix_milli time_zero = - 6795364578871"
  by (simp add: unix_milli_def unix_nano_def time_zero_def wrap64_def tdiv_def)

lemma unix_milli_in_range:
  assumes "0 \<le> t_unix t" "t_unix t < 9223372036" "0 \<le> t_nsec t" "t_nsec t < 1000000000"
  shows "unix_milli t = t_unix t * 1000 + t_nsec t div 1000000"
proof -
  have "unix_nano t = t_unix t * 1000000000 + t_nsec t"
    unfolding unix_nano_def using assms by (intro wrap64_id) (simp add: in_int64_def)
  moreover have "(t_unix t * 1000000000 + t_nsec t) div 1000000 = t_unix t * 1000 + t_nsec t div 1000000"
    by simp
  ultimately show ?thesis using assms by (simp add: unix_milli_def tdiv_nonneg)
qed

end
