(* ===== verification/Mix_Default.thy ===== *)
theory Mix_Default
  imports Base_Worker Cache_Model Go_Time
begin

text \<open>
  The mix-default log processor (\<open>pkg/log_processors/mix_default\<close>): the transformer, which
  normalises records and computes recognition figures, and the worker, which caches the four ASR
  records of a session and merges them into the call summary once all have arrived.

  Go's type assertions and nil dereferences are written out: every operation that can panic
  returns an option, and \<^term>\<open>None\<close> is the panic, which ends the process.
\<close>

section \<open>Interface values\<close>

text \<open>The dynamic value of an \<open>interface{}\<close> read from a map or a slice: a missing entry and a JSON
  \<open>null\<close> are both nil.\<close>

definition as_obj :: "json option \<Rightarrow> obj option" where
  "as_obj v = (case v of Some (JObj m) \<Rightarrow> Some m | _ \<Rightarrow> None)"

definition as_arr :: "json option \<Rightarrow> json list option" where
  "as_arr v = (case v of Some (JArr xs) \<Rightarrow> Some xs | _ \<Rightarrow> None)"

definition as_num :: "json option \<Rightarrow> dec option" where
  "as_num v = (case v of Some (JNum d) \<Rightarrow> Some d | _ \<Rightarrow> None)"

definition as_str :: "json option \<Rightarrow> string option" where
  "as_str v = (case v of Some (JStr s) \<Rightarrow> Some s | _ \<Rightarrow> None)"

lemmas as_defs [go_defs] = as_obj_def as_arr_def as_num_def as_str_def

lemma as_simps [simp]:
  "as_obj (Some (JObj m)) = Some m" "as_arr (Some (JArr xs)) = Some xs"
  "as_num (Some (JNum d)) = Some d" "as_str (Some (JStr s)) = Some s"
  "as_obj None = None" "as_arr None = None" "as_num None = None" "as_str None = None"
  by (simp_all add: go_defs)

abbreviation el_data :: "EventLogSchema \<Rightarrow> EventLogData" where
  "el_data s \<equiv> elv_Data (el_Value s)"

definition upd_data :: "(EventLogData \<Rightarrow> EventLogData) \<Rightarrow> EventLogSchema \<Rightarrow> EventLogSchema" where
  "upd_data f s = s\<lparr>el_Value := (el_Value s)\<lparr>elv_Data := f (elv_Data (el_Value s))\<rparr>\<rparr>"

definition upd_callsummary ::
  "(AsrCallSummaryPayload \<Rightarrow> AsrCallSummaryPayload) \<Rightarrow> EventLogSchema \<Rightarrow> EventLogSchema" where
  "upd_callsummary f s = upd_data (\<lambda>d. d\<lparr>data_Asr :=
     map_option (\<lambda>a. a\<lparr>asr_CallSummary := map_option f (asr_CallSummary a)\<rparr>) (data_Asr d)\<rparr>) s"

definition el_CallSummary :: "EventLogSchema \<Rightarrow> AsrCallSummaryPayload option" where
  "el_CallSummary s = do { a \<leftarrow> data_Asr (el_data s); asr_CallSummary a }"

definition the_arr :: "json list option \<Rightarrow> json list" where
  "the_arr a = (case a of None \<Rightarrow> [] | Some xs \<Rightarrow> xs)"

section \<open>Transformer\<close>

subsection \<open>NLU records\<close>

text \<open>\<open>reflect.TypeOf(nil).Kind()\<close> is a method call on a nil interface.\<close>

definition hasRedactedInput :: "EventLogSchema \<Rightarrow> bool option" where
  "hasRedactedInput s =
     do { r \<leftarrow> data_Request (el_data s);
          i \<leftarrow> req_Input r;
          Some (case i of JStr _ \<Rightarrow> True | _ \<Rightarrow> False) }"

definition hasAsrResultForInput :: "EventLogSchema \<Rightarrow> bool option" where
  "hasAsrResultForInput s =
     do { r \<leftarrow> data_Request (el_data s);
          i \<leftarrow> req_Input r;
          (case i of
             JStr _ \<Rightarrow> Some False
           | _ \<Rightarrow> do { m \<leftarrow> as_obj (Some i); Some (obj_get m ''asrResult'' \<noteq> None) }) }"

definition hasRedactedResponse :: "EventLogSchema \<Rightarrow> bool option" where
  "hasRedactedResponse s =
     do { r \<leftarrow> data_Response (el_data s);
          Some (case resp_ResultPayload r of
                  None \<Rightarrow> False
                | Some p \<Rightarrow> str_contains (res_Literal p) ''redacted'') }"

definition set_Input :: "json \<Rightarrow> EventLogSchema \<Rightarrow> EventLogSchema" where
  "set_Input v s = upd_data (\<lambda>d. d\<lparr>data_Request := map_option (\<lambda>r. r\<lparr>req_Input := Some v\<rparr>) (data_Request d)\<rparr>) s"

definition removeRedactedInput :: "EventLogSchema \<Rightarrow> EventLogSchema option" where
  "removeRedactedInput s =
     do { b \<leftarrow> hasRedactedInput s;
          Some (if b then set_Input (JObj [(''inputUnion'', JStr ''text''),
                                           (''text'', JStr ''<text input redacted>'')]) s
                else s) }"

definition removeRedactedResponse :: "EventLogSchema \<Rightarrow> EventLogSchema option" where
  "removeRedactedResponse s =
     do { b \<leftarrow> hasRedactedResponse s;
          Some (if b then upd_data (\<lambda>d. d\<lparr>data_Response :=
                  map_option (\<lambda>r. r\<lparr>resp_ResultPayload :=
                    map_option (\<lambda>p. p\<lparr>res_Literal := ''<response redacted>''\<rparr>)
                      (resp_ResultPayload r)\<rparr>) (data_Response d)\<rparr>) s
                else s) }"

definition redactAsrResult :: "EventLogSchema \<Rightarrow> EventLogSchema option" where
  "redactAsrResult s =
     do { r \<leftarrow> data_Request (el_data s);
          m \<leftarrow> as_obj (req_Input r);
          Some (set_Input (JObj (obj_set m ''asrResult'' (JStr ''<asrResult redacted>''))) s) }"

definition transformNlu :: "EventLogSchema \<Rightarrow> EventLogSchema option" where
  "transformNlu s =
     do { a \<leftarrow> hasAsrResultForInput s;
          s1 \<leftarrow> (if a then redactAsrResult s
                 else do { b \<leftarrow> hasRedactedInput s; if b then removeRedactedInput s else Some s });
          c \<leftarrow> hasRedactedResponse s1;
          if c then removeRedactedResponse s1 else Some s1 }"

subsection \<open>ASR call summaries\<close>

text \<open>A loop over \<open>CallSummary.Recognize\<close> whose body rewrites one entry.\<close>

definition over_recognize ::
  "(json list \<Rightarrow> json list option) \<Rightarrow> EventLogSchema \<Rightarrow> EventLogSchema option" where
  "over_recognize f s =
     do { cs \<leftarrow> el_CallSummary s;
          xs \<leftarrow> f (the_arr (cs_Recognize cs));
          Some (upd_callsummary (\<lambda>c. c\<lparr>cs_Recognize := map_option (\<lambda>_. xs) (cs_Recognize c)\<rparr>) s) }"

definition weight_object :: "json \<Rightarrow> json option" where
  "weight_object ro =
     do { m \<leftarrow> as_obj (Some ro);
          Some (if obj_get m ''weight'' \<noteq> None
                then JObj (obj_set m ''weight'' (JNum (dec_of_int 500))) else ro) }"

definition weight_entry :: "json \<Rightarrow> json option" where
  "weight_entry e =
     do { m \<leftarrow> as_obj (Some e);
          (if obj_get m ''recognitionObjects'' = None then Some e
           else do { ros \<leftarrow> as_arr (obj_get m ''recognitionObjects'');
                     ros' \<leftarrow> mapM weight_object ros;
                     Some (JObj (obj_set m ''recognitionObjects'' (JArr ros'))) }) }"

definition mapWeightEnumToInt :: "EventLogSchema \<Rightarrow> EventLogSchema option" where
  "mapWeightEnumToInt = over_recognize (mapM weight_entry)"

definition latency_entry :: "json \<Rightarrow> json option" where
  "latency_entry e =
     do { m \<leftarrow> as_obj (Some e);
          stats \<leftarrow> as_obj (obj_get m ''audioPacketStats'');
          (case as_str (obj_get stats ''lastPacketTime'') of
             None \<Rightarrow> Some e
           | Some lastPacketTime \<Rightarrow>
               do { absEndTime \<leftarrow> as_num (obj_get m ''absEndTime'');
                    (let latency = wrap64 (dec_trunc absEndTime - unix_milli (time_parse lastPacketTime))
                     in Some (JObj (obj_set m ''latency'' (JNum (dec_of_int latency))))) }) }"

definition calcAsrLatency :: "EventLogSchema \<Rightarrow> EventLogSchema option" where
  "calcAsrLatency = over_recognize (mapM latency_entry)"

text \<open>The average is declared outside the loop: an entry without packets gets the one computed for
  the entries before it. The division is by the integer part of the packet count.\<close>

definition avg_entry :: "int \<Rightarrow> json \<Rightarrow> (int \<times> json) option" where
  "avg_entry avg e =
     do { m \<leftarrow> as_obj (Some e);
          stats \<leftarrow> as_obj (obj_get m ''audioPacketStats'');
          (case as_num (obj_get stats ''packetsReceived'') of
             None \<Rightarrow> Some (avg, e)
           | Some packetsReceived \<Rightarrow>
               do { avg' \<leftarrow> (if dec_positive packetsReceived
                             then do { b \<leftarrow> as_num (obj_get stats ''bytesReceived'');
                                       if dec_trunc packetsReceived = 0 then None
                                       else Some (tdiv (dec_trunc b) (dec_trunc packetsReceived)) }
                             else Some avg);
                    Some (avg', JObj (obj_set m ''audioPacketStats''
                            (JObj (obj_set stats ''avgPacketSize'' (JNum (dec_of_int avg')))))) }) }"

fun avg_loop :: "int \<Rightarrow> json list \<Rightarrow> json list option" where
  "avg_loop avg [] = Some []"
| "avg_loop avg (e # es) =
     do { (avg', e') \<leftarrow> avg_entry avg e; es' \<leftarrow> avg_loop avg' es; Some (e' # es') }"

definition calcAvgPacketSize :: "EventLogSchema \<Rightarrow> EventLogSchema option" where
  "calcAvgPacketSize = over_recognize (avg_loop 0)"

definition normalizeAsrClientData :: "EventLogSchema \<Rightarrow> EventLogSchema option" where
  "normalizeAsrClientData s =
     do { cs \<leftarrow> el_CallSummary s;
          Some (upd_callsummary (\<lambda>c. c\<lparr>cs_ClientData := None\<rparr>)
                 (upd_data (\<lambda>d. d\<lparr>data_ClientData := cs_ClientData cs,
                                  data_Request := Some (req_zero\<lparr>req_ClientData := cs_ClientData cs\<rparr>)\<rparr>) s)) }"

definition normalizeTtsClientData :: "EventLogSchema \<Rightarrow> EventLogSchema option" where
  "normalizeTtsClientData s =
     do { r \<leftarrow> data_Request (el_data s);
          Some (upd_data (\<lambda>d. d\<lparr>data_Request := Some (r\<lparr>req_ClientData := data_ClientData d\<rparr>),
                                data_ClientData := None\<rparr>) s) }"

definition transformAsr :: "EventLogSchema \<Rightarrow> EventLogSchema option" where
  "transformAsr s =
     do { s1 \<leftarrow> mapWeightEnumToInt s;
          s2 \<leftarrow> calcAsrLatency s1;
          s3 \<leftarrow> calcAvgPacketSize s2;
          normalizeAsrClientData s3 }"

definition isFinalStatusResponse :: "EventLogSchema \<Rightarrow> bool" where
  "isFinalStatusResponse s = str_contains (data_DataContentType (el_data s)) ''finalstatusresponse''"

definition isCallSummary :: "EventLogSchema \<Rightarrow> bool" where
  "isCallSummary s = str_contains (data_DataContentType (el_data s)) ''callsummary''"

text \<open>No branch returns an error; the result is the record or a panic.\<close>

definition Transform :: "EventLogSchema \<Rightarrow> EventLogSchema option" where
  "Transform s =
     (let service = elv_Service (el_Value s)
      in if service = ''NIIEventLog'' then Some s
         else if service = ''DLGaaS'' then Some s
         else if service = ''NLUaaS'' then transformNlu s
         else if isFinalStatusResponse s then Some s
         else if \<not> isCallSummary s then Some s
         else if service = ''TTSaaS'' then normalizeTtsClientData s
         else if service = ''ASRaaS'' then transformAsr s
         else Some s)"

section \<open>Worker\<close>

definition KeyRecognitionInitMessage :: string where
  "KeyRecognitionInitMessage = ''recognitioninitmessage''"

definition KeyFinalStatusResponse :: string where
  "KeyFinalStatusResponse = ''finalstatusresponse''"

definition KeyFinalResultResponse :: string where
  "KeyFinalResultResponse = ''finalresultresponse''"

definition KeyCallSummary :: string where
  "KeyCallSummary = ''callsummary''"

lemmas Key_defs = KeyRecognitionInitMessage_def KeyFinalStatusResponse_def
  KeyFinalResultResponse_def KeyCallSummary_def

definition asr_keys :: "string list" where
  "asr_keys = [KeyCallSummary, KeyFinalResultResponse, KeyFinalStatusResponse, KeyRecognitionInitMessage]"

record md_worker =
  md_parent :: worker
  md_joinedCallSummary :: "EventLogSchema option"

definition asr_ttl :: int where
  "asr_ttl = 60 * 60 * 1000000000"

definition asrEventLogName :: "string \<Rightarrow> string" where
  "asrEventLogName ct =
     (if str_contains ct KeyRecognitionInitMessage then KeyRecognitionInitMessage
      else if str_contains ct KeyFinalResultResponse then KeyFinalResultResponse
      else if str_contains ct KeyFinalStatusResponse then KeyFinalStatusResponse
      else if str_contains ct KeyCallSummary then KeyCallSummary
      else [])"

definition parseAsrEventLogName :: "worker \<Rightarrow> string" where
  "parseAsrEventLogName w = asrEventLogName (w_content_type w)"

definition useAsrRecordCache :: "worker \<Rightarrow> bool" where
  "useAsrRecordCache w =
     (elk_Service (el_Key (w_Schema w)) = ''ASRaaS'' \<and> \<not> IsAsrSummaryIgnored (w_filt w) \<and>
      parseAsrEventLogName w \<noteq> [])"

text \<open>The session id sits behind the embedded ASR pointer, which may be nil.\<close>

definition createCacheKey :: "worker \<Rightarrow> string \<Rightarrow> string option" where
  "createCacheKey w name =
     do { a \<leftarrow> data_Asr (el_data (w_Schema w)); Some (asr_AsrSessionID a @ ''|'' @ name) }"

definition cacheAsrRecord :: "'c cache_ops \<Rightarrow> 'c \<Rightarrow> worker \<Rightarrow> 'c option" where
  "cacheAsrRecord ops c w =
     (if useAsrRecordCache w
      then do { key \<leftarrow> createCacheKey w (parseAsrEventLogName w);
                Some (co_set ops c key (marshal_schema (w_Schema w)) asr_ttl) }
      else Some c)"

text \<open>\<open>Cache.Get\<close> into a schema: the stored text is decoded into a zero value; a decoding error counts
  as a miss.\<close>

definition cache_get_schema :: "'c cache_ops \<Rightarrow> 'c \<Rightarrow> string \<Rightarrow> EventLogSchema option \<times> 'c" where
  "cache_get_schema ops c key =
     (let (data, c') = co_get ops c key
      in (case data of
            None \<Rightarrow> None
          | Some text \<Rightarrow> (let (s, err) = unmarshal_schema text el_zero
                          in if err = None then Some s else None), c'))"

fun all_available :: "'c cache_ops \<Rightarrow> worker \<Rightarrow> string list \<Rightarrow> 'c \<Rightarrow> (bool \<times> 'c) option" where
  "all_available ops w [] c = Some (True, c)"
| "all_available ops w (k # ks) c =
     do { key \<leftarrow> createCacheKey w k;
          (let (s, c') = cache_get_schema ops c key
           in if s = None then Some (False, c') else all_available ops w ks c') }"

definition allAsrRecordsAvailableForJoin :: "'c cache_ops \<Rightarrow> worker \<Rightarrow> 'c \<Rightarrow> (bool \<times> 'c) option" where
  "allAsrRecordsAvailableForJoin ops w c = all_available ops w asr_keys c"

definition shouldJoin :: "'c cache_ops \<Rightarrow> worker \<Rightarrow> 'c \<Rightarrow> (bool \<times> 'c) option" where
  "shouldJoin ops w c =
     (if useAsrRecordCache w then allAsrRecordsAvailableForJoin ops w c else Some (False, c))"

definition deleteKeysFromCache :: "'c cache_ops \<Rightarrow> worker \<Rightarrow> 'c \<Rightarrow> 'c option" where
  "deleteKeysFromCache ops w c =
     do { keys \<leftarrow> mapM (createCacheKey w) asr_keys;
          Some (fold (\<lambda>k c. co_delete ops c k) keys c) }"

text \<open>Reads the four records in the order of the key list; a miss is remembered as an error, the
  others are still read.\<close>

definition getAsrEventLogsFromCache ::
  "'c cache_ops \<Rightarrow> worker \<Rightarrow> 'c \<Rightarrow>
   ((EventLogSchema \<times> EventLogSchema \<times> EventLogSchema \<times> EventLogSchema) option \<times> 'c) option" where
  "getAsrEventLogsFromCache ops w c =
     do { k1 \<leftarrow> createCacheKey w KeyCallSummary;
          k2 \<leftarrow> createCacheKey w KeyFinalResultResponse;
          k3 \<leftarrow> createCacheKey w KeyFinalStatusResponse;
          k4 \<leftarrow> createCacheKey w KeyRecognitionInitMessage;
          (let (callSummary, c1) = cache_get_schema ops c k1;
               (finalResult, c2) = cache_get_schema ops c1 k2;
               (finalStatus, c3) = cache_get_schema ops c2 k3;
               (recoInit, c4) = cache_get_schema ops c3 k4
           in Some (do { ri \<leftarrow> recoInit; fr \<leftarrow> finalResult; fs \<leftarrow> finalStatus; cs \<leftarrow> callSummary;
                         Some (ri, fr, fs, cs) }, c4)) }"

text \<open>The merged call summary: the request of the init message, the response of the final status
  with its time, and the time of the final result.\<close>

definition mergeAsr ::
  "EventLogSchema \<Rightarrow> EventLogSchema \<Rightarrow> EventLogSchema \<Rightarrow> EventLogSchema \<Rightarrow> EventLogSchema option" where
  "mergeAsr recoInit finalResult finalStatus callSummary =
     do { resp \<leftarrow> data_Response (el_data finalStatus);
          a \<leftarrow> data_Asr (el_data callSummary);
          (let resp' = resp\<lparr>resp_Timestamp := unix_milli (time_parse (elv_Timestamp (el_Value finalStatus)))\<rparr>;
               fr = \<lparr>fr_Timestamp = unix_milli (time_parse (elv_Timestamp (el_Value finalResult)))\<rparr>
           in Some (upd_data (\<lambda>d. d\<lparr>data_Asr := Some (a\<lparr>asr_FinalResult := Some fr\<rparr>),
                                    data_Request := data_Request (el_data recoInit),
                                    data_Response := Some resp'\<rparr>) callSummary)) }"

definition mergeIntoAsrCallSummary ::
  "md_worker \<Rightarrow> EventLogSchema \<Rightarrow> EventLogSchema \<Rightarrow> EventLogSchema \<Rightarrow> EventLogSchema \<Rightarrow> md_worker option" where
  "mergeIntoAsrCallSummary w recoInit finalResult finalStatus callSummary =
     do { m \<leftarrow> mergeAsr recoInit finalResult finalStatus callSummary;
          Some (if w_content_type (md_parent w) = data_DataContentType (el_data m)
                then w\<lparr>md_parent := (md_parent w)\<lparr>w_Schema := m\<rparr>\<rparr>
                else w\<lparr>md_joinedCallSummary := Some m\<rparr>) }"

text \<open>The deferred deletion runs after the merge, with the session id of the record the worker
  holds then.\<close>

definition joinAsrRecords :: "'c cache_ops \<Rightarrow> md_worker \<Rightarrow> 'c \<Rightarrow> (md_worker \<times> 'c) option" where
  "joinAsrRecords ops w c =
     do { (logs, c1) \<leftarrow> getAsrEventLogsFromCache ops (md_parent w) c;
          w' \<leftarrow> (case logs of
                   None \<Rightarrow> Some w
                 | Some (ri, fr, fs, cs) \<Rightarrow> mergeIntoAsrCallSummary w ri fr fs cs);
          c2 \<leftarrow> deleteKeysFromCache ops (md_parent w') c1;
          Some (w', c2) }"

definition md_NewWorker :: "FilterConfig \<Rightarrow> md_worker" where
  "md_NewWorker fc = \<lparr>md_parent = NewWorker fc, md_joinedCallSummary = None\<rparr>"

definition md_Start :: "string \<Rightarrow> md_worker \<Rightarrow> md_worker" where
  "md_Start r w = w\<lparr>md_parent := w_Start r (md_parent w)\<rparr>"

definition md_Validate :: "md_worker \<Rightarrow> md_worker" where
  "md_Validate w = w\<lparr>md_parent := w_Validate (md_parent w)\<rparr>"

definition md_Filter :: "md_worker \<Rightarrow> md_worker" where
  "md_Filter w = w\<lparr>md_parent := w_Filter (md_parent w)\<rparr>"

definition md_Transform :: "'c cache_ops \<Rightarrow> 'c \<Rightarrow> md_worker \<Rightarrow> (md_worker \<times> 'c) option" where
  "md_Transform ops c w =
     (if w_Failed (md_parent w) \<and> \<not> useAsrRecordCache (md_parent w) then Some (w, c)
      else do { s \<leftarrow> Transform (w_Schema (md_parent w));
                (let w' = w\<lparr>md_parent := (md_parent w)\<lparr>w_Schema := s\<rparr>\<rparr>
                 in if useAsrRecordCache (md_parent w')
                    then do { c' \<leftarrow> cacheAsrRecord ops c (md_parent w'); Some (w', c') }
                    else Some (w', c)) })"

definition md_Join :: "'c cache_ops \<Rightarrow> 'c \<Rightarrow> md_worker \<Rightarrow> (md_worker \<times> 'c) option" where
  "md_Join ops c w =
     do { (b, c') \<leftarrow> shouldJoin ops (md_parent w) c;
          if b then joinAsrRecords ops w c' else Some (w, c') }"

text \<open>An error while writing the additional call summary is only logged.\<close>

definition md_Write :: "'p writer \<Rightarrow> 'p \<Rightarrow> md_worker \<Rightarrow> 'p \<times> md_worker" where
  "md_Write wr p w =
     (let p1 = (case md_joinedCallSummary w of None \<Rightarrow> p | Some s \<Rightarrow> fst (wr p (marshal_schema s)));
          (p2, w') = w_Write wr p1 (md_parent w)
      in (p2, w\<lparr>md_parent := w'\<rparr>))"

definition md_RunWorker ::
  "'c cache_ops \<Rightarrow> FilterConfig \<Rightarrow> 'p writer \<Rightarrow> 'c \<times> 'p \<Rightarrow> string \<Rightarrow> (('c \<times> 'p) \<times> worker) option" where
  "md_RunWorker ops fc wr st r =
     do { (w1, c1) \<leftarrow> md_Transform ops (fst st) (md_Filter (md_Validate (md_Start r (md_NewWorker fc))));
          (w2, c2) \<leftarrow> md_Join ops c1 w1;
          Some ((c2, fst (md_Write wr (snd st) w2)), md_parent (snd (md_Write wr (snd st) w2))) }"

section \<open>What the transformer leaves alone\<close>

definition same_id :: "EventLogSchema \<Rightarrow> EventLogSchema \<Rightarrow> bool" where
  "same_id s t = (el_Key t = el_Key s \<and> el_Topic t = el_Topic s \<and>
     elv_Service (el_Value t) = elv_Service (el_Value s) \<and>
     data_DataContentType (el_data t) = data_DataContentType (el_data s) \<and>
     map_option asr_AsrSessionID (data_Asr (el_data t)) = map_option asr_AsrSessionID (data_Asr (el_data s)))"

lemma same_id_refl [simp]: "same_id s s"
  by (simp add: same_id_def)

lemma same_id_trans: "same_id s t \<Longrightarrow> same_id t u \<Longrightarrow> same_id s u"
  by (simp add: same_id_def)

lemma el_data_upd [simp]: "el_data (upd_data f s) = f (el_data s)" "el_Key (upd_data f s) = el_Key s"
  "el_Topic (upd_data f s) = el_Topic s" "elv_Service (el_Value (upd_data f s)) = elv_Service (el_Value s)"
  "elv_Timestamp (el_Value (upd_data f s)) = elv_Timestamp (el_Value s)"
  by (simp_all add: upd_data_def)

lemma same_id_upd_callsummary [simp]: "same_id s (upd_callsummary f s)"
  by (simp add: same_id_def upd_callsummary_def option.map_comp o_def)

lemma same_id_over_recognize: "over_recognize f s = Some t \<Longrightarrow> same_id s t"
  by (auto simp: over_recognize_def)

lemma same_id_normalize: "normalizeAsrClientData s = Some t \<Longrightarrow> same_id s t"
  by (auto simp: normalizeAsrClientData_def same_id_def upd_callsummary_def option.map_comp o_def)

lemma same_id_Asr:
  assumes "transformAsr s = Some t"
  shows "same_id s t"
proof -
  obtain s1 s2 s3 where "mapWeightEnumToInt s = Some s1" "calcAsrLatency s1 = Some s2"
    "calcAvgPacketSize s2 = Some s3" "normalizeAsrClientData s3 = Some t"
    using assms by (auto simp: transformAsr_def)
  then have "same_id s s1" "same_id s1 s2" "same_id s2 s3" "same_id s3 t"
    by (auto simp: mapWeightEnumToInt_def calcAsrLatency_def calcAvgPacketSize_def
        intro: same_id_over_recognize same_id_normalize)
  then show ?thesis by (metis same_id_trans)
qed

lemma same_id_set_Input [simp]: "same_id s (set_Input v s)"
  by (simp add: same_id_def set_Input_def)

lemma same_id_Nlu: "transformNlu s = Some t \<Longrightarrow> same_id s t"
  unfolding transformNlu_def removeRedactedInput_def removeRedactedResponse_def redactAsrResult_def
  by (auto split: if_splits simp: same_id_def set_Input_def)

lemma same_id_Transform: "Transform s = Some t \<Longrightarrow> same_id s t"
  by (auto simp: Transform_def Let_def normalizeTtsClientData_def same_id_Asr same_id_Nlu
      split: if_splits) (auto simp: same_id_def)

section \<open>Flags\<close>

lemma schema_same: "\<exists>s. w = w\<lparr>w_Schema := s\<rparr>"
  by (rule exI [of _ "w_Schema w"]) simp

lemma schema_upd: "\<exists>s. w\<lparr>w_Schema := x\<rparr> = w\<lparr>w_Schema := s\<rparr>"
  by blast

lemma md_Transform_flags:
  "md_Transform ops c w = Some (w', c') \<Longrightarrow>
     \<exists>s. md_parent w' = (md_parent w)\<lparr>w_Schema := s\<rparr> \<and> md_joinedCallSummary w' = md_joinedCallSummary w"
  by (auto simp: md_Transform_def Let_def schema_same split: if_splits)

lemma md_Join_flags:
  "md_Join ops c w = Some (w', c') \<Longrightarrow> \<exists>s. md_parent w' = (md_parent w)\<lparr>w_Schema := s\<rparr>"
  by (auto simp: md_Join_def joinAsrRecords_def mergeIntoAsrCallSummary_def
      schema_same schema_upd split: if_splits option.splits prod.splits)

lemma flags_ok_schema [simp]: "flags_ok (w\<lparr>w_Schema := s\<rparr>) = flags_ok w"
  by (simp add: flags_ok_def)

interpretation md_run: run_contract "md_RunWorker ops fc wr" for ops fc wr
proof unfold_locales
  fix st r p' w assume "md_RunWorker ops fc wr st r = Some (p', w)"
  then obtain w1 c1 w2 c2 where w1: "md_Transform ops (fst st) (md_Filter (md_Validate (md_Start r (md_NewWorker fc)))) = Some (w1, c1)"
    and w2: "md_Join ops c1 w1 = Some (w2, c2)" and w: "w = md_parent (snd (md_Write wr (snd st) w2))"
    by (auto simp: md_RunWorker_def)
  obtain s where "md_parent w2 = (w_Filter (w_Validate (w_Start r (NewWorker fc))))\<lparr>w_Schema := s\<rparr>"
    using md_Transform_flags [OF w1] md_Join_flags [OF w2]
    by (auto simp: md_Filter_def md_Validate_def md_Start_def md_NewWorker_def)
  then have "flags_ok (md_parent w2)" "\<not> w_Written (md_parent w2)"
    by (simp_all add: flags_intros)
  then show "flags_ok w" by (simp add: w md_Write_def Let_def flags_ok_Write split: prod.splits)
      (metis flags_ok_Write snd_conv)
qed

section \<open>Joining\<close>

text \<open>What the cache hands back for a record, and that it hands it back with its identity.\<close>

definition copy :: "EventLogSchema \<Rightarrow> EventLogSchema" where
  "copy s = fst (unmarshal_schema (marshal_schema s) el_zero)"

definition survives :: "EventLogSchema \<Rightarrow> bool" where
  "survives s = (snd (unmarshal_schema (marshal_schema s) el_zero) = None \<and> same_id s (copy s))"

text \<open>The abstract joiner of one session: the records seen so far by name; the fourth completes the
  join, which empties the store and gives the merged call summary.\<close>

type_synonym session_store = "string \<Rightarrow> EventLogSchema option"

definition join_merge :: "session_store \<Rightarrow> EventLogSchema option option" where
  "join_merge m =
     (case (m KeyRecognitionInitMessage, m KeyFinalResultResponse, m KeyFinalStatusResponse, m KeyCallSummary) of
        (Some ri, Some fr, Some fs, Some cs) \<Rightarrow> Some (mergeAsr (copy ri) (copy fr) (copy fs) (copy cs))
      | _ \<Rightarrow> None)"

text \<open>The texts one run sends to the pipeline, for the record \<open>s\<close> it transformed and the merged call
  summary, if the run completed a join: the merged summary on its own when the record is another
  one, and the record, or the merged summary in its place, unless it is filtered.\<close>

definition md_outputs :: "FilterConfig \<Rightarrow> EventLogSchema \<Rightarrow> EventLogSchema option \<Rightarrow> string list" where
  "md_outputs fc s mg =
     (case mg of
        None \<Rightarrow> []
      | Some g \<Rightarrow> if data_DataContentType (el_data s) = data_DataContentType (el_data g) then []
                   else [marshal_schema g]) @
     (if IsFiltered (NewFilter fc) (data_DataContentType (el_data s)) then []
      else [marshal_schema (case mg of
              None \<Rightarrow> s
            | Some g \<Rightarrow> if data_DataContentType (el_data s) = data_DataContentType (el_data g) then g else s)])"

definition send :: "'p writer \<Rightarrow> 'p \<Rightarrow> string list \<Rightarrow> 'p" where
  "send wr p xs = foldl (\<lambda>p x. fst (wr p x)) p xs"

definition session_of :: "EventLogSchema \<Rightarrow> string option" where
  "session_of s = map_option asr_AsrSessionID (data_Asr (el_data s))"

definition session_key :: "string \<Rightarrow> string \<Rightarrow> string" where
  "session_key sid k = sid @ ''|'' @ k"

lemma session_key_inj [simp]: "session_key sid k = session_key sid k' \<longleftrightarrow> k = k'"
  by (simp add: session_key_def)

lemma Key_distinct [simp]:
  "KeyCallSummary \<noteq> KeyFinalResultResponse" "KeyFinalResultResponse \<noteq> KeyCallSummary"
  "KeyCallSummary \<noteq> KeyFinalStatusResponse" "KeyFinalStatusResponse \<noteq> KeyCallSummary"
  "KeyCallSummary \<noteq> KeyRecognitionInitMessage" "KeyRecognitionInitMessage \<noteq> KeyCallSummary"
  "KeyFinalResultResponse \<noteq> KeyFinalStatusResponse" "KeyFinalStatusResponse \<noteq> KeyFinalResultResponse"
  "KeyFinalResultResponse \<noteq> KeyRecognitionInitMessage"
  "KeyRecognitionInitMessage \<noteq> KeyFinalResultResponse"
  "KeyFinalStatusResponse \<noteq> KeyRecognitionInitMessage"
  "KeyRecognitionInitMessage \<noteq> KeyFinalStatusResponse"
  by (simp_all add: Key_defs)

lemma all_keys_join_merge: "(\<forall>k \<in> set asr_keys. m k \<noteq> None) \<longleftrightarrow> join_merge m \<noteq> None"
  by (auto simp: asr_keys_def join_merge_def split: option.splits)

lemma asrEventLogName_in_keys: "asrEventLogName ct \<noteq> [] \<Longrightarrow> asrEventLogName ct \<in> set asr_keys"
  by (auto simp: asrEventLogName_def asr_keys_def)

text \<open>A cache holds exactly the records of a session store.\<close>

definition session_holds ::
  "('c \<Rightarrow> string \<Rightarrow> string option) \<Rightarrow> ('c \<Rightarrow> bool) \<Rightarrow> string \<Rightarrow> session_store \<Rightarrow> 'c \<Rightarrow> bool" where
  "session_holds view live sid m c = (live c \<and>
     (\<forall>k \<in> set asr_keys. view c (session_key sid k) = map_option marshal_schema (m k) \<and>
        (\<forall>s. m k = Some s \<longrightarrow> survives s \<and> session_of s = Some sid)))"

definition joined_worker :: "md_worker \<Rightarrow> EventLogSchema \<Rightarrow> md_worker" where
  "joined_worker w mg =
     (if w_content_type (md_parent w) = data_DataContentType (el_data mg)
      then w\<lparr>md_parent := (md_parent w)\<lparr>w_Schema := mg\<rparr>\<rparr>
      else w\<lparr>md_joinedCallSummary := Some mg\<rparr>)"

lemma session_of_merge:
  "mergeAsr ri fr fs cs = Some mg \<Longrightarrow> session_of mg = session_of cs"
  "mergeAsr ri fr fs cs = Some mg \<Longrightarrow> data_DataContentType (el_data mg) = data_DataContentType (el_data cs)"
  by (auto simp: mergeAsr_def session_of_def Let_def)

locale asr_join = cache_iface ops view inv long
  for ops :: "'c cache_ops" and view inv long +
  assumes long_asr: "long asr_ttl"
begin

abbreviation holds :: "string \<Rightarrow> session_store \<Rightarrow> 'c \<Rightarrow> bool" where
  "holds \<equiv> session_holds view inv"

lemma holds_get:
  assumes "holds sid m c" "k \<in> set asr_keys"
  shows "fst (cache_get_schema ops c (session_key sid k)) = map_option copy (m k)"
    and "holds sid m (snd (cache_get_schema ops c (session_key sid k)))"
proof -
  have inv: "inv c" and v: "view c (session_key sid k) = map_option marshal_schema (m k)"
    "\<And>s. m k = Some s \<Longrightarrow> survives s"
    using assms by (auto simp: session_holds_def)
  note g = get_pair [OF inv, of "session_key sid k"]
  show "fst (cache_get_schema ops c (session_key sid k)) = map_option copy (m k)"
    using v by (subst cache_get_schema_def, subst g)
      (auto simp: copy_def survives_def Let_def split: option.splits prod.splits)
  show "holds sid m (snd (cache_get_schema ops c (session_key sid k)))"
    using assms(1) get_keeps [OF inv] get_inv [OF inv]
    by (simp add: cache_get_schema_def session_holds_def Let_def split: prod.splits) (metis snd_conv)
qed

lemma holds_set:
  assumes "holds sid m c" "survives s" "session_of s = Some sid"
  shows "holds sid (m(k \<mapsto> s)) (co_set ops c (session_key sid k) (marshal_schema s) asr_ttl)"
  using assms set_inv [OF _ long_asr] set_view [OF _ long_asr] by (auto simp: session_holds_def)

lemma holds_available:
  assumes "holds sid m c" "set ks \<subseteq> set asr_keys" "\<And>k. createCacheKey w k = Some (session_key sid k)"
  shows "\<exists>c'. all_available ops w ks c = Some (\<forall>k \<in> set ks. m k \<noteq> None, c') \<and> holds sid m c'"
  using assms(1,2)
proof (induction ks arbitrary: c)
  case (Cons k ks)
  have k: "k \<in> set asr_keys" using Cons.prems by simp
  note g = holds_get [OF Cons.prems(1) k]
  show ?case
  proof (cases "m k")
    case None
    then show ?thesis using g assms(3) by (simp add: Let_def case_prod_unfold)
  next
    case (Some s)
    then show ?thesis using g assms(3) Cons.IH [OF g(2)] Cons.prems(2)
      by (simp add: Let_def case_prod_unfold)
  qed
qed simp

lemma holds_delete:
  assumes "holds sid m c" "\<And>k. createCacheKey w k = Some (session_key sid k)"
  shows "\<exists>c'. deleteKeysFromCache ops w c = Some c' \<and> holds sid (\<lambda>_. None) c'"
proof -
  have "mapM (createCacheKey w) asr_keys = Some (map (session_key sid) asr_keys)"
    using assms(2) by (intro mapM_Some_map) simp
  moreover have "inv c" using assms(1) by (simp add: session_holds_def)
  ultimately show ?thesis using fold_delete [of c "map (session_key sid) asr_keys"]
    by (auto simp: deleteKeysFromCache_def session_holds_def)
qed

lemma holds_logs:
  assumes h: "holds sid m c" and key: "\<And>k. createCacheKey w k = Some (session_key sid k)"
    and all: "m KeyRecognitionInitMessage = Some ri" "m KeyFinalResultResponse = Some fr"
      "m KeyFinalStatusResponse = Some fs" "m KeyCallSummary = Some cs"
  shows "\<exists>c'. getAsrEventLogsFromCache ops w c = Some (Some (copy ri, copy fr, copy fs, copy cs), c')
    \<and> holds sid m c'"
proof -
  define c1 where "c1 = snd (cache_get_schema ops c (session_key sid KeyCallSummary))"
  define c2 where "c2 = snd (cache_get_schema ops c1 (session_key sid KeyFinalResultResponse))"
  define c3 where "c3 = snd (cache_get_schema ops c2 (session_key sid KeyFinalStatusResponse))"
  have 1: "cache_get_schema ops c (session_key sid KeyCallSummary) = (Some (copy cs), c1)" "holds sid m c1"
    using holds_get [OF h, of KeyCallSummary] all by (auto simp: c1_def asr_keys_def prod_eq_iff)
  have 2: "cache_get_schema ops c1 (session_key sid KeyFinalResultResponse) = (Some (copy fr), c2)" "holds sid m c2"
    using holds_get [OF 1(2), of KeyFinalResultResponse] all by (auto simp: c2_def asr_keys_def prod_eq_iff)
  have 3: "cache_get_schema ops c2 (session_key sid KeyFinalStatusResponse) = (Some (copy fs), c3)" "holds sid m c3"
    using holds_get [OF 2(2), of KeyFinalStatusResponse] all by (auto simp: c3_def asr_keys_def prod_eq_iff)
  show ?thesis
    using holds_get [OF 3(2), of KeyRecognitionInitMessage] all key 1(1) 2(1) 3(1)
    by (cases "cache_get_schema ops c3 (session_key sid KeyRecognitionInitMessage)")
       (simp add: getAsrEventLogsFromCache_def Let_def asr_keys_def)
qed

lemma session_keys:
  "session_of (w_Schema w) = Some sid \<Longrightarrow> createCacheKey w k = Some (session_key sid k)"
  by (auto simp: session_of_def createCacheKey_def session_key_def)

lemma join_incomplete:
  assumes "holds sid m c" "session_of (w_Schema (md_parent w)) = Some sid"
    "useAsrRecordCache (md_parent w)" "join_merge m = None"
  shows "\<exists>c'. md_Join ops c w = Some (w, c') \<and> holds sid m c'"
proof -
  obtain c' where "all_available ops (md_parent w) asr_keys c = Some (False, c')" "holds sid m c'"
    using holds_available [OF assms(1) subset_refl session_keys [OF assms(2)]]
    unfolding all_keys_join_merge assms(4) by auto
  then show ?thesis using assms(3)
    by (simp add: md_Join_def shouldJoin_def allAsrRecordsAvailableForJoin_def)
qed

lemma join_complete:
  assumes h: "holds sid m c" and sid: "session_of (w_Schema (md_parent w)) = Some sid"
    and use: "useAsrRecordCache (md_parent w)" and jm: "join_merge m = Some mg"
  shows "mg = None \<Longrightarrow> md_Join ops c w = None"
    and "mg = Some g \<Longrightarrow> \<exists>c'. md_Join ops c w = Some (joined_worker w g, c') \<and> holds sid (\<lambda>_. None) c'"
proof -
  obtain ri fr fs cs where m: "m KeyRecognitionInitMessage = Some ri" "m KeyFinalResultResponse = Some fr"
      "m KeyFinalStatusResponse = Some fs" "m KeyCallSummary = Some cs"
    and mg: "mg = mergeAsr (copy ri) (copy fr) (copy fs) (copy cs)"
    using jm by (auto simp: join_merge_def split: option.splits)
  note key = session_keys [OF sid]
  obtain c1 where c1: "all_available ops (md_parent w) asr_keys c = Some (True, c1)" "holds sid m c1"
    using holds_available [OF h subset_refl key] all_keys_join_merge [of m] jm by auto
  obtain c2 where c2: "getAsrEventLogsFromCache ops (md_parent w) c1 =
      Some (Some (copy ri, copy fr, copy fs, copy cs), c2)" "holds sid m c2"
    using holds_logs [OF c1(2) key m] by auto
  have step: "md_Join ops c w = do { w' \<leftarrow> mergeIntoAsrCallSummary w (copy ri) (copy fr) (copy fs) (copy cs);
      c3 \<leftarrow> deleteKeysFromCache ops (md_parent w') c2; Some (w', c3) }"
    using use c1(1) c2(1)
    by (simp add: md_Join_def shouldJoin_def allAsrRecordsAvailableForJoin_def joinAsrRecords_def)
  show "mg = None \<Longrightarrow> md_Join ops c w = None"
    using step mg by (simp add: mergeIntoAsrCallSummary_def)
  assume g: "mg = Some g"
  have "session_of cs = Some sid" "survives cs" using h m(4) by (auto simp: session_holds_def asr_keys_def)
  then have "session_of g = Some sid"
    using session_of_merge(1) g mg by (metis same_id_def session_of_def survives_def)
  then have "session_of (w_Schema (md_parent (joined_worker w g))) = Some sid"
    using sid by (simp add: joined_worker_def)
  from holds_delete [OF c2(2) session_keys [OF this]]
  show "\<exists>c'. md_Join ops c w = Some (joined_worker w g, c') \<and> holds sid (\<lambda>_. None) c'"
    using step g mg by (auto simp: mergeIntoAsrCallSummary_def joined_worker_def)
qed


lemma md_Write_send:
  assumes "md_parent w = (w_Filter (w_Validate (w_Start r (NewWorker fc))))\<lparr>w_Schema := s'\<rparr>"
    "unmarshal_schema r el_zero = (s, None)" "md_joinedCallSummary w = None" "same_id s s'"
  shows "fst (md_Write wr p w) = send wr p (md_outputs fc s' None)"
    and "fst (md_Write wr p (joined_worker w g)) = send wr p (md_outputs fc s' (Some g))"
  using assms
  by (auto simp: md_Write_def send_def md_outputs_def worker_defs joined_worker_def same_id_def Let_def
      split: prod.splits option.splits)

lemma md_run:
  assumes dec: "unmarshal_schema r el_zero = (s, None)"
    and asr: "elk_Service (el_Key s) = ''ASRaaS''" "\<not> IsFiltered (NewFilter fc) EventAsrCallSummary"
      "asrEventLogName (data_DataContentType (el_data s)) = n" "n \<noteq> []"
    and tr: "Transform s = Some s'" "survives s'" "session_of s' = Some sid"
    and h: "holds sid m c"
  shows "join_merge (m(n \<mapsto> s')) = None \<Longrightarrow>
      \<exists>c' w. md_RunWorker ops fc wr (c, p) r = Some ((c', send wr p (md_outputs fc s' None)), w) \<and>
        holds sid (m(n \<mapsto> s')) c'"
    and "join_merge (m(n \<mapsto> s')) = Some None \<Longrightarrow> md_RunWorker ops fc wr (c, p) r = None"
    and "join_merge (m(n \<mapsto> s')) = Some (Some g) \<Longrightarrow>
      \<exists>c' w. md_RunWorker ops fc wr (c, p) r = Some ((c', send wr p (md_outputs fc s' (Some g))), w) \<and>
        holds sid (\<lambda>_. None) c'"
proof -
  define w0 where "w0 = md_Filter (md_Validate (md_Start r (md_NewWorker fc)))"
  define w1 where "w1 = w0\<lparr>md_parent := (md_parent w0)\<lparr>w_Schema := s'\<rparr>\<rparr>"
  have same: "same_id s s'" using tr(1) by (rule same_id_Transform)
  have w0: "md_parent w0 = w_Filter (w_Validate (w_Start r (NewWorker fc)))" "md_joinedCallSummary w0 = None"
    "w_Schema (md_parent w0) = s" "w_filt (md_parent w0) = NewFilter fc"
    using dec by (auto simp: w0_def md_Filter_def md_Validate_def md_Start_def md_NewWorker_def worker_defs Let_def)
  have ign: "\<not> IsAsrSummaryIgnored (NewFilter fc)"
    using asr(2) by (simp add: IsAsrSummaryIgnored_NewFilter)
  have use0: "useAsrRecordCache (md_parent w0)"
    using w0 asr ign by (simp add: useAsrRecordCache_def parseAsrEventLogName_def w_content_type_def)
  have name: "parseAsrEventLogName (md_parent w1) = n"
    using asr(3) same by (simp add: w1_def parseAsrEventLogName_def w_content_type_def same_id_def)
  have use1: "useAsrRecordCache (md_parent w1)"
    using name asr(1,4) same w0(4) ign by (simp add: useAsrRecordCache_def w1_def same_id_def)
  have sid: "session_of (w_Schema (md_parent w1)) = Some sid" using tr(3) by (simp add: w1_def)
  define c1 where "c1 = co_set ops c (session_key sid n) (marshal_schema s') asr_ttl"
  have T: "md_Transform ops c w0 = Some (w1, c1)"
    using use0 use1 tr(1) w0(3) session_keys [OF sid, of n] name
    by (simp add: md_Transform_def cacheAsrRecord_def c1_def flip: w1_def) (simp add: w1_def)
  have h1: "holds sid (m(n \<mapsto> s')) c1" unfolding c1_def by (rule holds_set [OF h tr(2,3)])
  have run: "md_RunWorker ops fc wr (c, p) r = do { (w2, c2) \<leftarrow> md_Join ops c1 w1;
      Some ((c2, fst (md_Write wr p w2)), md_parent (snd (md_Write wr p w2))) }"
    using T by (simp add: md_RunWorker_def flip: w0_def)
  have par: "md_parent w1 = (w_Filter (w_Validate (w_Start r (NewWorker fc))))\<lparr>w_Schema := s'\<rparr>"
    "md_joinedCallSummary w1 = None" using w0 by (auto simp: w1_def)
  note out = md_Write_send [OF par(1) dec par(2) same]
  show "join_merge (m(n \<mapsto> s')) = None \<Longrightarrow>
      \<exists>c' w. md_RunWorker ops fc wr (c, p) r = Some ((c', send wr p (md_outputs fc s' None)), w) \<and>
        holds sid (m(n \<mapsto> s')) c'"
    using join_incomplete [OF h1 sid use1] out(1) by (auto simp: run)
  show "join_merge (m(n \<mapsto> s')) = Some None \<Longrightarrow> md_RunWorker ops fc wr (c, p) r = None"
    using join_complete(1) [OF h1 sid use1] by (simp add: run)
  show "join_merge (m(n \<mapsto> s')) = Some (Some g) \<Longrightarrow>
      \<exists>c' w. md_RunWorker ops fc wr (c, p) r = Some ((c', send wr p (md_outputs fc s' (Some g))), w) \<and>
        holds sid (\<lambda>_. None) c'"
    using join_complete(2) [OF h1 sid use1 _ refl] out(2) by (auto simp: run)
qed

end

section \<open>Records that survive the cache\<close>

lemma enc_string_inj [simp]: "enc_string a = enc_string b \<longleftrightarrow> a = b"
  by (auto simp: enc_string_def)

lemma schema_fget_eq:
  assumes "enc_struct el_fields s = enc_struct el_fields t"
  shows "f \<in> set el_fields \<Longrightarrow> fget f s = fget f t"
  using assms el.enc_fields_lookup by (metis enc_struct_def json.inject(5))

lemma same_id_of_enc:
  assumes eq: "enc_struct el_fields t = enc_struct el_fields s" and "session_of s = Some sid" "sid \<noteq> []"
  shows "same_id s t"
proof -
  have el: "fget f t = fget f s" if "f \<in> set el_fields" for f
    using schema_fget_eq [OF eq that] .
  have top: "el_Topic t = el_Topic s" using el [of "str_field ''topic'' el_Topic el_Topic_update"]
    by (simp add: el_fields_def field_defs)
  have "enc_struct elk_fields (el_Key t) = enc_struct elk_fields (el_Key s)"
    using el [of "struct_field ''key'' elk_fields el_Key el_Key_update"]
    by (simp add: el_fields_def field_defs)
  then have elk: "fget f (el_Key t) = fget f (el_Key s)" if "f \<in> set elk_fields" for f
    using elk.enc_fields_lookup [OF that] by (metis enc_struct_def json.inject(5))
  have "el_Key t = el_Key s"
    using elk [of "str_field ''service'' elk_Service elk_Service_update"]
      elk [of "str_field ''id'' elk_ID elk_ID_update"]
    by (simp add: elk_fields_def field_defs)
  moreover have "enc_struct elv_fields (el_Value t) = enc_struct elv_fields (el_Value s)"
    using el [of "struct_field ''value'' elv_fields el_Value el_Value_update"]
    by (simp add: el_fields_def field_defs)
  then have elv: "fget f (el_Value t) = fget f (el_Value s)" if "f \<in> set elv_fields" for f
    using elv.enc_fields_lookup [OF that] by (metis enc_struct_def json.inject(5))
  have "elv_Service (el_Value t) = elv_Service (el_Value s)"
    using elv [of "str_field ''service'' elv_Service elv_Service_update"]
    by (simp add: elv_fields_def field_defs)
  moreover have "enc_struct data_fields (el_data t) = enc_struct data_fields (el_data s)"
    using elv [of "struct_field ''data'' data_fields elv_Data elv_Data_update"]
    by (simp add: elv_fields_def field_defs)
  then have data: "fget f (el_data t) = fget f (el_data s)" if "f \<in> set data_fields" for f
    using data.enc_fields_lookup [OF that] by (metis enc_struct_def json.inject(5))
  have "data_DataContentType (el_data t) = data_DataContentType (el_data s)"
    using data [of "str_field ''dataContentType'' data_DataContentType data_DataContentType_update"]
    by (simp add: data_fields_def field_defs)
  moreover have "map_option asr_AsrSessionID (data_Asr (el_data t)) = map_option asr_AsrSessionID (data_Asr (el_data s))"
    using data [of "emb_field data_Asr data_Asr_update asr_zero (str_field ''asrSessionid'' asr_AsrSessionID asr_AsrSessionID_update)"]
      assms(2,3)
    by (auto simp: data_fields_def asr_fields_def emb_field_def str_field_def session_of_def enc_string_def
        split: option.splits if_splits)
  ultimately show ?thesis using top by (simp add: same_id_def)
qed

lemma marshal_unmarshal:
  assumes "schema_ok s" "json_ok (enc_struct el_fields s)"
  shows "enc_struct el_fields (copy s) = enc_struct el_fields s"
    and "snd (unmarshal_schema (marshal_schema s) el_zero) = None"
  using el.round_trip [OF assms(1), of el_zero] json_parse_json_str [OF assms(2)]
  by (auto simp: marshal_schema_def unmarshal_schema_def copy_def split: prod.splits)

lemma survives_ok:
  assumes "schema_ok s" "json_ok (enc_struct el_fields s)" "session_of s = Some sid" "sid \<noteq> []"
  shows "survives s"
  using marshal_unmarshal [OF assms(1,2)] same_id_of_enc [OF _ assms(3,4)] by (simp add: survives_def)

section \<open>The local cache as the store of the joiner\<close>

interpretation lj: asr_join local_ops local_view "local_inv t0 asr_ttl" "long_ttl asr_ttl" for t0
  by unfold_locales (simp add: long_ttl_def asr_ttl_def DefaultTTL_def)

abbreviation local_holds :: "int \<Rightarrow> string \<Rightarrow> session_store \<Rightarrow> ttl_cache \<Rightarrow> bool" where
  "local_holds t0 \<equiv> session_holds local_view (local_inv t0 asr_ttl)"

text \<open>One step of the abstract joiner: \<^term>\<open>None\<close> when merging the four records panics.\<close>

definition join_step ::
  "session_store \<Rightarrow> string \<Rightarrow> EventLogSchema \<Rightarrow> (session_store \<times> EventLogSchema option) option" where
  "join_step m n s =
     (case join_merge (m(n \<mapsto> s)) of
        None \<Rightarrow> Some (m(n \<mapsto> s), None)
      | Some None \<Rightarrow> None
      | Some (Some g) \<Rightarrow> Some (\<lambda>_. None, Some g))"

text \<open>A text that decodes to an ASR record of the session which takes part in joins, and that record
  after the transformation.\<close>

definition asr_record ::
  "FilterConfig \<Rightarrow> string \<Rightarrow> string \<Rightarrow> EventLogSchema \<Rightarrow> string \<Rightarrow> bool" where
  "asr_record fc sid r s' n =
     (let (s, err) = unmarshal_schema r el_zero
      in err = None \<and> elk_Service (el_Key s) = ''ASRaaS'' \<and>
         asrEventLogName (data_DataContentType (el_data s)) = n \<and> n \<noteq> [] \<and>
         Transform s = Some s' \<and> survives s' \<and> session_of s' = Some sid)"

lemma md_run_step:
  assumes "asr_record fc sid r s' n" "\<not> IsFiltered (NewFilter fc) EventAsrCallSummary"
    and "local_holds t0 sid m c"
  shows "case join_step m n s' of
      None \<Rightarrow> md_RunWorker local_ops fc wr (c, p) r = None
    | Some (m', g) \<Rightarrow>
        \<exists>c' w. md_RunWorker local_ops fc wr (c, p) r = Some ((c', send wr p (md_outputs fc s' g)), w) \<and>
          local_holds t0 sid m' c'"
proof -
  obtain s where s: "unmarshal_schema r el_zero = (s, None)" "elk_Service (el_Key s) = ''ASRaaS''"
    "asrEventLogName (data_DataContentType (el_data s)) = n" "n \<noteq> []"
    "Transform s = Some s'" "survives s'" "session_of s' = Some sid"
    using assms(1) by (auto simp: asr_record_def split: prod.splits)
  note run = lj.md_run [OF s(1,2) assms(2) s(3-7) assms(3), where wr = wr and p = p]
  show ?thesis
    using run(1,2) run(3) by (auto simp: join_step_def split: option.splits)
qed

section \<open>The order of the four records does not matter\<close>

fun md_runs ::
  "'c cache_ops \<Rightarrow> FilterConfig \<Rightarrow> 'p writer \<Rightarrow> 'c \<times> 'p \<Rightarrow> string list \<Rightarrow> ('c \<times> 'p) option" where
  "md_runs ops fc wr st [] = Some st"
| "md_runs ops fc wr st (r # rs) =
     do { (st', w) \<leftarrow> md_RunWorker ops fc wr st r; md_runs ops fc wr st' rs }"

definition store_of :: "(string \<times> EventLogSchema \<times> string) list \<Rightarrow> session_store" where
  "store_of rs = map_of (map (\<lambda>(r, s, n). (n, s)) rs)"

lemma send_append: "send wr p (xs @ ys) = send wr (send wr p xs) ys"
  by (simp add: send_def)

lemma join_merge_missing: "k \<in> set asr_keys \<Longrightarrow> m k = None \<Longrightarrow> join_merge m = None"
  by (auto simp: asr_keys_def join_merge_def split: option.splits)

lemma md_runs_partial:
  assumes "\<not> IsFiltered (NewFilter fc) EventAsrCallSummary"
    and "\<And>r s n. (r, s, n) \<in> set rs \<Longrightarrow> asr_record fc sid r s n"
    and "k \<in> set asr_keys" "m k = None" "\<And>r s n. (r, s, n) \<in> set rs \<Longrightarrow> n \<noteq> k"
    and "local_holds t0 sid m c"
  shows "\<exists>c'. md_runs local_ops fc wr (c, p) (map fst rs) =
       Some (c', send wr p (concat (map (\<lambda>(r, s, n). md_outputs fc s None) rs))) \<and>
     local_holds t0 sid (fold (\<lambda>(r, s, n) m. m(n \<mapsto> s)) rs m) c'"
  using assms(2,4,5,6)
proof (induction rs arbitrary: m c p)
  case Nil
  then show ?case by (simp add: send_def)
next
  case (Cons x rs)
  obtain r s n where x: "x = (r, s, n)" by (cases x)
  have n: "n \<noteq> k" and rec: "asr_record fc sid r s n"
    using Cons.prems(1) [of r s n] Cons.prems(3) [of r s n] x by simp_all
  have "join_step m n s = Some (m(n \<mapsto> s), None)"
    using join_merge_missing [OF assms(3), of "m(n \<mapsto> s)"] n Cons.prems(2) by (simp add: join_step_def)
  with md_run_step [OF rec assms(1) Cons.prems(4), of wr p]
  obtain c1 w where c1: "md_RunWorker local_ops fc wr (c, p) r = Some ((c1, send wr p (md_outputs fc s None)), w)"
    "local_holds t0 sid (m(n \<mapsto> s)) c1" by auto
  have "(m(n \<mapsto> s)) k = None" using n Cons.prems(2) by simp
  moreover have "asr_record fc sid r s n" "n \<noteq> k" if "(r, s, n) \<in> set rs" for r s n
    using Cons.prems(1) [of r s n] Cons.prems(3) [of r s n] that by simp_all
  ultimately have "\<exists>c'. md_runs local_ops fc wr (c1, send wr p (md_outputs fc s None)) (map fst rs) =
       Some (c', send wr (send wr p (md_outputs fc s None)) (concat (map (\<lambda>(r, s, n). md_outputs fc s None) rs))) \<and>
     local_holds t0 sid (fold (\<lambda>(r, s, n) m. m(n \<mapsto> s)) rs (m(n \<mapsto> s))) c'"
    using Cons.IH [OF _ _ _ c1(2)] by blast
  then show ?case using c1(1) x by (simp add: send_append del: fun_upd_apply)
qed

lemma fold_store:
  "distinct (map (\<lambda>(r, s, n). n) rs) \<Longrightarrow>
   fold (\<lambda>(r, s, n) m. m(n \<mapsto> s)) rs m = m ++ store_of rs"
proof (induction rs arbitrary: m)
  case (Cons x rs)
  obtain r s n where x: "x = (r, s, n)" by (cases x)
  have "store_of rs n = None"
    using Cons.prems x by (auto simp: store_of_def map_of_eq_None_iff image_iff)
  then show ?case using Cons x
    by (auto simp: store_of_def map_add_def fun_eq_iff split: option.splits)
qed (simp add: store_of_def)

lemma md_runs_append:
  "md_runs ops fc wr st (xs @ ys) = do { st' \<leftarrow> md_runs ops fc wr st xs; md_runs ops fc wr st' ys }"
  by (induction xs arbitrary: st) (auto split: Option.bind_splits)

lemma md_runs_complete:
  assumes fc: "\<not> IsFiltered (NewFilter fc) EventAsrCallSummary"
    and recs: "\<And>r s n. (r, s, n) \<in> set (rs @ [(r0, s0, n0)]) \<Longrightarrow> asr_record fc sid r s n"
    and names: "distinct (map (\<lambda>(r, s, n). n) (rs @ [(r0, s0, n0)]))"
    and g: "join_merge (store_of (rs @ [(r0, s0, n0)])) = Some (Some g)"
    and h: "local_holds t0 sid (\<lambda>_. None) c"
  shows "\<exists>c'. md_runs local_ops fc wr (c, p) (map fst rs @ [r0]) =
       Some (c', send wr p (concat (map (\<lambda>(r, s, n). md_outputs fc s None) rs) @ md_outputs fc s0 (Some g))) \<and>
     local_holds t0 sid (\<lambda>_. None) c'"
proof -
  have rec0: "asr_record fc sid r0 s0 n0" using recs by simp
  then have "n0 \<in> set asr_keys"
    using asrEventLogName_in_keys by (auto simp: asr_record_def split: prod.splits)
  moreover have "n \<noteq> n0" if "(r, s, n) \<in> set rs" for r s n using names that by (force simp: image_iff)
  ultimately obtain c1 where c1: "md_runs local_ops fc wr (c, p) (map fst rs) =
       Some (c1, send wr p (concat (map (\<lambda>(r, s, n). md_outputs fc s None) rs)))"
    "local_holds t0 sid (fold (\<lambda>(r, s, n) m. m(n \<mapsto> s)) rs (\<lambda>_. None)) c1"
    using md_runs_partial [OF fc, of rs sid n0 "\<lambda>_. None" t0 c wr p] recs h by auto
  have "store_of (rs @ [(r0, s0, n0)]) = (fold (\<lambda>(r, s, n) m. m(n \<mapsto> s)) rs (\<lambda>_. None))(n0 \<mapsto> s0)"
    using fold_store [OF names, of "\<lambda>_. None"] by (simp add: map_add_def fun_eq_iff split: option.splits)
  then have "join_step (fold (\<lambda>(r, s, n) m. m(n \<mapsto> s)) rs (\<lambda>_. None)) n0 s0 = Some (\<lambda>_. None, Some g)"
    using g by (simp add: join_step_def)
  with md_run_step [OF rec0 fc c1(2), of wr] show ?thesis
    using c1(1) by (fastforce simp: md_runs_append send_append)
qed

text \<open>C4. One run of the mix-default worker on an ASR record is one step of the abstract joiner of its
  session, as long as the run falls within an hour of the records cached for it: the record is
  added; if one of the four is still missing it is sent on alone and stays cached; if it is the
  last one, the merged call summary is sent (in the place of the record when that is the call
  summary itself, in front of it otherwise) and the cache forgets the session.\<close>

theorem md_run_refines_join:
  assumes "asr_record fc sid r s' n" "\<not> IsFiltered (NewFilter fc) EventAsrCallSummary"
    and "local_holds t0 sid m c"
  shows "case join_step m n s' of
      None \<Rightarrow> md_RunWorker local_ops fc wr (c, p) r = None
    | Some (m', g) \<Rightarrow>
        \<exists>c' w. md_RunWorker local_ops fc wr (c, p) r = Some ((c', send wr p (md_outputs fc s' g)), w) \<and>
          local_holds t0 sid m' c'"
  using assms by (rule md_run_step)

text \<open>C3. Whatever the order in which the four ASR records of a session arrive, the run on the last one
  sends the merged call summary, and only that run does; the three before it send their own
  record, and the cache ends without any record of the session.\<close>

theorem md_join_any_order:
  assumes "\<not> IsFiltered (NewFilter fc) EventAsrCallSummary"
    and "\<And>r s n. (r, s, n) \<in> set (rs @ [(r0, s0, n0)]) \<Longrightarrow> asr_record fc sid r s n"
    and "distinct (map (\<lambda>(r, s, n). n) (rs @ [(r0, s0, n0)]))"
    and "join_merge (store_of (rs @ [(r0, s0, n0)])) = Some (Some g)"
    and "local_holds t0 sid (\<lambda>_. None) c"
  shows "\<exists>c'. md_runs local_ops fc wr (c, p) (map fst rs @ [r0]) =
       Some (c', send wr p (concat (map (\<lambda>(r, s, n). md_outputs fc s None) rs) @ md_outputs fc s0 (Some g))) \<and>
     local_holds t0 sid (\<lambda>_. None) c'"
  using assms by (rule md_runs_complete)

end
