(* ===== verification/Mix_Bi.thy ===== *)
theory Mix_Bi
  imports Mix_Default
begin

text \<open>
  The mix-bi log processor (\<open>pkg/log_processors/mix_bi\<close>): the transformer reduces a record to a
  metric, the worker caches and joins ASR records before it transforms. The helpers of its worker
  are the same as those of mix-default (the two files repeat them); what differs is the order of
  the steps, the caching in \<open>Filter\<close>, and that the metric is what gets written.
\<close>

section \<open>Metrics\<close>

record bi_value =
  bv_ID :: string
  bv_Timestamp :: string

record Metric =
  m_Value :: bi_value
  m_Partition :: dec
  m_Offset :: dec
  m_ServiceType :: string
  m_Topic :: string
  m_ProcessingDurationMs :: int
  m_StatusCode :: int
  m_StatusMessage :: string
  m_StatusDetails :: string
  m_LanguageCode :: string
  m_ClientData :: "obj option"

text \<open>The common part is filled from behind three pointers, any of which may be nil.\<close>

definition NewMetric :: "EventLogSchema \<Rightarrow> Metric option" where
  "NewMetric s =
     do { pt \<leftarrow> data_ProcessingTime (el_data s);
          r \<leftarrow> data_Response (el_data s);
          st \<leftarrow> resp_Status r;
          Some \<lparr>m_Value = \<lparr>bv_ID = elk_ID (el_Key s), bv_Timestamp = pt_StartTime pt\<rparr>,
                m_Partition = el_Partition s, m_Offset = el_Offset s,
                m_ServiceType = elv_Service (el_Value s), m_Topic = el_Topic s,
                m_ProcessingDurationMs = dec_trunc (pt_DurationMs pt),
                m_StatusCode = st_Code st, m_StatusMessage = st_Message st,
                m_StatusDetails = st_Details st, m_LanguageCode = [], m_ClientData = None\<rparr> }"

record AsrMetric =
  am_Metric :: Metric
  am_LanguageTopic :: string
  am_AudioDurationMs :: "int list"
  am_AsrLatencyMs :: "int list"
  am_AvgPacketSize :: "int list"
  am_CompletionCause :: "string list"

datatype bi_metric =
    AsrM AsrMetric
  | TtsM Metric string
  | NluM Metric
  | DlgM Metric string

section \<open>Figures of the recognitions\<close>

text \<open>Each loop fills a slice of the length of \<open>Recognize\<close> that starts with zeroes.\<close>

definition bi_latency :: "json \<Rightarrow> int option" where
  "bi_latency e =
     do { m \<leftarrow> as_obj (Some e);
          stats \<leftarrow> as_obj (obj_get m ''audioPacketStats'');
          (case as_str (obj_get stats ''lastPacketTime'') of
             None \<Rightarrow> Some 0
           | Some t \<Rightarrow> do { absEndTime \<leftarrow> as_num (obj_get m ''absEndTime'');
                            Some (wrap64 (dec_trunc absEndTime - unix_milli (time_parse t))) }) }"

definition bi_avg :: "json \<Rightarrow> int option" where
  "bi_avg e =
     do { m \<leftarrow> as_obj (Some e);
          stats \<leftarrow> as_obj (obj_get m ''audioPacketStats'');
          (case as_num (obj_get stats ''packetsReceived'') of
             None \<Rightarrow> Some 0
           | Some p \<Rightarrow>
               if dec_positive p
               then do { b \<leftarrow> as_num (obj_get stats ''bytesReceived'');
                         if dec_trunc p = 0 then None else Some (tdiv (dec_trunc b) (dec_trunc p)) }
               else Some 0) }"

definition bi_duration :: "json \<Rightarrow> int option" where
  "bi_duration e =
     do { m \<leftarrow> as_obj (Some e);
          stats \<leftarrow> as_obj (obj_get m ''audioPacketStats'');
          Some (case as_num (obj_get stats ''audioDurationMs'') of None \<Rightarrow> 0 | Some d \<Rightarrow> dec_trunc d) }"

text \<open>The first utterance is indexed without a look at the length.\<close>

definition bi_cause :: "json \<Rightarrow> string option" where
  "bi_cause e =
     do { m \<leftarrow> as_obj (Some e);
          us \<leftarrow> as_arr (obj_get m ''utterances'');
          u \<leftarrow> (case us of [] \<Rightarrow> None | u # _ \<Rightarrow> as_obj (Some u));
          (case obj_get u ''completionCause'' of None \<Rightarrow> Some [] | Some c \<Rightarrow> as_str (Some c)) }"

definition bi_recognize :: "EventLogSchema \<Rightarrow> json list option" where
  "bi_recognize s = map_option (\<lambda>cs. the_arr (cs_Recognize cs)) (el_CallSummary s)"

definition bi_calcAsrLatency :: "EventLogSchema \<Rightarrow> int list option" where
  "bi_calcAsrLatency s = do { es \<leftarrow> bi_recognize s; mapM bi_latency es }"

definition bi_calcAvgPacketSize :: "EventLogSchema \<Rightarrow> int list option" where
  "bi_calcAvgPacketSize s = do { es \<leftarrow> bi_recognize s; mapM bi_avg es }"

definition bi_calcAudioDuration :: "EventLogSchema \<Rightarrow> int list option" where
  "bi_calcAudioDuration s = do { es \<leftarrow> bi_recognize s; mapM bi_duration es }"

definition bi_calcCompletionCause :: "EventLogSchema \<Rightarrow> string list option" where
  "bi_calcCompletionCause s = do { es \<leftarrow> bi_recognize s; mapM bi_cause es }"

section \<open>Transformer\<close>

definition isCallSummaryMerged :: "EventLogSchema \<Rightarrow> bool" where
  "isCallSummaryMerged s =
     (case data_Response (el_data s) of
        None \<Rightarrow> False
      | Some r \<Rightarrow>
          if resp_Status r = None then False
          else (case data_Request (el_data s) of
                  None \<Rightarrow> False
                | Some q \<Rightarrow> req_RecognitionInitMessage q \<noteq> None))"

text \<open>For a dialog run-time request the first event must be there and be an object that names it.\<close>

definition isTargetDlgEventType :: "EventLogSchema \<Rightarrow> bool option" where
  "isTargetDlgEventType s =
     (let t = elv_Type (el_Value s)
      in if t \<in> {''Start'', ''Status'', ''Update'', ''Execute'', ''ExecuteStream'', ''Stop''}
         then do { d \<leftarrow> data_Dlg (el_data s);
                   e \<leftarrow> (case the_arr (dlg_Events d) of [] \<Rightarrow> None | e # _ \<Rightarrow> as_obj (Some e));
                   name \<leftarrow> as_str (obj_get e ''event'');
                   Some (str_contains name (''DLGaaS-'' @ t @ ''-End'')) }
         else Some False)"

text \<open>Indexing a nil map is a miss, not a panic.\<close>

definition in_map :: "obj option \<Rightarrow> string \<Rightarrow> json option" where
  "in_map m k = (case m of None \<Rightarrow> None | Some kvs \<Rightarrow> obj_get kvs k)"

definition newAsrMetric :: "EventLogSchema \<Rightarrow> AsrMetric option" where
  "newAsrMetric s =
     do { base \<leftarrow> NewMetric s;
          q \<leftarrow> data_Request (el_data s);
          params \<leftarrow> as_obj (in_map (req_RecognitionInitMessage q) ''parameters'');
          topic \<leftarrow> as_str (obj_get params ''topic'');
          lat \<leftarrow> bi_calcAsrLatency s;
          avg \<leftarrow> bi_calcAvgPacketSize s;
          dur \<leftarrow> bi_calcAudioDuration s;
          cause \<leftarrow> bi_calcCompletionCause s;
          lang \<leftarrow> as_str (obj_get params ''language'');
          cs \<leftarrow> el_CallSummary s;
          Some \<lparr>am_Metric = base\<lparr>m_LanguageCode := lang, m_ClientData := cs_ClientData cs\<rparr>,
                am_LanguageTopic = topic, am_AudioDurationMs = dur, am_AsrLatencyMs = lat,
                am_AvgPacketSize = avg, am_CompletionCause = cause\<rparr> }"

definition newTtsMetric :: "EventLogSchema \<Rightarrow> bi_metric option" where
  "newTtsMetric s =
     do { base \<leftarrow> NewMetric s;
          r \<leftarrow> data_Response (el_data s);
          e \<leftarrow> (case the_arr (resp_Events r) of [] \<Rightarrow> None | e # _ \<Rightarrow> as_obj (Some e));
          voice \<leftarrow> as_str (obj_get e ''VOIC'');
          q \<leftarrow> data_Request (el_data s);
          Some (TtsM (base\<lparr>m_ClientData := req_ClientData q, m_LanguageCode := data_Locale (el_data s)\<rparr>) voice) }"

definition newNluMetric :: "EventLogSchema \<Rightarrow> bi_metric option" where
  "newNluMetric s =
     do { base \<leftarrow> NewMetric s;
          q \<leftarrow> data_Request (el_data s);
          Some (NluM (base\<lparr>m_ClientData := req_ClientData q, m_LanguageCode := data_Locale (el_data s)\<rparr>)) }"

definition newDlgMetric :: "EventLogSchema \<Rightarrow> bi_metric option" where
  "newDlgMetric s =
     do { base \<leftarrow> NewMetric s;
          q \<leftarrow> data_Request (el_data s);
          lang \<leftarrow> as_str (in_map (req_Selector q) ''language'');
          Some (DlgM (base\<lparr>m_LanguageCode := lang\<rparr>) (elv_Type (el_Value s))) }"

text \<open>\<^term>\<open>None\<close> is a panic; \<^term>\<open>Some None\<close> is the error \<open>invalid record type\<close>.\<close>

definition bi_TransformRecord :: "EventLogSchema \<Rightarrow> bi_metric option option" where
  "bi_TransformRecord s =
     (let service = elv_Service (el_Value s)
      in do { dlg \<leftarrow> (if service = ''DLGaaS'' then isTargetDlgEventType s else Some False);
              (if dlg then map_option Some (newDlgMetric s)
               else if service = ''NLUaaS'' then map_option Some (newNluMetric s)
               else if service = ''TTSaaS'' then map_option Some (newTtsMetric s)
               else if service = ''ASRaaS'' \<and> isCallSummary s \<and> isCallSummaryMerged s
               then map_option (\<lambda>a. Some (AsrM a)) (newAsrMetric s)
               else Some None) })"

section \<open>The text of a metric\<close>

text \<open>The embedded \<open>Metric\<close> comes first; the slices of numbers and strings are left out when empty.\<close>

definition bi_value_fields :: "bi_value fields" where
  "bi_value_fields =
     [str_field ''id'' bv_ID bv_ID_update, str_field ''timestamp'' bv_Timestamp bv_Timestamp_update]"

definition Metric_fields :: "Metric fields" where
  "Metric_fields =
     [struct_field ''value'' bi_value_fields m_Value m_Value_update,
      float_field ''partition'' m_Partition m_Partition_update,
      float_field ''offset'' m_Offset m_Offset_update,
      str_field ''service_type'' m_ServiceType m_ServiceType_update,
      str_field ''topic'' m_Topic m_Topic_update,
      int_field ''processing_duration_ms'' m_ProcessingDurationMs m_ProcessingDurationMs_update,
      int_field ''status_code'' m_StatusCode m_StatusCode_update,
      str_field ''status_message'' m_StatusMessage m_StatusMessage_update,
      str_field ''status_details'' m_StatusDetails m_StatusDetails_update,
      str_field ''language_code'' m_LanguageCode m_LanguageCode_update,
      map_field ''client_data'' m_ClientData m_ClientData_update]"

definition opt_member :: "string \<Rightarrow> json option \<Rightarrow> obj" where
  "opt_member k v = (case v of None \<Rightarrow> [] | Some x \<Rightarrow> [(k, x)])"

definition int_arr :: "int list \<Rightarrow> json option" where
  "int_arr xs = enc_slice (Some (map (\<lambda>i. JNum (dec_of_int i)) xs))"

definition str_arr :: "string list \<Rightarrow> json option" where
  "str_arr xs = enc_slice (Some (map JStr xs))"

fun metric_json :: "bi_metric \<Rightarrow> json" where
  "metric_json (AsrM a) = JObj (enc_fields Metric_fields (am_Metric a) @
     opt_member ''language_topic'' (enc_string (am_LanguageTopic a)) @
     opt_member ''audio_duration_ms'' (int_arr (am_AudioDurationMs a)) @
     opt_member ''asr_latency_ms'' (int_arr (am_AsrLatencyMs a)) @
     opt_member ''avg_packet_size'' (int_arr (am_AvgPacketSize a)) @
     opt_member ''completion_cause'' (str_arr (am_CompletionCause a)))"
| "metric_json (TtsM b voice) = JObj (enc_fields Metric_fields b @ opt_member ''voice'' (enc_string voice))"
| "metric_json (NluM b) = JObj (enc_fields Metric_fields b)"
| "metric_json (DlgM b rpc) = JObj (enc_fields Metric_fields b @ opt_member ''dialog_rpc'' (enc_string rpc))"

text \<open>A transformer that has produced no metric prints as \<open>null\<close>.\<close>

definition marshal_metric :: "bi_metric option \<Rightarrow> string" where
  "marshal_metric x = (case x of None \<Rightarrow> ''null'' | Some b \<Rightarrow> json_str (metric_json b))"

section \<open>Worker\<close>

record bi_worker =
  bi_md :: md_worker
  bi_metric :: "bi_metric option"

abbreviation bi_parent :: "bi_worker \<Rightarrow> worker" where
  "bi_parent w \<equiv> md_parent (bi_md w)"

definition bi_upd_parent :: "(worker \<Rightarrow> worker) \<Rightarrow> bi_worker \<Rightarrow> bi_worker" where
  "bi_upd_parent f w = w\<lparr>bi_md := (bi_md w)\<lparr>md_parent := f (md_parent (bi_md w))\<rparr>\<rparr>"

text \<open>The cache and join functions of this package repeat those of mix-default word for word.\<close>

abbreviation bi_useAsrRecordCache :: "worker \<Rightarrow> bool" where
  "bi_useAsrRecordCache \<equiv> useAsrRecordCache"

abbreviation bi_parseAsrEventLogName :: "worker \<Rightarrow> string" where
  "bi_parseAsrEventLogName \<equiv> parseAsrEventLogName"

abbreviation bi_createCacheKey :: "worker \<Rightarrow> string \<Rightarrow> string option" where
  "bi_createCacheKey \<equiv> createCacheKey"

abbreviation bi_cacheAsrRecord :: "'c cache_ops \<Rightarrow> 'c \<Rightarrow> worker \<Rightarrow> 'c option" where
  "bi_cacheAsrRecord \<equiv> cacheAsrRecord"

abbreviation bi_allAsrRecordsAvailableForJoin :: "'c cache_ops \<Rightarrow> worker \<Rightarrow> 'c \<Rightarrow> (bool \<times> 'c) option" where
  "bi_allAsrRecordsAvailableForJoin \<equiv> allAsrRecordsAvailableForJoin"

abbreviation bi_shouldJoin :: "'c cache_ops \<Rightarrow> worker \<Rightarrow> 'c \<Rightarrow> (bool \<times> 'c) option" where
  "bi_shouldJoin \<equiv> shouldJoin"

abbreviation bi_deleteKeysFromCache :: "'c cache_ops \<Rightarrow> worker \<Rightarrow> 'c \<Rightarrow> 'c option" where
  "bi_deleteKeysFromCache \<equiv> deleteKeysFromCache"

abbreviation bi_getAsrEventLogsFromCache ::
  "'c cache_ops \<Rightarrow> worker \<Rightarrow> 'c \<Rightarrow>
   ((EventLogSchema \<times> EventLogSchema \<times> EventLogSchema \<times> EventLogSchema) option \<times> 'c) option" where
  "bi_getAsrEventLogsFromCache \<equiv> getAsrEventLogsFromCache"

abbreviation bi_mergeIntoAsrCallSummary ::
  "md_worker \<Rightarrow> EventLogSchema \<Rightarrow> EventLogSchema \<Rightarrow> EventLogSchema \<Rightarrow> EventLogSchema \<Rightarrow> md_worker option" where
  "bi_mergeIntoAsrCallSummary \<equiv> mergeIntoAsrCallSummary"

abbreviation bi_joinAsrRecords :: "'c cache_ops \<Rightarrow> md_worker \<Rightarrow> 'c \<Rightarrow> (md_worker \<times> 'c) option" where
  "bi_joinAsrRecords \<equiv> joinAsrRecords"

definition bi_NewWorker :: "FilterConfig \<Rightarrow> bi_worker" where
  "bi_NewWorker fc = \<lparr>bi_md = md_NewWorker fc, bi_metric = None\<rparr>"

definition bi_Start :: "string \<Rightarrow> bi_worker \<Rightarrow> bi_worker" where
  "bi_Start r = bi_upd_parent (w_Start r)"

definition bi_Validate :: "bi_worker \<Rightarrow> bi_worker" where
  "bi_Validate = bi_upd_parent w_Validate"

definition bi_Filter :: "'c cache_ops \<Rightarrow> 'c \<Rightarrow> bi_worker \<Rightarrow> (bi_worker \<times> 'c) option" where
  "bi_Filter ops c w =
     (let w' = bi_upd_parent w_Filter w
      in if bi_useAsrRecordCache (bi_parent w')
         then do { c' \<leftarrow> bi_cacheAsrRecord ops c (bi_parent w'); Some (w', c') }
         else Some (w', c))"

definition bi_Join :: "'c cache_ops \<Rightarrow> 'c \<Rightarrow> bi_worker \<Rightarrow> (bi_worker \<times> 'c) option" where
  "bi_Join ops c w = do { (w', c') \<leftarrow> md_Join ops c (bi_md w); Some (w\<lparr>bi_md := w'\<rparr>, c') }"

definition err_not_joined :: string where
  "err_not_joined = ''call summary has not been joined yet''"

definition err_invalid_type :: string where
  "err_invalid_type = ''invalid record type''"

text \<open>The result of the transformer, applied to the joined call summary when there is one, refused for
  an ASR record that takes part in joins otherwise.\<close>

definition bi_transform_result :: "bi_worker \<Rightarrow> (bi_metric option \<times> string option) option" where
  "bi_transform_result w =
     (let run = (\<lambda>s. do { r \<leftarrow> bi_TransformRecord s;
                          Some (case r of None \<Rightarrow> (bi_metric w, Some err_invalid_type)
                                        | Some m \<Rightarrow> (Some m, None)) })
      in case md_joinedCallSummary (bi_md w) of
           Some s \<Rightarrow> run s
         | None \<Rightarrow> if bi_useAsrRecordCache (bi_parent w) then Some (bi_metric w, Some err_not_joined)
                    else run (w_Schema (bi_parent w)))"

definition bi_Transform :: "bi_worker \<Rightarrow> bi_worker option" where
  "bi_Transform w =
     (if w_Failed (bi_parent w) \<and> \<not> bi_useAsrRecordCache (bi_parent w) then Some w
      else do { (mt, err) \<leftarrow> bi_transform_result w;
                (let w' = w\<lparr>bi_metric := mt\<rparr>
                 in Some (case err of
                            None \<Rightarrow> w'
                          | Some e \<Rightarrow> bi_upd_parent (\<lambda>p. p\<lparr>w_Err := Some (TransformErr e), w_Failed := True\<rparr>) w')) })"

definition bi_Write :: "'p writer \<Rightarrow> 'p \<Rightarrow> bi_worker \<Rightarrow> 'p \<times> bi_worker" where
  "bi_Write wr p w =
     (if w_Failed (bi_parent w) then (p, w)
      else (let (p', err) = wr p (marshal_metric (bi_metric w))
            in (p', bi_upd_parent (\<lambda>q. case err of
                     None \<Rightarrow> q\<lparr>w_Written := True\<rparr>
                   | Some e \<Rightarrow> q\<lparr>w_Err := Some (WriteErr e), w_Failed := True\<rparr>) w)))"

text \<open>\<open>Join\<close> comes before \<open>Transform\<close>, the opposite of mix-default.\<close>

definition bi_RunWorker ::
  "'c cache_ops \<Rightarrow> FilterConfig \<Rightarrow> 'p writer \<Rightarrow> 'c \<times> 'p \<Rightarrow> string \<Rightarrow> (('c \<times> 'p) \<times> worker) option" where
  "bi_RunWorker ops fc wr st r =
     do { (w1, c1) \<leftarrow> bi_Filter ops (fst st) (bi_Validate (bi_Start r (bi_NewWorker fc)));
          (w2, c2) \<leftarrow> bi_Join ops c1 w1;
          w3 \<leftarrow> bi_Transform w2;
          Some ((c2, fst (bi_Write wr (snd st) w3)), bi_parent (snd (bi_Write wr (snd st) w3))) }"

section \<open>Flags\<close>

lemma bi_parent_upd [simp]: "bi_parent (bi_upd_parent f w) = f (bi_parent w)"
  "md_joinedCallSummary (bi_md (bi_upd_parent f w)) = md_joinedCallSummary (bi_md w)"
  "bi_metric (bi_upd_parent f w) = bi_metric w"
  by (simp_all add: bi_upd_parent_def)

lemma bi_Transform_flags:
  "bi_Transform w = Some w' \<Longrightarrow> flags_ok (bi_parent w) \<Longrightarrow> \<not> w_Written (bi_parent w) \<Longrightarrow>
     flags_ok (bi_parent w') \<and> \<not> w_Written (bi_parent w')"
  by (auto simp: bi_Transform_def flags_ok_def Let_def split: if_splits option.splits)

lemma bi_Write_flags:
  "flags_ok (bi_parent w) \<Longrightarrow> \<not> w_Written (bi_parent w) \<Longrightarrow> flags_ok (bi_parent (snd (bi_Write wr p w)))"
  by (auto simp: bi_Write_def flags_ok_def Let_def split: prod.splits option.splits)

interpretation bi_run: run_contract "bi_RunWorker ops fc wr" for ops fc wr
proof unfold_locales
  fix st r p' w assume "bi_RunWorker ops fc wr st r = Some (p', w)"
  then obtain w1 c1 w2 c2 w3 where w1: "bi_Filter ops (fst st) (bi_Validate (bi_Start r (bi_NewWorker fc))) = Some (w1, c1)"
    and w2: "bi_Join ops c1 w1 = Some (w2, c2)" and w3: "bi_Transform w2 = Some w3"
    and w: "w = bi_parent (snd (bi_Write wr (snd st) w3))"
    by (auto simp: bi_RunWorker_def)
  have "bi_parent w1 = w_Filter (w_Validate (w_Start r (NewWorker fc)))"
    using w1 by (auto simp: bi_Filter_def bi_Validate_def bi_Start_def bi_NewWorker_def md_NewWorker_def Let_def split: if_splits)
  moreover obtain s where "bi_parent w2 = (bi_parent w1)\<lparr>w_Schema := s\<rparr>"
    using w2 md_Join_flags by (fastforce simp: bi_Join_def)
  ultimately have "flags_ok (bi_parent w2)" "\<not> w_Written (bi_parent w2)" by (simp_all add: flags_intros)
  from bi_Transform_flags [OF w3 this] show "flags_ok w" by (simp add: w bi_Write_flags)
qed

section \<open>Joining\<close>

text \<open>A text that decodes to an ASR record of the session that takes part in joins.\<close>

definition bi_record :: "FilterConfig \<Rightarrow> string \<Rightarrow> string \<Rightarrow> EventLogSchema \<Rightarrow> string \<Rightarrow> bool" where
  "bi_record fc sid r s n =
     (unmarshal_schema r el_zero = (s, None) \<and> elk_Service (el_Key s) = ''ASRaaS'' \<and>
      asrEventLogName (data_DataContentType (el_data s)) = n \<and> n \<noteq> [] \<and>
      survives s \<and> session_of s = Some sid)"

lemma bi_run_join:
  assumes rec: "bi_record fc sid r s n" and fc: "\<not> IsFiltered (NewFilter fc) EventAsrCallSummary"
    and h: "local_holds t0 sid m c" and g: "join_merge (m(n \<mapsto> s)) = Some (Some g)"
  defines "w0 \<equiv> bi_upd_parent w_Filter (bi_Validate (bi_Start r (bi_NewWorker fc)))"
  shows "\<exists>c'. bi_RunWorker local_ops fc wr (c, p) r =
      do { w3 \<leftarrow> bi_Transform (w0\<lparr>bi_md := joined_worker (bi_md w0) g\<rparr>);
           Some ((c', fst (bi_Write wr p w3)), bi_parent (snd (bi_Write wr p w3))) } \<and>
    local_holds t0 sid (\<lambda>_. None) c'"
proof -
  have s: "unmarshal_schema r el_zero = (s, None)" "elk_Service (el_Key s) = ''ASRaaS''"
    "asrEventLogName (data_DataContentType (el_data s)) = n" "n \<noteq> []" "survives s" "session_of s = Some sid"
    using rec by (simp_all add: bi_record_def)
  have par: "w_Schema (bi_parent w0) = s" "w_filt (bi_parent w0) = NewFilter fc"
    using s(1) by (auto simp: w0_def bi_Validate_def bi_Start_def bi_NewWorker_def md_NewWorker_def worker_defs Let_def)
  have name: "parseAsrEventLogName (bi_parent w0) = n"
    using par s(3) by (simp add: parseAsrEventLogName_def w_content_type_def)
  have use: "useAsrRecordCache (bi_parent w0)"
    using par s name fc by (simp add: useAsrRecordCache_def IsAsrSummaryIgnored_NewFilter)
  have sid: "session_of (w_Schema (md_parent (bi_md w0))) = Some sid" using par s by simp
  define c1 where "c1 = co_set local_ops c (session_key sid n) (marshal_schema s) asr_ttl"
  have F: "bi_Filter local_ops c (bi_Validate (bi_Start r (bi_NewWorker fc))) = Some (w0, c1)"
    using use name par lj.session_keys [OF sid, of n]
    by (simp add: bi_Filter_def cacheAsrRecord_def c1_def flip: w0_def)
  have "local_holds t0 sid (m(n \<mapsto> s)) c1"
    unfolding c1_def by (rule lj.holds_set [OF h s(5,6)])
  from lj.join_complete(2) [OF this sid use g refl] obtain c' where
    "md_Join local_ops c1 (bi_md w0) = Some (joined_worker (bi_md w0) g, c')" "local_holds t0 sid (\<lambda>_. None) c'"
    by auto
  then show ?thesis using F by (auto simp: bi_RunWorker_def bi_Join_def)
qed

text \<open>C13. When the call summary is the last of the four ASR records to arrive, mix-bi loses the metric of
  the session: the join succeeds and empties the cache, but the merged summary replaces the
  worker's own record instead of being kept aside, so \<open>Transform\<close> refuses it as not joined yet,
  nothing is sent to the pipeline and the run fails.\<close>

theorem bi_call_summary_last_is_lost:
  assumes "bi_record fc sid r s KeyCallSummary" "\<not> IsFiltered (NewFilter fc) EventAsrCallSummary"
    and "local_holds t0 sid m c" "join_merge (m(KeyCallSummary \<mapsto> s)) = Some (Some g)"
  shows "\<exists>c' w. bi_RunWorker local_ops fc wr (c, p) r = Some ((c', p), w) \<and>
    w_Failed w \<and> \<not> w_Written w \<and> w_Err w = Some (TransformErr err_not_joined) \<and>
    local_holds t0 sid (\<lambda>_. None) c'"
proof -
  define w0 where "w0 = bi_upd_parent w_Filter (bi_Validate (bi_Start r (bi_NewWorker fc)))"
  have s: "unmarshal_schema r el_zero = (s, None)" "elk_Service (el_Key s) = ''ASRaaS''" "survives s"
    "asrEventLogName (data_DataContentType (el_data s)) = KeyCallSummary"
    using assms(1) by (simp_all add: bi_record_def)
  have par: "w_Schema (bi_parent w0) = s" "w_filt (bi_parent w0) = NewFilter fc"
     "md_joinedCallSummary (bi_md w0) = None" "\<not> w_Written (bi_parent w0)"
    using s(1) by (auto simp: w0_def bi_Validate_def bi_Start_def bi_NewWorker_def md_NewWorker_def worker_defs Let_def)
  obtain ri fr fs where mg: "mergeAsr ri fr fs (copy s) = Some g"
    using assms(4) by (auto simp: join_merge_def split: option.splits)
  have ct: "data_DataContentType (el_data g) = data_DataContentType (el_data s)"
    using session_of_merge(2) [OF mg] s(3) by (simp add: survives_def same_id_def)
  have key: "el_Key g = el_Key s" using mg s(3) by (auto simp: mergeAsr_def survives_def same_id_def Let_def)
  define w2 where "w2 = w0\<lparr>bi_md := joined_worker (bi_md w0) g\<rparr>"
  have w2: "bi_parent w2 = (bi_parent w0)\<lparr>w_Schema := g\<rparr>" "md_joinedCallSummary (bi_md w2) = None"
    using ct par by (simp_all add: w2_def joined_worker_def w_content_type_def)
  have use: "useAsrRecordCache (bi_parent w2)"
    using w2 par key ct s assms(2)
    by (simp add: useAsrRecordCache_def parseAsrEventLogName_def w_content_type_def IsAsrSummaryIgnored_NewFilter Key_defs)
  obtain w3 where w3: "bi_Transform w2 = Some w3" "w_Failed (bi_parent w3)" "\<not> w_Written (bi_parent w3)"
      "w_Err (bi_parent w3) = Some (TransformErr err_not_joined)"
    using use w2 par by (simp add: bi_Transform_def bi_transform_result_def)
  have "bi_Write wr p w3 = (p, w3)" using w3(2) by (simp add: bi_Write_def)
  then show ?thesis
    using bi_run_join [OF assms, where wr = wr and p = p] w3
    unfolding w0_def [symmetric] w2_def [symmetric] by auto
qed

text \<open>C12. When another record is the last to arrive, and the merged call summary is complete, mix-bi sends
  exactly the metric computed from it.\<close>

theorem bi_metric_of_joined:
  assumes "bi_record fc sid r s n" "\<not> IsFiltered (NewFilter fc) EventAsrCallSummary"
    and "local_holds t0 sid m c" "join_merge (m(n \<mapsto> s)) = Some (Some g)"
    and "data_DataContentType (el_data g) \<noteq> data_DataContentType (el_data s)"
    and "\<not> IsFiltered (NewFilter fc) (data_DataContentType (el_data s))"
    and "bi_TransformRecord g = Some (Some mt)"
  shows "\<exists>c' w. bi_RunWorker local_ops fc wr (c, p) r = Some ((c', fst (wr p (marshal_metric (Some mt)))), w) \<and>
    w_Written w = (snd (wr p (marshal_metric (Some mt))) = None) \<and> local_holds t0 sid (\<lambda>_. None) c'"
proof -
  define w0 where "w0 = bi_upd_parent w_Filter (bi_Validate (bi_Start r (bi_NewWorker fc)))"
  have s: "unmarshal_schema r el_zero = (s, None)" using assms(1) by (simp add: bi_record_def)
  have par: "w_Schema (bi_parent w0) = s" "\<not> w_Written (bi_parent w0)" "\<not> w_Failed (bi_parent w0)"
    using s assms(6) by (auto simp: w0_def bi_Validate_def bi_Start_def bi_NewWorker_def md_NewWorker_def worker_defs Let_def)
  define w2 where "w2 = w0\<lparr>bi_md := joined_worker (bi_md w0) g\<rparr>"
  have w2: "bi_parent w2 = bi_parent w0" "md_joinedCallSummary (bi_md w2) = Some g"
    using assms(5) par by (auto simp: w2_def joined_worker_def w_content_type_def)
  have "bi_Transform w2 = Some (w2\<lparr>bi_metric := Some mt\<rparr>)"
    using w2 par assms(7) by (simp add: bi_Transform_def bi_transform_result_def)
  moreover have "fst (bi_Write wr p (w2\<lparr>bi_metric := Some mt\<rparr>)) = fst (wr p (marshal_metric (Some mt)))"
    "w_Written (bi_parent (snd (bi_Write wr p (w2\<lparr>bi_metric := Some mt\<rparr>)))) = (snd (wr p (marshal_metric (Some mt))) = None)"
    using w2 par by (auto simp: bi_Write_def Let_def split: prod.splits option.splits)
  ultimately show ?thesis
    using bi_run_join [OF assms(1-4), where wr = wr and p = p]
    unfolding w0_def [symmetric] w2_def [symmetric] by auto
qed

end
