(* ===== verification/Mix_Examples.thy ===== *)
theory Mix_Examples
  imports Mix_Bi
begin

text \<open>
  A concrete session of four ASR records, as texts and as the schemas they decode to, run through
  the mix-default and the mix-bi worker: the general theorems of the two processors apply to it.
\<close>

section \<open>A session of four records\<close>

definition ex_text :: "string \<Rightarrow> string" where
  "ex_text rest = ''{\"key\":{\"service\":\"ASRaaS\"},\"value\":{\"service\":\"ASRaaS\",\"data\":{\"asrSessionid\":\"s\",\"dataContentType\":'' @ rest @ ''}}}''"

definition ex_schema ::
  "string \<Rightarrow> AsrCallSummaryPayload option \<Rightarrow> RequestPayload option \<Rightarrow> ResponsePayload option \<Rightarrow> EventLogSchema" where
  "ex_schema ct cs req resp =
     el_zero\<lparr>el_Key := elk_zero\<lparr>elk_Service := ''ASRaaS''\<rparr>,
       el_Value := elv_zero\<lparr>elv_Service := ''ASRaaS'',
         elv_Data := data_zero\<lparr>data_Asr := Some (asr_zero\<lparr>asr_AsrSessionID := ''s'', asr_CallSummary := cs\<rparr>),
           data_DataContentType := ct, data_Request := req, data_Response := resp\<rparr>\<rparr>\<rparr>"

definition ex_fc :: FilterConfig where
  "ex_fc = \<lparr>fc_Type = ''blacklist'', fc_ContentType = []\<rparr>"

definition ex_ri :: string where "ex_ri = ex_text ''\"recognitioninitmessage\",\"request\":{\"userId\":\"u\"}''"
definition ex_cs :: string where "ex_cs = ex_text ''\"callsummary\",\"callsummary\":{}''"
definition ex_fs :: string where "ex_fs = ex_text ''\"finalstatusresponse\",\"response\":{}''"
definition ex_fr :: string where "ex_fr = ex_text ''\"finalresultresponse\"''"

lemma ex_ri_dec: "unmarshal_schema ex_ri el_zero =
    (ex_schema ''recognitioninitmessage'' None (Some (req_zero\<lparr>req_UserID := ''u''\<rparr>)) None, None)" by code_simp
lemma ex_cs_dec: "unmarshal_schema ex_cs el_zero = (ex_schema ''callsummary'' (Some cs_zero) None None, None)" by code_simp
lemma ex_fs_dec: "unmarshal_schema ex_fs el_zero = (ex_schema ''finalstatusresponse'' None None (Some resp_zero), None)" by code_simp
lemma ex_fr_dec: "unmarshal_schema ex_fr el_zero = (ex_schema ''finalresultresponse'' None None None, None)" by code_simp


definition ex_ri_out :: EventLogSchema where
  "ex_ri_out = ex_schema ''recognitioninitmessage'' None (Some (req_zero\<lparr>req_UserID := ''u''\<rparr>)) None"
definition ex_cs_out :: EventLogSchema where
  "ex_cs_out = ex_schema ''callsummary'' (Some cs_zero) (Some req_zero) None"
definition ex_fs_out :: EventLogSchema where
  "ex_fs_out = ex_schema ''finalstatusresponse'' None None (Some resp_zero)"
definition ex_fr_out :: EventLogSchema where
  "ex_fr_out = ex_schema ''finalresultresponse'' None None None"

lemma ex_survives: "survives ex_ri_out" "survives ex_cs_out" "survives ex_fs_out" "survives ex_fr_out"
  by (rule survives_ok [where sid = "''s''"]; code_simp)+

lemma ex_Transform:
  "Transform (ex_schema ''recognitioninitmessage'' None (Some (req_zero\<lparr>req_UserID := ''u''\<rparr>)) None) = Some ex_ri_out"
  "Transform (ex_schema ''callsummary'' (Some cs_zero) None None) = Some ex_cs_out"
  "Transform (ex_schema ''finalstatusresponse'' None None (Some resp_zero)) = Some ex_fs_out"
  "Transform (ex_schema ''finalresultresponse'' None None None) = Some ex_fr_out"
  by code_simp+

lemma ex_names:
  "asrEventLogName ''recognitioninitmessage'' = KeyRecognitionInitMessage" "asrEventLogName ''callsummary'' = KeyCallSummary"
  "asrEventLogName ''finalstatusresponse'' = KeyFinalStatusResponse" "asrEventLogName ''finalresultresponse'' = KeyFinalResultResponse"
  by code_simp+

lemma ex_session: "session_of ex_ri_out = Some ''s''" "session_of ex_cs_out = Some ''s''"
  "session_of ex_fs_out = Some ''s''" "session_of ex_fr_out = Some ''s''"
  by code_simp+

lemma ex_service: "elk_Service (el_Key (ex_schema ct cs req resp)) = ''ASRaaS''"
  "data_DataContentType (el_data (ex_schema ct cs req resp)) = ct"
  by (simp_all add: ex_schema_def)

lemma ex_records:
  "asr_record ex_fc ''s'' ex_ri ex_ri_out KeyRecognitionInitMessage"
  "asr_record ex_fc ''s'' ex_cs ex_cs_out KeyCallSummary"
  "asr_record ex_fc ''s'' ex_fs ex_fs_out KeyFinalStatusResponse"
  "asr_record ex_fc ''s'' ex_fr ex_fr_out KeyFinalResultResponse"
  by (simp_all add: asr_record_def ex_ri_dec ex_cs_dec ex_fs_dec ex_fr_dec ex_Transform ex_survives ex_session
      ex_service ex_names Key_defs)

lemma ex_not_filtered: "\<not> IsFiltered (NewFilter ex_fc) EventAsrCallSummary"
  by (simp add: IsFiltered_NewFilter ex_fc_def)

definition ex_cache :: ttl_cache where
  "ex_cache = NewLocalCache 3600 (\<lambda>_. 0)"

lemma ex_cache_holds: "local_holds 0 sid (\<lambda>_. None) ex_cache"
  by (simp add: session_holds_def ex_cache_def NewLocalCache_def local_view_def local_inv_def clock_in_def asr_ttl_def)

theorem md_run_refines_join_witness:
  "\<exists>c' w. md_RunWorker local_ops ex_fc (\<lambda>p x. (p @ [x], None)) (ex_cache, []) ex_cs =
     Some ((c', [marshal_schema ex_cs_out]), w) \<and> local_holds 0 ''s'' ((\<lambda>_. None)(KeyCallSummary \<mapsto> ex_cs_out)) c'"
proof -
  have "join_step (\<lambda>_. None) KeyCallSummary ex_cs_out = Some ((\<lambda>_. None)(KeyCallSummary \<mapsto> ex_cs_out), None)"
    by (simp add: join_step_def join_merge_def)
  moreover have "md_outputs ex_fc ex_cs_out None = [marshal_schema ex_cs_out]"
    by (simp add: md_outputs_def IsFiltered_NewFilter ex_fc_def)
  ultimately show ?thesis
    using md_run_refines_join [OF ex_records(2) ex_not_filtered ex_cache_holds, where wr = "\<lambda>p x. (p @ [x], None)" and p = "[]"]
    by (simp add: send_def del: fun_upd_apply)
qed

definition ex_merged :: EventLogSchema where
  "ex_merged = (case mergeAsr (copy ex_ri_out) (copy ex_fr_out) (copy ex_fs_out) (copy ex_cs_out) of Some g \<Rightarrow> g | None \<Rightarrow> el_zero)"

lemma ex_copy_fs: "data_Response (el_data (copy ex_fs_out)) \<noteq> None"
  by code_simp
lemma ex_copy_cs: "data_Asr (el_data (copy ex_cs_out)) \<noteq> None"
  by code_simp

lemma ex_merge: "mergeAsr (copy ex_ri_out) (copy ex_fr_out) (copy ex_fs_out) (copy ex_cs_out) = Some ex_merged"
  using ex_copy_fs ex_copy_cs by (auto simp: ex_merged_def mergeAsr_def Let_def)

theorem md_join_any_order_witness:
  "\<exists>c'. md_runs local_ops ex_fc (\<lambda>p x. (p @ [x], None)) (ex_cache, []) [ex_cs, ex_fr, ex_fs, ex_ri] =
     Some (c', [marshal_schema ex_cs_out, marshal_schema ex_fr_out, marshal_schema ex_fs_out,
                marshal_schema ex_merged, marshal_schema ex_ri_out]) \<and>
     local_holds 0 ''s'' (\<lambda>_. None) c'"
proof -
  let ?rs = "[(ex_cs, ex_cs_out, KeyCallSummary), (ex_fr, ex_fr_out, KeyFinalResultResponse), (ex_fs, ex_fs_out, KeyFinalStatusResponse)]"
  have recs: "asr_record ex_fc ''s'' r s n" if "(r, s, n) \<in> set (?rs @ [(ex_ri, ex_ri_out, KeyRecognitionInitMessage)])" for r s n
    using that ex_records by auto
  have g: "join_merge (store_of (?rs @ [(ex_ri, ex_ri_out, KeyRecognitionInitMessage)])) = Some (Some ex_merged)"
    using ex_merge by (simp add: join_merge_def store_of_def)
  have out: "md_outputs ex_fc s None = [marshal_schema s]" for s
    by (simp add: md_outputs_def IsFiltered_NewFilter ex_fc_def)
  have "data_DataContentType (el_data ex_merged) = data_DataContentType (el_data (copy ex_cs_out))"
    using ex_merge by (rule session_of_merge(2))
  also have "\<dots> = ''callsummary''"
    using ex_survives(2) by (simp add: survives_def same_id_def ex_cs_out_def ex_service)
  finally have out': "md_outputs ex_fc ex_ri_out (Some ex_merged) = [marshal_schema ex_merged, marshal_schema ex_ri_out]"
    by (simp add: md_outputs_def IsFiltered_NewFilter ex_fc_def ex_ri_out_def ex_service)
  show ?thesis
    using md_join_any_order [OF ex_not_filtered recs _ g ex_cache_holds, where wr = "\<lambda>p x. (p @ [x], None)" and p = "[]"]
    by (simp add: send_def out out')
qed

section \<open>The session of four records, again\<close>

definition ex_store :: session_store where
  "ex_store = store_of [(ex_fr, ex_fr_out, KeyFinalResultResponse), (ex_fs, ex_fs_out, KeyFinalStatusResponse),
     (ex_ri, ex_ri_out, KeyRecognitionInitMessage)]"

definition ex_full_cache :: ttl_cache where
  "ex_full_cache = ex_cache\<lparr>tc_items := (\<lambda>k. map_option (\<lambda>s. \<lparr>it_value = marshal_schema s, it_ttl = 0, it_expiresAt = 0\<rparr>)
     (map_of [(session_key ''s'' KeyFinalResultResponse, ex_fr_out), (session_key ''s'' KeyFinalStatusResponse, ex_fs_out),
              (session_key ''s'' KeyRecognitionInitMessage, ex_ri_out)] k))\<rparr>"

lemma ex_full_holds: "local_holds 0 ''s'' ex_store ex_full_cache"
  by (auto simp: session_holds_def local_inv_def clock_in_def asr_ttl_def local_view_def ex_full_cache_def
      ex_cache_def NewLocalCache_def ex_store_def store_of_def ex_survives ex_session asr_keys_def)

definition ex_cs_raw :: EventLogSchema where
  "ex_cs_raw = ex_schema ''callsummary'' (Some cs_zero) None None"

lemma ex_cs_raw_survives: "survives ex_cs_raw"
  by (rule survives_ok [where sid = "''s''"]; code_simp)

lemma ex_cs_raw_record: "bi_record ex_fc ''s'' ex_cs ex_cs_raw KeyCallSummary"
  using ex_cs_raw_survives
  by (simp add: bi_record_def ex_cs_dec ex_cs_raw_def ex_service ex_names Key_defs session_of_def)
     (simp add: ex_schema_def)

lemma ex_bi_merge: "\<exists>g. join_merge (ex_store(KeyCallSummary \<mapsto> ex_cs_raw)) = Some (Some g)"
proof -
  have "data_Asr (el_data (copy ex_cs_raw)) \<noteq> None"
    using ex_cs_raw_survives by (auto simp: survives_def same_id_def ex_cs_raw_def ex_schema_def)
  then show ?thesis using ex_copy_fs
    by (auto simp: join_merge_def ex_store_def store_of_def mergeAsr_def Let_def)
qed

theorem bi_call_summary_last_is_lost_witness:
  "\<exists>c' w. bi_RunWorker local_ops ex_fc (\<lambda>p x. (p @ [x], None)) (ex_full_cache, []) ex_cs = Some ((c', []), w) \<and>
    w_Failed w \<and> \<not> w_Written w \<and> w_Err w = Some (TransformErr err_not_joined) \<and>
    local_holds 0 ''s'' (\<lambda>_. None) c'"
proof -
  obtain g where "join_merge (ex_store(KeyCallSummary \<mapsto> ex_cs_raw)) = Some (Some g)" using ex_bi_merge by auto
  from bi_call_summary_last_is_lost [OF ex_cs_raw_record ex_not_filtered ex_full_holds this] show ?thesis .
qed

section \<open>A session with everything a metric needs\<close>

definition ex_cs2 :: EventLogSchema where
  "ex_cs2 = upd_data (\<lambda>d. d\<lparr>data_ProcessingTime := Some pt_zero\<rparr>) ex_cs_raw"
definition ex_fs2 :: EventLogSchema where
  "ex_fs2 = ex_schema ''finalstatusresponse'' None None (Some (resp_zero\<lparr>resp_Status := Some st_zero\<rparr>))"
definition ex_ri2 :: EventLogSchema where
  "ex_ri2 = ex_schema ''recognitioninitmessage'' None (Some (req_zero\<lparr>req_RecognitionInitMessage :=
     Some [(''parameters'', JObj [(''language'', JStr ''l''), (''topic'', JStr ''t'')])]\<rparr>)) None"

lemma ex2_survives: "survives ex_cs2" "survives ex_fs2" "survives ex_ri2"
  by (rule survives_ok [where sid = "''s''"]; code_simp)+

lemma ex2_session: "session_of ex_cs2 = Some ''s''" "session_of ex_fs2 = Some ''s''" "session_of ex_ri2 = Some ''s''"
  by code_simp+


lemma ex2_copy1: "copy ex_cs2 = ex_cs2" by code_simp
lemma ex2_copy2: "copy ex_fs2 = ex_fs2" by code_simp
lemma ex2_copy3: "copy ex_ri2 = ex_ri2" by code_simp
lemma ex2_copy4: "copy ex_fr_out = ex_fr_out" by code_simp

definition ex2_metric_of :: "EventLogSchema option \<Rightarrow> bi_metric option option" where
  "ex2_metric_of g = (case g of None \<Rightarrow> None | Some s \<Rightarrow> bi_TransformRecord s)"

lemma ex2_metric: "ex2_metric_of (mergeAsr ex_ri2 ex_fr_out ex_fs2 ex_cs2) \<noteq> None" "ex2_metric_of (mergeAsr ex_ri2 ex_fr_out ex_fs2 ex_cs2) \<noteq> Some None"
  by code_simp+

definition ex2_store :: session_store where
  "ex2_store = store_of [([], ex_cs2, KeyCallSummary), ([], ex_fs2, KeyFinalStatusResponse),
     ([], ex_ri2, KeyRecognitionInitMessage)]"

definition ex2_cache :: ttl_cache where
  "ex2_cache = ex_cache\<lparr>tc_items := (\<lambda>k. map_option (\<lambda>s. \<lparr>it_value = marshal_schema s, it_ttl = 0, it_expiresAt = 0\<rparr>)
     (map_of [(session_key ''s'' KeyCallSummary, ex_cs2), (session_key ''s'' KeyFinalStatusResponse, ex_fs2),
              (session_key ''s'' KeyRecognitionInitMessage, ex_ri2)] k))\<rparr>"

lemma ex2_holds: "local_holds 0 ''s'' ex2_store ex2_cache"
  by (auto simp: session_holds_def local_inv_def clock_in_def asr_ttl_def local_view_def ex2_cache_def
      ex_cache_def NewLocalCache_def ex2_store_def store_of_def ex2_survives ex2_session asr_keys_def)

lemma ex2_record: "bi_record ex_fc ''s'' ex_fr ex_fr_out KeyFinalResultResponse"
  by (simp add: bi_record_def ex_fr_dec ex_fr_out_def ex_service ex_names Key_defs ex_survives(4) [unfolded ex_fr_out_def]
      ex_session(4) [unfolded ex_fr_out_def])

theorem bi_metric_of_joined_witness:
  "\<exists>mt c' w. bi_RunWorker local_ops ex_fc (\<lambda>p x. (p @ [x], None)) (ex2_cache, []) ex_fr =
      Some ((c', [marshal_metric (Some mt)]), w) \<and> w_Written w \<and> local_holds 0 ''s'' (\<lambda>_. None) c'"
proof -
  obtain g mt where g: "mergeAsr ex_ri2 ex_fr_out ex_fs2 ex_cs2 = Some g" "bi_TransformRecord g = Some (Some mt)"
    using ex2_metric by (auto simp: ex2_metric_of_def split: option.splits)
  have jm: "join_merge (ex2_store(KeyFinalResultResponse \<mapsto> ex_fr_out)) = Some (Some g)"
    using g(1) by (simp add: join_merge_def ex2_store_def store_of_def ex2_copy1 ex2_copy2 ex2_copy3 ex2_copy4)
  have ct: "data_DataContentType (el_data g) \<noteq> data_DataContentType (el_data ex_fr_out)"
    using session_of_merge(2) [OF g(1)] by (simp add: ex_cs2_def ex_cs_raw_def ex_fr_out_def ex_service)
  have nf: "\<not> IsFiltered (NewFilter ex_fc) (data_DataContentType (el_data ex_fr_out))"
    by (simp add: IsFiltered_NewFilter ex_fc_def)
  show ?thesis
    using bi_metric_of_joined [OF ex2_record ex_not_filtered ex2_holds jm ct nf g(2),
        where wr = "\<lambda>p x. (p @ [x], None)" and p = "[]"] by auto
qed

end
