(* ===== verification/Pipeline_Io.thy ===== *)
theory Pipeline_Io
  imports Mix_Bi
begin

text \<open>
  The data pipeline between the components (\<open>pkg/pipeline/io\<close>): the redaction fix every reader
  applies, the embedded provider, a FIFO queue of compressed files over the vendored \<open>pqueue\<close>, and
  the mapping of on-premise records in the Kafka reader. Compression is a parameter: a pair of
  functions of which the reader needs that the second undoes the first. Operating system calls
  that can fail take a flag that says whether they succeed.
\<close>

section \<open>PreProcessRedactedFields\<close>

record TruncatedEventLogSchema =
  tr_Key :: "EventLogKey option"

definition tr_zero :: TruncatedEventLogSchema where
  "tr_zero = \<lparr>tr_Key = None\<rparr>"

definition tr_fields :: "TruncatedEventLogSchema fields" where
  "tr_fields = [ptr_field ''key'' elk_fields elk_zero tr_Key tr_Key_update]"

datatype io_error = BadJson json_error | KeyIsNil | InvalidPayload | QueueEmpty | OsError

definition unmarshal_key :: "string \<Rightarrow> TruncatedEventLogSchema \<times> json_error option" where
  "unmarshal_key bytes =
     (case json_parse bytes of
        None \<Rightarrow> (tr_zero, Some SyntaxError)
      | Some v \<Rightarrow> (let (s, ok) = dec_struct tr_fields v tr_zero in (s, if ok then None else Some TypeError)))"

definition redacted_old :: string where
  "redacted_old = ''\"interpretations\":\"****redacted****\"''"

definition redacted_new :: string where
  "redacted_new = ''\"interpretations\":[\"literal\": \"****redacted****\"]''"

definition PreProcessRedactedFields :: "string \<Rightarrow> string \<times> io_error option" where
  "PreProcessRedactedFields bytes =
     (let (key, err) = unmarshal_key bytes
      in case err of
           Some e \<Rightarrow> (bytes, Some (BadJson e))
         | None \<Rightarrow>
             (case tr_Key key of
                None \<Rightarrow> (bytes, Some KeyIsNil)
              | Some k \<Rightarrow>
                  if elk_Service k = ''NLUaaS'' then
                    (if str_contains bytes redacted_old
                     then (replace_all bytes redacted_old redacted_new, None)
                     else (bytes, None))
                  else (bytes, None)))"

section \<open>The vendored persistent queue\<close>

text \<open>The backing directory maps file names, which are integers, to contents. A queue object keeps
  the keys it has seen and a counter.\<close>

type_synonym dir = "(int \<times> string) list"

record pqueue =
  pq_entries :: "int list"
  pq_current :: int

definition readKeys :: "dir \<Rightarrow> int list" where
  "readKeys d = sort (map fst d)"

definition pq_New :: "dir \<Rightarrow> pqueue" where
  "pq_New d = (let ks = readKeys d
     in \<lparr>pq_entries = ks, pq_current = (if ks = [] then 0 else last ks)\<rparr>)"

definition write_file :: "dir \<Rightarrow> int \<Rightarrow> string \<Rightarrow> dir" where
  "write_file d k b = (k, b) # filter (\<lambda>e. fst e \<noteq> k) d"

definition remove_file :: "dir \<Rightarrow> int \<Rightarrow> dir" where
  "remove_file d k = filter (\<lambda>e. fst e \<noteq> k) d"

definition pq_Enqueue :: "bool \<Rightarrow> pqueue \<Rightarrow> dir \<Rightarrow> string \<Rightarrow> pqueue \<times> dir \<times> io_error option" where
  "pq_Enqueue ok q d b =
     (let q1 = q\<lparr>pq_current := pq_current q + 1\<rparr>
      in if ok then (q1\<lparr>pq_entries := pq_entries q @ [pq_current q1]\<rparr>, write_file d (pq_current q1) b, None)
         else (q1, d, Some OsError))"

definition pq_Dequeue :: "bool \<Rightarrow> pqueue \<Rightarrow> dir \<Rightarrow> pqueue \<times> dir \<times> (io_error + string)" where
  "pq_Dequeue ok q d =
     (case pq_entries q of
        [] \<Rightarrow> (q, d, Inl QueueEmpty)
      | k # ks \<Rightarrow>
          (case map_of d k of
             None \<Rightarrow> (q, d, Inl OsError)
           | Some b \<Rightarrow>
               if ok then (q\<lparr>pq_entries := ks\<rparr>, remove_file d k, Inr b)
               else (q, d, Inl OsError)))"

section \<open>Embedded writer and reader\<close>

text \<open>The state of one queue of the pipeline: the writer's queue object and the directory. The
  reader makes a new queue object, which scans the directory, at every \<open>Read\<close>.\<close>

record equeue =
  eq_writer :: pqueue
  eq_dir :: dir

definition emb_Open :: "dir \<Rightarrow> equeue" where
  "emb_Open d = \<lparr>eq_writer = pq_New d, eq_dir = d\<rparr>"

definition emb_Write :: "(string \<Rightarrow> string) \<Rightarrow> bool \<Rightarrow> equeue \<Rightarrow> string \<Rightarrow> equeue \<times> io_error option" where
  "emb_Write gz ok q data =
     (let (w, d, err) = pq_Enqueue ok (eq_writer q) (eq_dir q) (gz data)
      in (\<lparr>eq_writer = w, eq_dir = d\<rparr>, err))"

text \<open>Data that does not decompress is passed on as it is; a record the redaction fix refuses has
  been removed from the queue by then.\<close>

definition decompressData :: "(string \<Rightarrow> string option) \<Rightarrow> string \<Rightarrow> string" where
  "decompressData gunz b = (case gunz b of None \<Rightarrow> b | Some x \<Rightarrow> x)"

definition emb_Read :: "(string \<Rightarrow> string option) \<Rightarrow> bool \<Rightarrow> equeue \<Rightarrow> equeue \<times> (io_error + string)" where
  "emb_Read gunz ok q =
     (let (r, d, res) = pq_Dequeue ok (pq_New (eq_dir q)) (eq_dir q);
          q' = q\<lparr>eq_dir := d\<rparr>
      in (q', (case res of
                 Inl e \<Rightarrow> Inl e
               | Inr b \<Rightarrow> (let (out, err) = PreProcessRedactedFields (decompressData gunz b)
                           in case err of None \<Rightarrow> Inr out | Some _ \<Rightarrow> Inl InvalidPayload))))"

section \<open>The contract of a pipeline queue\<close>

text \<open>A queue holds a list of records; writing appends, reading takes the first one off and
  delivers it through the redaction fix.\<close>

definition deliver :: "string \<Rightarrow> io_error + string" where
  "deliver x = (let (out, err) = PreProcessRedactedFields x
                in case err of None \<Rightarrow> Inr out | Some _ \<Rightarrow> Inl InvalidPayload)"

datatype qop = QWrite string | QRead

text \<open>Any interleaving of writes and reads, with the results of the reads that found a record.\<close>

fun session ::
  "('q \<Rightarrow> string \<Rightarrow> 'q \<times> io_error option) \<Rightarrow> ('q \<Rightarrow> 'q \<times> (io_error + string)) \<Rightarrow> 'q \<Rightarrow> qop list
   \<Rightarrow> 'q \<times> (io_error + string) list" where
  "session put get q [] = (q, [])"
| "session put get q (QWrite x # ops) = session put get (fst (put q x)) ops"
| "session put get q (QRead # ops) =
     (let (q', r) = get q; (q'', rs) = session put get q' ops
      in (q'', if r = Inl QueueEmpty then rs else r # rs))"

fun written :: "qop list \<Rightarrow> string list" where
  "written [] = []"
| "written (QWrite x # ops) = x # written ops"
| "written (QRead # ops) = written ops"

text \<open>The contract; \<open>recover x\<close> is what a record comes back as.\<close>

locale pipeline_queue =
  fixes put :: "'q \<Rightarrow> string \<Rightarrow> 'q \<times> io_error option" and get :: "'q \<Rightarrow> 'q \<times> (io_error + string)"
    and content :: "'q \<Rightarrow> string list" and qinv :: "'q \<Rightarrow> bool" and recover :: "string \<Rightarrow> string"
  assumes put_ok: "qinv q \<Longrightarrow> snd (put q x) = None \<and> qinv (fst (put q x)) \<and>
      content (fst (put q x)) = content q @ [recover x]"
    and get_empty: "qinv q \<Longrightarrow> content q = [] \<Longrightarrow>
      snd (get q) = Inl QueueEmpty \<and> qinv (fst (get q)) \<and> content (fst (get q)) = []"
    and get_some: "qinv q \<Longrightarrow> content q = x # xs \<Longrightarrow>
      snd (get q) = deliver x \<and> qinv (fst (get q)) \<and> content (fst (get q)) = xs"
begin

lemma deliver_not_empty: "deliver x \<noteq> Inl QueueEmpty"
  by (simp add: deliver_def Let_def split: prod.splits option.splits)

lemma session_fifo:
  "qinv q \<Longrightarrow> qinv (fst (session put get q ops)) \<and>
     snd (session put get q ops) @ map deliver (content (fst (session put get q ops))) =
     map deliver (content q @ map recover (written ops))"
proof (induction ops arbitrary: q rule: written.induct)
  case (2 x ops)
  then show ?case using put_ok [of q x] by simp
next
  case (3 ops)
  show ?case
  proof (cases "content q")
    case Nil
    with get_empty [OF "3.prems" Nil] "3.IH" [of "fst (get q)"] show ?thesis
      by (simp add: Let_def case_prod_unfold)
  next
    case (Cons x xs)
    with get_some [OF "3.prems" Cons] "3.IH" [of "fst (get q)"] deliver_not_empty [of x] show ?thesis
      by (simp add: Let_def case_prod_unfold)
  qed
qed simp

end

section \<open>The embedded queue meets the contract\<close>

definition eq_files :: "dir \<Rightarrow> string list" where
  "eq_files d = map (\<lambda>k. the (map_of d k)) (readKeys d)"

definition eq_content :: "(string \<Rightarrow> string option) \<Rightarrow> equeue \<Rightarrow> string list" where
  "eq_content gunz q = map (decompressData gunz) (eq_files (eq_dir q))"

definition eq_inv :: "equeue \<Rightarrow> bool" where
  "eq_inv q = (distinct (map fst (eq_dir q)) \<and> (\<forall>k \<in> set (map fst (eq_dir q)). k \<le> pq_current (eq_writer q)))"

lemma insort_above: "\<forall>j \<in> set xs. j < k \<Longrightarrow> insort k xs = xs @ [k :: int]"
  by (induction xs) auto

lemma sorted_last: "sorted xs \<Longrightarrow> x \<in> set xs \<Longrightarrow> (x :: int) \<le> last xs"
  by (induction xs rule: rev_induct) (auto simp: sorted_append)

lemma readKeys_write:
  assumes "\<forall>j \<in> set (map fst d). j < k"
  shows "readKeys (write_file d k b) = readKeys d @ [k]"
proof -
  have f: "filter (\<lambda>e. fst e \<noteq> k) d = d" using assms by (auto intro!: filter_True)
  have "sort (k # map fst d) = sort (map fst d) @ [k]"
    using assms insort_above [of "sort (map fst d)" k] by simp
  then show ?thesis by (simp add: readKeys_def write_file_def f)
qed

lemma readKeys_set [simp]: "set (readKeys d) = set (map fst d)"
  by (simp add: readKeys_def)

lemma readKeys_Nil [simp]: "readKeys d = [] \<longleftrightarrow> d = []"
  by (metis length_0_conv length_map length_sort readKeys_def)

lemma eq_files_write:
  assumes "\<forall>j \<in> set (map fst d). j < k"
  shows "eq_files (write_file d k b) = eq_files d @ [b]"
proof -
  have f: "filter (\<lambda>e. fst e \<noteq> k) d = d" using assms by (auto intro!: filter_True)
  have "map_of (write_file d k b) j = map_of d j" if "j \<in> set (readKeys d)" for j
    using assms that by (auto simp: write_file_def f)
  then show ?thesis by (simp add: eq_files_def readKeys_write [OF assms]) (simp add: write_file_def)
qed

lemma map_of_filter_neq: "j \<noteq> k \<Longrightarrow> map_of (filter (\<lambda>e. fst e \<noteq> k) d) j = map_of d j"
  by (induction d) auto

lemma readKeys_remove: "readKeys (remove_file d k) = filter (\<lambda>j. j \<noteq> k) (readKeys d)"
proof -
  have "map fst (remove_file d k) = filter (\<lambda>j. j \<noteq> k) (map fst d)"
    by (simp add: remove_file_def filter_map comp_def)
  then show ?thesis by (simp add: readKeys_def filter_sort)
qed

lemma eq_files_remove:
  assumes "distinct (map fst d)" "readKeys d = k # ks"
  shows "eq_files d = the (map_of d k) # eq_files (remove_file d k)"
    and "readKeys (remove_file d k) = ks"
proof -
  have "distinct (k # ks)" using assms by (metis distinct_sort readKeys_def)
  then have ks: "k \<notin> set ks" "filter (\<lambda>j. j \<noteq> k) ks = ks" by (auto intro!: filter_True)
  then show keys: "readKeys (remove_file d k) = ks" by (simp add: readKeys_remove assms(2))
  show "eq_files d = the (map_of d k) # eq_files (remove_file d k)"
    using ks(1) unfolding eq_files_def keys assms(2)
    by (auto simp: remove_file_def intro!: arg_cong [of _ _ the] map_of_filter_neq [symmetric])
qed

lemma emb_Write_ok:
  assumes "eq_inv q"
  shows "snd (emb_Write gz True q x) = None \<and> eq_inv (fst (emb_Write gz True q x)) \<and>
    eq_content gunz (fst (emb_Write gz True q x)) = eq_content gunz q @ [decompressData gunz (gz x)]"
proof -
  let ?k = "pq_current (eq_writer q) + 1"
  have lt: "\<forall>j \<in> set (map fst (eq_dir q)). j < ?k" using assms by (fastforce simp: eq_inv_def)
  then have f: "filter (\<lambda>e. fst e \<noteq> ?k) (eq_dir q) = eq_dir q" by (auto intro!: filter_True)
  have "eq_inv (fst (emb_Write gz True q x))"
    using assms lt f by (fastforce simp: emb_Write_def pq_Enqueue_def eq_inv_def write_file_def Let_def)
  moreover have "eq_content gunz (fst (emb_Write gz True q x)) = eq_content gunz q @ [decompressData gunz (gz x)]"
    using eq_files_write [OF lt, of "gz x"]
    by (simp add: emb_Write_def pq_Enqueue_def eq_content_def Let_def)
  ultimately show ?thesis by (simp add: emb_Write_def pq_Enqueue_def Let_def)
qed

lemma emb_Read_cases:
  assumes "eq_inv q"
  shows "eq_content gunz q = [] \<Longrightarrow> emb_Read gunz True q = (q, Inl QueueEmpty)"
    and "eq_content gunz q = x # xs \<Longrightarrow> snd (emb_Read gunz True q) = deliver x \<and>
      eq_inv (fst (emb_Read gunz True q)) \<and> eq_content gunz (fst (emb_Read gunz True q)) = xs"
proof -
  show "eq_content gunz q = [] \<Longrightarrow> emb_Read gunz True q = (q, Inl QueueEmpty)"
    by (simp add: eq_content_def eq_files_def emb_Read_def pq_New_def pq_Dequeue_def readKeys_def Let_def)
  assume c: "eq_content gunz q = x # xs"
  then obtain k ks where ks: "readKeys (eq_dir q) = k # ks"
    by (cases "readKeys (eq_dir q)") (auto simp: eq_content_def eq_files_def)
  have d: "distinct (map fst (eq_dir q))" using assms by (simp add: eq_inv_def)
  note r = eq_files_remove [OF d ks]
  have "k \<in> set (map fst (eq_dir q))" using ks by (metis list.set_intros(1) readKeys_set)
  then obtain b where b: "map_of (eq_dir q) k = Some b" by (metis list.set_map map_of_eq_None_iff option.exhaust)
  have x: "x = decompressData gunz b" "xs = map (decompressData gunz) (eq_files (remove_file (eq_dir q) k))"
    using c r(1) b by (auto simp: eq_content_def)
  have read: "emb_Read gunz True q = (q\<lparr>eq_dir := remove_file (eq_dir q) k\<rparr>, deliver x)"
    using ks b x by (simp add: emb_Read_def pq_New_def pq_Dequeue_def deliver_def Let_def)
  have "eq_inv (q\<lparr>eq_dir := remove_file (eq_dir q) k\<rparr>)"
    using assms by (auto simp: eq_inv_def remove_file_def distinct_map_filter)
  then show "snd (emb_Read gunz True q) = deliver x \<and>
      eq_inv (fst (emb_Read gunz True q)) \<and> eq_content gunz (fst (emb_Read gunz True q)) = xs"
    using read x(2) by (simp add: eq_content_def)
qed

interpretation emb: pipeline_queue "emb_Write gz True" "emb_Read gunz True" "eq_content gunz" eq_inv
  "\<lambda>x. decompressData gunz (gz x)" for gz gunz
proof unfold_locales
  fix q :: equeue and x xs
  assume inv: "eq_inv q"
  show "snd (emb_Write gz True q x) = None \<and> eq_inv (fst (emb_Write gz True q x)) \<and>
      eq_content gunz (fst (emb_Write gz True q x)) = eq_content gunz q @ [decompressData gunz (gz x)]"
    using emb_Write_ok [OF inv] by simp
  show "snd (emb_Read gunz True q) = Inl QueueEmpty \<and>
      eq_inv (fst (emb_Read gunz True q)) \<and> eq_content gunz (fst (emb_Read gunz True q)) = []"
    if "eq_content gunz q = []"
    using emb_Read_cases(1) [OF inv that] inv that by simp
  show "snd (emb_Read gunz True q) = deliver x \<and>
      eq_inv (fst (emb_Read gunz True q)) \<and> eq_content gunz (fst (emb_Read gunz True q)) = xs"
    if "eq_content gunz q = x # xs"
    using emb_Read_cases(2) [OF inv that] .
qed

lemma emb_Open_inv: "distinct (map fst d) \<Longrightarrow> eq_inv (emb_Open d)"
proof -
  assume d: "distinct (map fst d)"
  have "k \<le> last (readKeys d)" if "k \<in> set (readKeys d)" for k
    using that sorted_last [of "readKeys d" k] by (simp add: readKeys_def)
  then show ?thesis using d by (auto simp: emb_Open_def pq_New_def eq_inv_def Let_def)
qed



section \<open>Metrics cannot be read back\<close>

definition no_key :: "obj \<Rightarrow> bool" where
  "no_key kvs = (\<forall>kv \<in> set kvs. \<not> equal_fold ''key'' (fst kv))"

lemma no_key_append: "no_key (xs @ ys) = (no_key xs \<and> no_key ys)"
  by (auto simp: no_key_def)

lemma no_key_opt_member: "\<not> equal_fold ''key'' k \<Longrightarrow> no_key (opt_member k v)"
  by (simp add: no_key_def opt_member_def split: option.splits)

lemma key_not_member: "no_key kvs \<Longrightarrow> dec_members tr_fields kvs tr_zero = (tr_zero, True)"
proof -
  have "fold (dec_member tr_fields) kvs sb = sb" if "no_key kvs" for sb
    using that by (induction kvs)
      (auto simp: no_key_def dec_member_def find_field_def tr_fields_def ptr_field_def)
  then show "no_key kvs \<Longrightarrow> ?thesis" by (simp add: dec_members_def)
qed

lemma enc_fields_names: "fst ` set (enc_fields fs s) \<subseteq> fname ` set fs"
  by (induction fs) (auto split: option.splits)

lemma Metric_no_key: "no_key (enc_fields Metric_fields m)"
proof -
  have "\<forall>n \<in> fname ` set Metric_fields. \<not> equal_fold ''key'' n"
    by (simp add: Metric_fields_def field_defs equal_fold_def to_lower_def)
  then show ?thesis using enc_fields_names [of Metric_fields m] by (auto simp: no_key_def)
qed

lemma metric_json_no_key: "\<exists>kvs. metric_json mt = JObj kvs \<and> no_key kvs"
proof -
  have "\<not> equal_fold ''key'' ''language_topic''" "\<not> equal_fold ''key'' ''audio_duration_ms''"
    "\<not> equal_fold ''key'' ''asr_latency_ms''" "\<not> equal_fold ''key'' ''avg_packet_size''"
    "\<not> equal_fold ''key'' ''completion_cause''" "\<not> equal_fold ''key'' ''voice''"
    "\<not> equal_fold ''key'' ''dialog_rpc''"
    by (simp_all add: equal_fold_def)
  then show ?thesis
    by (cases mt) (simp_all add: no_key_append no_key_opt_member Metric_no_key)
qed

text \<open>The text of a mix-bi metric has no event log key, and every reader of the embedded, Kafka, Pulsar
  and Redis providers refuses such a record: the next component of the pipeline gets an error
  instead of the metric. In the embedded provider the metric is gone from the queue by then.\<close>

lemma bi_metric_is_refused:
  assumes "json_ok (metric_json mt)"
  shows "PreProcessRedactedFields (marshal_metric (Some mt)) = (marshal_metric (Some mt), Some KeyIsNil) \<and>
    deliver (marshal_metric (Some mt)) = Inl InvalidPayload"
proof -
  obtain kvs where kvs: "metric_json mt = JObj kvs" "no_key kvs"
    using metric_json_no_key by blast
  have "unmarshal_key (marshal_metric (Some mt)) = (tr_zero, None)"
    using json_parse_json_str [OF assms] kvs key_not_member [OF kvs(2)]
    by (simp add: unmarshal_key_def marshal_metric_def dec_struct_def)
  then show ?thesis by (simp add: PreProcessRedactedFields_def deliver_def tr_zero_def)
qed

definition ex_metric :: bi_metric where
  "ex_metric = NluM \<lparr>m_Value = \<lparr>bv_ID = ''id'', bv_Timestamp = ''t''\<rparr>, m_Partition = Dec 1 0, m_Offset = Dec 7 0,
     m_ServiceType = ''NLUaaS'', m_Topic = ''t'', m_ProcessingDurationMs = 3, m_StatusCode = 200,
     m_StatusMessage = ''ok'', m_StatusDetails = [], m_LanguageCode = ''en'', m_ClientData = None\<rparr>"

lemma ex_metric_ok: "json_ok (metric_json ex_metric)"
  by (simp add: ex_metric_def Metric_fields_def field_defs enc_string_def enc_float_def enc_int_def
      dec_of_int_def enc_struct_def bi_value_fields_def enc_map_def)

lemma bi_metric_is_refused_example:
  "PreProcessRedactedFields (marshal_metric (Some ex_metric)) = (marshal_metric (Some ex_metric), Some KeyIsNil) \<and>
   deliver (marshal_metric (Some ex_metric)) = Inl InvalidPayload"
  using bi_metric_is_refused [OF ex_metric_ok] .

section \<open>The redaction fix breaks the record\<close>

definition ex_redacted :: string where
  "ex_redacted = ''{\"key\":{\"service\":\"NLUaaS\"},\"interpretations\":\"****redacted****\"}''"

text \<open>The redaction fix turns every record it rewrites into something that is not JSON: a record with
  redacted interpretations gets an array that holds a member, so a reader that decodes it fails.
  Shown for the smallest such record, which is well-formed before the fix.\<close>

lemma redaction_fix_breaks_json:
  "json_parse ex_redacted \<noteq> None \<and> snd (PreProcessRedactedFields ex_redacted) = None \<and>
   json_parse (fst (PreProcessRedactedFields ex_redacted)) = None"
proof -
  have "json_parse ex_redacted \<noteq> None" by code_simp
  moreover have "PreProcessRedactedFields ex_redacted =
      (''{\"key\":{\"service\":\"NLUaaS\"},'' @ redacted_new @ ''}'', None)" by code_simp
  moreover have "json_parse (''{\"key\":{\"service\":\"NLUaaS\"},'' @ redacted_new @ ''}'') = None" by code_simp
  ultimately show ?thesis by simp
qed

section \<open>Kafka: on-premise records\<close>

record kafka_message =
  km_Key :: string
  km_Value :: string
  km_Topic :: string
  km_Partition :: int
  km_Offset :: int

definition unmarshal_el_key :: "string \<Rightarrow> EventLogKey \<times> json_error option" where
  "unmarshal_el_key bytes =
     (case json_parse bytes of
        None \<Rightarrow> (elk_zero, Some SyntaxError)
      | Some v \<Rightarrow> (let (s, ok) = dec_struct elk_fields v elk_zero in (s, if ok then None else Some TypeError)))"

definition unmarshal_el_value :: "string \<Rightarrow> EventLogValue \<times> json_error option" where
  "unmarshal_el_value bytes =
     (case json_parse bytes of
        None \<Rightarrow> (elv_zero, Some SyntaxError)
      | Some v \<Rightarrow> (let (s, ok) = dec_struct elv_fields v elv_zero in (s, if ok then None else Some TypeError)))"

definition mapOnPremiseRecord :: "kafka_message \<Rightarrow> io_error + string" where
  "mapOnPremiseRecord msg =
     (let (bytes, err) = PreProcessRedactedFields (km_Value msg)
      in if err \<noteq> None then Inl InvalidPayload
         else (let (schema, err) = unmarshal_schema bytes el_zero
               in if err \<noteq> None then Inl InvalidPayload
                  else if elk_ID (el_Key schema) \<noteq> [] then Inr (km_Value msg)
                  else (let (key, err1) = unmarshal_el_key (km_Key msg);
                            (value, err2) = unmarshal_el_value (km_Value msg)
                        in if err1 \<noteq> None then Inl InvalidPayload
                           else if err2 \<noteq> None then Inl InvalidPayload
                           else (let key' = (if trim_space (elk_ID key) = [] then key\<lparr>elk_ID := elv_ID value\<rparr> else key)
                                 in Inr (marshal_schema (schema\<lparr>el_Offset := dec_of_int (km_Offset msg),
                                          el_Partition := dec_of_int (km_Partition msg),
                                          el_Topic := km_Topic msg, el_Key := key', el_Value := value\<rparr>))))))"

text \<open>A Kafka message whose value is a bare event log value, as an on-premise deployment produces it,
  never reaches the mapping written for it: whatever its key and value, if the value has no member
  \<open>key\<close> the reader returns an error. A message the reader does accept has such a member.\<close>

lemma on_premise_value_is_refused:
  "json_parse (km_Value msg) = Some (JObj kvs) \<Longrightarrow> no_key kvs \<Longrightarrow>
   mapOnPremiseRecord msg = Inl InvalidPayload"
  using key_not_member [of kvs]
  by (simp add: mapOnPremiseRecord_def PreProcessRedactedFields_def unmarshal_key_def dec_struct_def tr_zero_def)

definition ex_onprem :: kafka_message where
  "ex_onprem = \<lparr>km_Key = ''{\"id\":\"1\"}'', km_Value = ''{\"id\":\"1\",\"type\":\"x\"}'', km_Topic = ''t'',
     km_Partition = 0, km_Offset = 5\<rparr>"

lemma on_premise_value_is_refused_example: "mapOnPremiseRecord ex_onprem = Inl InvalidPayload"
proof -
  have "json_parse (km_Value ex_onprem) = Some (JObj [(''id'', JStr ''1''), (''type'', JStr ''x'')])"
    by code_simp
  from on_premise_value_is_refused [OF this] show ?thesis by (simp add: no_key_def equal_fold_def to_lower_def)
qed

end
