(* ===== verification/Go_Prog.thy ===== *)
theory Go_Prog
  imports Go_Prelude
begin

text \<open>
  Sequencing of calls that thread a state, return a result or an error, and may kill the process.
  A \<open>('s, 'e, 'a) prog\<close> maps the state before a call to the state after it with the error or the
  result; the state keeps what was done before an error. \<^term>\<open>None\<close> is a panic or \<open>log.Fatalf\<close>.
\<close>

type_synonym ('s, 'e, 'a) prog = "'s \<Rightarrow> ('s \<times> ('e + 'a)) option"

definition ret :: "'a \<Rightarrow> ('s, 'e, 'a) prog" where
  "ret x s = Some (s, Inr x)"

definition fail :: "'e \<Rightarrow> ('s, 'e, 'a) prog" where
  "fail e s = Some (s, Inl e)"

definition die :: "('s, 'e, 'a) prog" where
  "die s = None"

text \<open>\<open>x, err := m(); if err != nil { return err }\<close>, then the rest.\<close>

definition andThen :: "('s, 'e, 'a) prog \<Rightarrow> ('a \<Rightarrow> ('s, 'e, 'b) prog) \<Rightarrow> ('s, 'e, 'b) prog" where
  "andThen m k s =
     (case m s of
        None \<Rightarrow> None
      | Some (s', Inl e) \<Rightarrow> Some (s', Inl e)
      | Some (s', Inr x) \<Rightarrow> k x s')"

text \<open>The error is looked at, or ignored, by the caller.\<close>

definition attempt :: "('s, 'e, 'a) prog \<Rightarrow> ('s, 'e, 'e + 'a) prog" where
  "attempt m s = (case m s of None \<Rightarrow> None | Some (s', r) \<Rightarrow> Some (s', Inr r))"

text \<open>\<open>if err != nil { log.Fatalf(...) }\<close>.\<close>

definition or_die :: "('s, 'e, 'a) prog \<Rightarrow> ('s, 'e, 'a) prog" where
  "or_die m s = (case m s of Some (s', Inr x) \<Rightarrow> Some (s', Inr x) | _ \<Rightarrow> None)"

definition gets :: "('s \<Rightarrow> 'a) \<Rightarrow> ('s, 'e, 'a) prog" where
  "gets f s = Some (s, Inr (f s))"

definition modify :: "('s \<Rightarrow> 's) \<Rightarrow> ('s, 'e, unit) prog" where
  "modify f s = Some (f s, Inr ())"

definition of_sum :: "'e + 'a \<Rightarrow> ('s, 'e, 'a) prog" where
  "of_sum r s = Some (s, r)"

definition map_err :: "('d \<Rightarrow> 'e) \<Rightarrow> ('s, 'd, 'a) prog \<Rightarrow> ('s, 'e, 'a) prog" where
  "map_err f m s = (case m s of None \<Rightarrow> None | Some (s', r) \<Rightarrow> Some (s', map_sum f id r))"

text \<open>A call of another component: its state is a part of the caller's.\<close>

definition zoom :: "('t \<Rightarrow> 's) \<Rightarrow> ('s \<Rightarrow> 't \<Rightarrow> 't) \<Rightarrow> ('s, 'e, 'a) prog \<Rightarrow> ('t, 'e, 'a) prog" where
  "zoom get put m t = (case m (get t) of None \<Rightarrow> None | Some (s', r) \<Rightarrow> Some (put s' t, r))"

fun each :: "('a \<Rightarrow> ('s, 'e, 'b) prog) \<Rightarrow> 'a list \<Rightarrow> ('s, 'e, 'b list) prog" where
  "each f [] = ret []"
| "each f (x # xs) = andThen (f x) (\<lambda>y. andThen (each f xs) (\<lambda>ys. ret (y # ys)))"

named_theorems prog_simps \<open>evaluation of programs on a state\<close>

lemmas prog_defs = ret_def fail_def die_def andThen_def attempt_def or_die_def gets_def modify_def of_sum_def zoom_def

lemma prog_eval [prog_simps]:
  "ret x s = Some (s, Inr x)" "fail e s = Some (s, Inl e)" "die s = None"
  "gets g s = Some (s, Inr (g s))" "modify f s = Some (f s, Inr ())" "of_sum r s = Some (s, r)"
  by (simp_all add: prog_defs)

lemma andThen_eval [prog_simps]:
  "m s = Some (s', Inr x) \<Longrightarrow> andThen m k s = k x s'"
  "m s = Some (s', Inl e) \<Longrightarrow> andThen m k s = Some (s', Inl e)"
  "m s = None \<Longrightarrow> andThen m k s = None"
  by (simp_all add: andThen_def)

lemma attempt_eval [prog_simps]: "m s = Some (s', r) \<Longrightarrow> attempt m s = Some (s', Inr r)"
  by (simp add: attempt_def)

lemma or_die_eval [prog_simps]: "m s = Some (s', Inr x) \<Longrightarrow> or_die m s = Some (s', Inr x)"
  by (simp add: or_die_def)

lemma andThen_Inr_iff:
  "andThen m k s = Some (t, Inr y) \<longleftrightarrow> (\<exists>s' x. m s = Some (s', Inr x) \<and> k x s' = Some (t, Inr y))"
  by (auto simp: andThen_def split: option.splits sum.splits)

lemma andThen_assoc: "andThen (andThen m f) g = andThen m (\<lambda>x. andThen (f x) g)"
  by (rule ext) (auto simp: andThen_def split: option.splits sum.splits)

text \<open>The outcome of a call that returned without an error, for evaluation on concrete states.\<close>

definition outcome :: "('s, 'e, 'a) prog \<Rightarrow> 's \<Rightarrow> ('s \<times> 'a) option" where
  "outcome m s = (case m s of Some (s', Inr x) \<Rightarrow> Some (s', x) | _ \<Rightarrow> None)"

lemma outcome_Some: "outcome m s = Some (s', x) \<longleftrightarrow> m s = Some (s', Inr x)"
  by (auto simp: outcome_def split: option.splits sum.splits)

lemma or_die_Inr: "or_die m s = Some (s', Inr x) \<longleftrightarrow> m s = Some (s', Inr x)"
  by (auto simp: or_die_def split: option.splits sum.splits)

lemma each_Inr:
  "each f xs s = Some (s', Inr ys) \<Longrightarrow> (\<And>x s s' y. f x s = Some (s', Inr y) \<Longrightarrow> R x y) \<Longrightarrow> list_all2 R xs ys"
proof (induction xs arbitrary: s s' ys)
  case Nil
  then show ?case by (simp add: ret_def)
next
  case (Cons x xs)
  from Cons.prems(1) obtain s1 y s2 zs where "f x s = Some (s1, Inr y)" "each f xs s1 = Some (s2, Inr zs)" "ys = y # zs"
    by (auto simp: andThen_Inr_iff ret_def)
  then show ?case using Cons by auto
qed

section \<open>A property of the state that every run keeps\<close>

text \<open>\<open>keeps P m\<close>: from a state with \<open>P\<close>, whatever the outcome, \<open>m\<close> ends in a state with \<open>P\<close>.\<close>

definition keeps :: "('s \<Rightarrow> bool) \<Rightarrow> ('s, 'e, 'a) prog \<Rightarrow> bool" where
  "keeps P m = (\<forall>s s' r. P s \<longrightarrow> m s = Some (s', r) \<longrightarrow> P s')"

lemma keepsD: "keeps P m \<Longrightarrow> P s \<Longrightarrow> m s = Some (s', r) \<Longrightarrow> P s'"
  by (auto simp: keeps_def)

lemma keeps_basic [intro!, simp]:
  "keeps P (ret x)" "keeps P (fail e)" "keeps P die" "keeps P (gets f)" "keeps P (of_sum r)"
  by (auto simp: keeps_def prog_defs)

lemma keeps_modify: "(\<And>s. P s \<Longrightarrow> P (f s)) \<Longrightarrow> keeps P (modify f)"
  by (auto simp: keeps_def modify_def)

lemma keeps_andThen [intro]:
  assumes "keeps P m" "\<And>x. keeps P (k x)"
  shows "keeps P (andThen m k)"
  unfolding keeps_def
proof (intro allI impI)
  fix s s' r assume "P s" and run: "andThen m k s = Some (s', r)"
  then obtain t q where m: "m s = Some (t, q)" by (cases "m s") (auto simp: andThen_def)
  have "P t" by (rule keepsD [OF assms(1) \<open>P s\<close> m])
  show "P s'"
  proof (cases q)
    case (Inl e)
    then show ?thesis using m run \<open>P t\<close> by (simp add: andThen_def)
  next
    case (Inr x)
    then have "k x t = Some (s', r)" using m run by (simp add: andThen_def)
    then show ?thesis by (rule keepsD [OF assms(2) \<open>P t\<close>])
  qed
qed

lemma keeps_attempt [intro]: "keeps P m \<Longrightarrow> keeps P (attempt m)"
  by (auto simp: keeps_def attempt_def split: option.splits)

lemma keeps_or_die [intro]: "keeps P m \<Longrightarrow> keeps P (or_die m)"
  by (auto simp: keeps_def or_die_def split: option.splits sum.splits)

lemma keeps_each [intro]: "(\<And>x. x \<in> set xs \<Longrightarrow> keeps P (f x)) \<Longrightarrow> keeps P (each f xs)"
  by (induction xs) auto

lemma keeps_zoom:
  "(\<And>s s' r. P s \<Longrightarrow> m (get s) = Some (s', r) \<Longrightarrow> P (put s' s)) \<Longrightarrow> keeps P (zoom get put m)"
  by (auto simp: keeps_def zoom_def split: option.splits)

lemma keeps_map_err [intro]: "keeps P m \<Longrightarrow> keeps P (map_err f m)"
  by (auto simp: keeps_def map_err_def split: option.splits)

lemma keeps_if [intro]: "(b \<Longrightarrow> keeps P m) \<Longrightarrow> (\<not> b \<Longrightarrow> keeps P n) \<Longrightarrow> keeps P (if b then m else n)"
  by simp

end
