(* ===== verification/Http_Client.thy ===== *)
theory Http_Client
  imports Go_Prog
begin

text \<open>
  The HTTP client of the collector (\<open>pkg/httpclient/http.go\<close>) and the machine it runs on: the
  files and the clock the collector reads, and the network, whose state is a parameter together
  with the transport (\<open>net/http\<close>'s \<open>Client.Do\<close>) and the decision of \<open>net/url\<close> which texts are
  URLs. Header maps are association lists, in the order the code writes them. Durations and
  instants are in nanoseconds. The log lines and the Prometheus metrics of a request are left out.
\<close>

record http_request =
  rq_Method :: string
  rq_URL :: string
  rq_Header :: "(string \<times> string) list"
  rq_Body :: string

text \<open>The transport answers a request with the time it took and, unless it failed, a status code
  with the body as far as it could be read.\<close>

record 'n http_client =
  hc_send :: "'n \<Rightarrow> http_request \<Rightarrow> 'n \<times> int \<times> (int \<times> string) option"
  hc_url_ok :: "string \<Rightarrow> bool"
  hc_uuid :: "nat \<Rightarrow> string"
  hc_rand :: "nat \<Rightarrow> nat \<Rightarrow> nat"

text \<open>Files are path to content and modification time; \<open>sy_writable\<close> tells where a write succeeds.\<close>

record 'n sys =
  sy_net :: 'n
  sy_files :: "string \<Rightarrow> (string \<times> int) option"
  sy_writable :: "string \<Rightarrow> bool"
  sy_now :: int
  sy_uuids :: nat
  sy_rands :: nat

definition os_ReadFile :: "'n sys \<Rightarrow> string \<Rightarrow> (string \<times> int) option" where
  "os_ReadFile y path = sy_files y path"

definition os_WriteFile :: "'n sys \<Rightarrow> string \<Rightarrow> string \<Rightarrow> 'n sys \<times> bool" where
  "os_WriteFile y path content =
     (if sy_writable y path then (y\<lparr>sy_files := (sy_files y)(path \<mapsto> (content, sy_now y))\<rparr>, True)
      else (y, False))"

definition time_Sleep :: "int \<Rightarrow> 'n sys \<Rightarrow> 'n sys" where
  "time_Sleep d y = y\<lparr>sy_now := sy_now y + max 0 d\<rparr>"

text \<open>\<open>time.Since\<close> saturates at the ends of the range of a duration.\<close>

definition time_Since :: "'n sys \<Rightarrow> int \<Rightarrow> int" where
  "time_Since y t = max (- (2 ^ 63)) (min (2 ^ 63 - 1) (sy_now y - t))"

definition new_uuid :: "'n http_client \<Rightarrow> 'n sys \<Rightarrow> 'n sys \<times> string" where
  "new_uuid hc y = (y\<lparr>sy_uuids := Suc (sy_uuids y)\<rparr>, hc_uuid hc (sy_uuids y))"

text \<open>\<open>rand.Int\<close> with the exclusive bound \<open>n\<close>.\<close>

definition rand_Int :: "'n http_client \<Rightarrow> 'n sys \<Rightarrow> nat \<Rightarrow> 'n sys \<times> int" where
  "rand_Int hc y n = (y\<lparr>sy_rands := Suc (sy_rands y)\<rparr>, int (hc_rand hc (sy_rands y) n mod n))"

section \<open>Requests\<close>

text \<open>A transport error has status code 0 and no body.\<close>

record http_result =
  hr_code :: int
  hr_body :: string
  hr_err :: bool

definition http_Do :: "'n http_client \<Rightarrow> http_request \<Rightarrow> 'n sys \<Rightarrow> 'n sys \<times> http_result" where
  "http_Do hc request y =
     (let (n, elapsed, resp) = hc_send hc (sy_net y) request;
          y' = y\<lparr>sy_net := n, sy_now := sy_now y + max 0 elapsed\<rparr>
      in case resp of
           None \<Rightarrow> (y', \<lparr>hr_code = 0, hr_body = [], hr_err = True\<rparr>)
         | Some (code, body) \<Rightarrow> (y', \<lparr>hr_code = code, hr_body = body, hr_err = False\<rparr>))"

text \<open>The URL comes from \<open>url.Parse\<close>, whose error the callers drop: for a text that is not a URL the
  pointer is nil, and \<open>Do\<close> dereferences it to label its timer.\<close>

definition http_method ::
  "'n http_client \<Rightarrow> string \<Rightarrow> string \<Rightarrow> (string \<times> string) list \<Rightarrow> string \<Rightarrow> ('n sys, 'e, http_result) prog" where
  "http_method hc method url header data y =
     (if hc_url_ok hc url
      then (let (y', r) = http_Do hc \<lparr>rq_Method = method, rq_URL = url, rq_Header = header, rq_Body = data\<rparr> y
            in Some (y', Inr r))
      else None)"

definition http_Post ::
  "'n http_client \<Rightarrow> string \<Rightarrow> (string \<times> string) list \<Rightarrow> string \<Rightarrow> ('n sys, 'e, http_result) prog" where
  "http_Post hc url header data = http_method hc ''POST'' url header data"

definition http_Get :: "'n http_client \<Rightarrow> string \<Rightarrow> (string \<times> string) list \<Rightarrow> ('n sys, 'e, http_result) prog" where
  "http_Get hc url header = http_method hc ''GET'' url header []"

definition http_Delete :: "'n http_client \<Rightarrow> string \<Rightarrow> (string \<times> string) list \<Rightarrow> ('n sys, 'e, http_result) prog" where
  "http_Delete hc url header = http_method hc ''DELETE'' url header []"

lemma http_method_cases:
  "http_method hc meth url header data y =
     (if hc_url_ok hc url
      then Some (fst (http_Do hc \<lparr>rq_Method = meth, rq_URL = url, rq_Header = header, rq_Body = data\<rparr> y),
                 Inr (snd (http_Do hc \<lparr>rq_Method = meth, rq_URL = url, rq_Header = header, rq_Body = data\<rparr> y)))
      else None)"
  by (simp add: http_method_def split: prod.splits)

lemma http_Do_frame [simp]:
  "sy_files (fst (http_Do hc r y)) = sy_files y" "sy_writable (fst (http_Do hc r y)) = sy_writable y"
  "sy_net (fst (http_Do hc r y)) = fst (hc_send hc (sy_net y) r)" "sy_now y \<le> sy_now (fst (http_Do hc r y))"
  by (auto simp: http_Do_def Let_def split: prod.splits option.splits)

section \<open>Encodings\<close>

definition b64_char :: "nat \<Rightarrow> char" where
  "b64_char n = (''ABCDEFGHIJKLMNOPQRSTUVWXYZabcdefghijklmnopqrstuvwxyz0123456789+/'' ! n)"

text \<open>\<open>base64.StdEncoding\<close>: three bytes to four characters, padded.\<close>

fun base64 :: "string \<Rightarrow> string" where
  "base64 (a # b # c # s) =
     b64_char (of_char a div 4) # b64_char (of_char a mod 4 * 16 + of_char b div 16) #
     b64_char (of_char b mod 16 * 4 + of_char c div 64) # b64_char (of_char c mod 64) # base64 s"
| "base64 [a, b] =
     [b64_char (of_char a div 4), b64_char (of_char a mod 4 * 16 + of_char b div 16),
      b64_char (of_char b mod 16 * 4), CHR ''='']"
| "base64 [a] = [b64_char (of_char a div 4), b64_char (of_char a mod 4 * 16), CHR ''='', CHR ''='']"
| "base64 [] = []"

definition upper_hex :: "nat \<Rightarrow> char" where
  "upper_hex n = (''0123456789ABCDEF'' ! n)"

text \<open>\<open>url.QueryEscape\<close>.\<close>

definition query_unreserved :: "char \<Rightarrow> bool" where
  "query_unreserved c = (is_digit c \<or> (CHR ''a'' \<le> c \<and> c \<le> CHR ''z'') \<or> (CHR ''A'' \<le> c \<and> c \<le> CHR ''Z'') \<or>
     c \<in> {CHR ''-'', CHR ''_'', CHR ''.'', CHR ''~''})"

definition query_escape :: "string \<Rightarrow> string" where
  "query_escape s = concat (map (\<lambda>c.
     if query_unreserved c then [c]
     else if c = CHR '' '' then ''+''
     else [CHR ''%'', upper_hex (of_char c div 16), upper_hex (of_char c mod 16)]) s)"

lemma base64_user_pass: "base64 ''user:pass'' = ''dXNlcjpwYXNz''"
  by code_simp

lemma query_escape_client: "query_escape ''appID:a b'' = ''appID%3Aa+b''"
  by code_simp

end
