(* ===== verification/Oauth.thy ===== *)
theory Oauth
  imports Http_Client Cache_Model Json_Struct "HOL-Library.Word"
begin

unbundle bit_operations_syntax

text \<open>
  Authentication against the token service (\<open>pkg/oauth/authenticate.go\<close>). A token is taken, in this
  order, from the cache the authenticator was built with, from a file named after the client and
  a hash of the scope, or from the service; a new token is cached for the next call.
\<close>

record Credentials =
  cr_AuthDisabled :: bool
  cr_TokenURL :: string
  cr_ClientID :: string
  cr_ClientSecret :: string
  cr_Scope :: string
  cr_AuthTimeoutMS :: int

record Token =
  tk_AccessToken :: string
  tk_ExpiresIn :: int
  tk_Scope :: string
  tk_TokenType :: string

definition tk_zero :: Token where
  "tk_zero = \<lparr>tk_AccessToken = [], tk_ExpiresIn = 0, tk_Scope = [], tk_TokenType = []\<rparr>"

text \<open>No field of a token is left out when empty.\<close>

definition str_always :: "string \<Rightarrow> ('s \<Rightarrow> string) \<Rightarrow> ((string \<Rightarrow> string) \<Rightarrow> 's \<Rightarrow> 's) \<Rightarrow> 's field" where
  "str_always n get upd = Field n (\<lambda>s. Some (JStr (get s)))
     (\<lambda>v s. apfst (\<lambda>x. upd (\<lambda>_. x) s) (dec_string v (get s)))"

definition int_always :: "string \<Rightarrow> ('s \<Rightarrow> int) \<Rightarrow> ((int \<Rightarrow> int) \<Rightarrow> 's \<Rightarrow> 's) \<Rightarrow> 's field" where
  "int_always n get upd = Field n (\<lambda>s. Some (JNum (dec_of_int (get s))))
     (\<lambda>v s. apfst (\<lambda>x. upd (\<lambda>_. x) s) (dec_int v (get s)))"

definition token_fields :: "Token fields" where
  "token_fields =
     [str_always ''access_token'' tk_AccessToken tk_AccessToken_update,
      int_always ''expires_in'' tk_ExpiresIn tk_ExpiresIn_update,
      str_always ''scope'' tk_Scope tk_Scope_update,
      str_always ''token_type'' tk_TokenType tk_TokenType_update]"

definition unmarshal_token :: "string \<Rightarrow> Token \<times> bool" where
  "unmarshal_token bytes =
     (case json_parse bytes of None \<Rightarrow> (tk_zero, False) | Some v \<Rightarrow> dec_struct token_fields v tk_zero)"

definition marshal_token :: "Token \<Rightarrow> string" where
  "marshal_token t = json_str (enc_struct token_fields t)"

text \<open>\<open>json.MarshalIndent\<close> with an indent of two blanks, for an object without nested values.\<close>

fun indent_members :: "obj \<Rightarrow> string" where
  "indent_members [] = []"
| "indent_members ((k, v) # kvs) =
     CHR 0x0A # ''  '' @ quote k @ '': '' @ json_str v @ (if kvs = [] then [CHR 0x0A] else CHR '','' # indent_members kvs)"

definition indent_token :: "Token \<Rightarrow> string" where
  "indent_token t = ''{'' @ indent_members (enc_fields token_fields t) @ ''}''"

text \<open>The cache is an interface value, the operations of its implementation with its state. \<open>Set\<close>
  reports whether it succeeded; \<open>Get\<close> answers with the JSON text of what was stored.\<close>

record 'c token_cache =
  kc_Get :: "'c \<Rightarrow> string \<Rightarrow> string option \<times> 'c"
  kc_Set :: "'c \<Rightarrow> string \<Rightarrow> string \<Rightarrow> int \<Rightarrow> 'c \<times> bool"
  kc_state :: 'c

record 'c Authenticator =
  au_config :: Credentials
  au_token :: "Token option"
  au_Cache :: "'c token_cache option"
  au_timeoutMs :: int

datatype auth_error = ServerSaid string | TokenJson

section \<open>Keys and headers\<close>

text \<open>\<open>fnv.New32a\<close>.\<close>

definition hash :: "string \<Rightarrow> 32 word" where
  "hash s = fold (\<lambda>c h. (h XOR of_nat (of_char c)) * 16777619) s 2166136261"

definition TokenCacheKey :: "'c Authenticator \<Rightarrow> string" where
  "TokenCacheKey a =
     ''.tokens/token.'' @ replace_all (cr_ClientID (au_config a)) '':'' ''-'' @ ''.'' @
     nat_str (unat (hash (cr_Scope (au_config a)))) @ ''.cache''"

definition auth_Header :: "string \<Rightarrow> string \<Rightarrow> (string \<times> string) list" where
  "auth_Header clientId clientSecret =
     [(''Authorization'', ''Basic '' @ base64 (clientId @ '':'' @ clientSecret)),
      (''Content-Type'', ''application/x-www-form-urlencoded'')]"

section \<open>Operations\<close>

text \<open>The state is the authenticator with the machine.\<close>

type_synonym ('c, 'n, 'a) auth_prog = "('c Authenticator \<times> 'n sys, auth_error, 'a) prog"

definition SetToken :: "Token option \<Rightarrow> 'c Authenticator \<Rightarrow> 'c Authenticator" where
  "SetToken t a = a\<lparr>au_token := t\<rparr>"

definition DefaultTimeoutMS :: int where
  "DefaultTimeoutMS = 5000"

definition auth_body :: "Credentials \<Rightarrow> string" where
  "auth_body c = ''grant_type=client_credentials&scope='' @ cr_Scope c"

definition GenerateToken :: "'n http_client \<Rightarrow> ('c, 'n, Token) auth_prog" where
  "GenerateToken hc =
     andThen (modify (apfst (SetToken None))) (\<lambda>_.
     andThen (modify (apfst (\<lambda>a. a\<lparr>au_timeoutMs :=
                (if 0 < cr_AuthTimeoutMS (au_config a) then cr_AuthTimeoutMS (au_config a) else DefaultTimeoutMS)\<rparr>))) (\<lambda>_.
     andThen (gets (au_config \<circ> fst)) (\<lambda>c.
     andThen (zoom snd (\<lambda>y (a, _). (a, y))
                (http_Post hc (cr_TokenURL c)
                   (auth_Header (query_escape (cr_ClientID c)) (query_escape (cr_ClientSecret c))) (auth_body c))) (\<lambda>r.
       if hr_err r \<or> 300 \<le> hr_code r then fail (ServerSaid (hr_body r))
       else (let (t, ok) = unmarshal_token (hr_body r)
             in if ok then andThen (modify (apfst (SetToken (Some t)))) (\<lambda>_. ret t)
                else fail TokenJson)))))"

definition IsCachedTokenValid :: "'c token_cache \<Rightarrow> string \<Rightarrow> ('c, 'n, bool) auth_prog" where
  "IsCachedTokenValid kc key =
     (let (v, c') = kc_Get kc (kc_state kc) key;
          store = modify (apfst (\<lambda>a. a\<lparr>au_Cache := Some (kc\<lparr>kc_state := c'\<rparr>)\<rparr>))
      in andThen store (\<lambda>_.
           case v of
             None \<Rightarrow> ret False
           | Some text \<Rightarrow>
               (let (t, ok) = unmarshal_token text
                in if ok \<and> tk_AccessToken t \<noteq> []
                   then andThen (modify (apfst (SetToken (Some t)))) (\<lambda>_. ret True)
                   else ret False)))"

definition second :: int where
  "second = 1000000000"

definition isFileTokenValid :: "string \<Rightarrow> ('c, 'n, bool) auth_prog" where
  "isFileTokenValid key =
     andThen (gets snd) (\<lambda>y.
       case os_ReadFile y key of
         None \<Rightarrow> ret False
       | Some (source, mtime) \<Rightarrow>
           (let (t, ok) = unmarshal_token source
            in if \<not> ok \<or> tk_AccessToken t = [] then ret False
               else if wrap64 (tk_ExpiresIn t * second) < time_Since y mtime then ret False
               else andThen (modify (apfst (SetToken (Some t)))) (\<lambda>_. ret True)))"

definition isTokenValid :: "('c, 'n, bool) auth_prog" where
  "isTokenValid =
     andThen (gets fst) (\<lambda>a.
       case au_Cache a of
         None \<Rightarrow> isFileTokenValid (TokenCacheKey a)
       | Some kc \<Rightarrow> andThen (IsCachedTokenValid kc (TokenCacheKey a)) (\<lambda>valid.
                     if valid then ret True else isFileTokenValid (TokenCacheKey a)))"

text \<open>The time to live the cache gets: the life of the token less ten seconds and a random drift.\<close>

definition cache_expiration :: "Token \<Rightarrow> int \<Rightarrow> int" where
  "cache_expiration t drift = wrap64 (wrap64 (wrap64 (tk_ExpiresIn t - 10) - drift) * second)"

definition write_token :: "string \<Rightarrow> Token \<Rightarrow> ('c, 'n, unit) auth_prog" where
  "write_token key t = modify (apsnd (\<lambda>y. fst (os_WriteFile y key (indent_token t))))"

text \<open>Without a token there is nothing to cache but the text \<open>null\<close>; \<open>CacheToken\<close> then dereferences
  the nil pointer when there is a cache.\<close>

definition CacheToken :: "'n http_client \<Rightarrow> ('c, 'n, unit) auth_prog" where
  "CacheToken hc =
     andThen (gets fst) (\<lambda>a.
       (let key = TokenCacheKey a
        in case au_Cache a of
             None \<Rightarrow> (case au_token a of
                         Some t \<Rightarrow> write_token key t
                       | None \<Rightarrow> modify (apsnd (\<lambda>y. fst (os_WriteFile y key ''null''))))
           | Some kc \<Rightarrow>
               (case au_token a of
                  None \<Rightarrow> die
                | Some t \<Rightarrow>
                    andThen (gets (\<lambda>(_, y). rand_Int hc y 60)) (\<lambda>(y', drift).
                      (let (c', ok) = kc_Set kc (kc_state kc) key (marshal_token t) (cache_expiration t drift)
                       in andThen (modify (\<lambda>(a, _). (a\<lparr>au_Cache := Some (kc\<lparr>kc_state := c'\<rparr>)\<rparr>, y'))) (\<lambda>_.
                            if ok then ret () else write_token key t))))))"

definition Authenticate :: "'n http_client \<Rightarrow> ('c, 'n, Token) auth_prog" where
  "Authenticate hc =
     andThen (gets fst) (\<lambda>a.
       if cr_AuthDisabled (au_config a) then ret tk_zero
       else andThen isTokenValid (\<lambda>valid.
         if valid then andThen (gets (au_token \<circ> fst)) (\<lambda>t. case t of Some t \<Rightarrow> ret t | None \<Rightarrow> die)
         else andThen (GenerateToken hc) (\<lambda>_.
              andThen (CacheToken hc) (\<lambda>_.
              andThen (gets (au_token \<circ> fst)) (\<lambda>t. case t of Some t \<Rightarrow> ret t | None \<Rightarrow> die)))))"

definition NewAuthenticatorWithCache :: "Credentials \<Rightarrow> 'c token_cache option \<Rightarrow> 'c Authenticator" where
  "NewAuthenticatorWithCache config cache =
     \<lparr>au_config = config, au_token = None, au_Cache = cache, au_timeoutMs = cr_AuthTimeoutMS config\<rparr>"

definition NewAuthenticator :: "Credentials \<Rightarrow> 'c Authenticator" where
  "NewAuthenticator config = NewAuthenticatorWithCache config None"

section \<open>Reading back the token file\<close>

lemma pval_blank: "pval n (CHR '' '' # s) = pval n s"
  by (cases n) simp_all

lemma delim_newline [simp]: "delim (CHR 0x0A # r)"
  by (simp add: delim_def is_digit_def)

lemma pmems_indent:
  "\<forall>kv \<in> set kvs. json_ok (snd kv) \<Longrightarrow> kvs \<noteq> [] \<Longrightarrow> fuelm kvs \<le> n \<Longrightarrow>
   pmems n (indent_members kvs @ CHR ''}'' # r) = Some (kvs, r)"
proof (induction kvs arbitrary: n)
  case (Cons kv kvs)
  obtain k v where kv: "kv = (k, v)" by (cases kv)
  from Cons.prems kv obtain m where m: "n = Suc m" "fuel v \<le> m" "fuelm kvs \<le> m" by (cases n) auto
  have v: "pval m (CHR '' '' # json_str v @ t) = Some (v, t)" if "delim t" for t
    using Cons.prems kv m that pval_json_str(1) [of v t m] by (simp add: pval_blank)
  show ?case
  proof (cases "kvs = []")
    case True
    then show ?thesis using m v kv by (simp add: quote_def has_prefix_def parse_chars_esc_str)
  next
    case False
    then have "pmems m (indent_members kvs @ CHR ''}'' # r) = Some (kvs, r)" using Cons m by simp
    then show ?thesis using False m v kv by (simp add: quote_def has_prefix_def parse_chars_esc_str)
  qed
qed simp

lemma json_ok_int: "in_int64 i \<Longrightarrow> json_ok (JNum (dec_of_int i))"
  by (auto simp: in_int64_def dec_of_int_def)

lemmas token_field_defs = token_fields_def str_always_def int_always_def

lemma json_parse_indent:
  assumes "in_int64 (tk_ExpiresIn t)"
  shows "json_parse (indent_token t) = Some (enc_struct token_fields t)"
proof -
  let ?kvs = "enc_fields token_fields t"
  have ok: "\<forall>kv \<in> set ?kvs. json_ok (snd kv)" and ne: "?kvs \<noteq> []" and f: "fuelm ?kvs = 8"
    using json_ok_int [OF assms] by (simp_all add: token_field_defs)
  have "length (indent_token t) \<ge> 8" by (simp add: indent_token_def token_field_defs)
  then obtain m where m: "2 * length (indent_token t) + 2 = Suc m" "8 \<le> m" by (cases "2 * length (indent_token t) + 2") auto
  have "pmems m (indent_members ?kvs @ CHR ''}'' # []) = Some (?kvs, [])"
    using ok ne f m(2) by (intro pmems_indent) auto
  moreover have "\<not> has_prefix (skip_ws (indent_members ?kvs @ ''}'')) ''}''"
    by (simp add: token_field_defs has_prefix_def quote_def)
  ultimately have "pval (Suc m) (indent_token t) = Some (JObj ?kvs, [])"
    by (simp add: indent_token_def)
  then show ?thesis unfolding json_parse_def m(1) by (simp del: pval.simps add: enc_struct_def)
qed

lemma dec_enc_token:
  "in_int64 (tk_ExpiresIn t) \<Longrightarrow> dec_struct token_fields (enc_struct token_fields t) tk_zero = (t, True)"
  by (simp add: enc_struct_def dec_struct_def dec_members_def dec_member_def find_field_def token_field_defs
      dec_string_def dec_int_def equal_fold_def to_lower_def tk_zero_def dec_of_int_def)

lemma unmarshal_indent_token: "in_int64 (tk_ExpiresIn t) \<Longrightarrow> unmarshal_token (indent_token t) = (t, True)"
  by (simp add: unmarshal_token_def json_parse_indent dec_enc_token)

lemma dec_member_token_ok:
  "in_int64 (tk_ExpiresIn (fst s)) \<Longrightarrow> in_int64 (tk_ExpiresIn (fst (dec_member token_fields kv s)))"
  by (auto simp: dec_member_def find_field_def token_field_defs dec_int_def apfst_def map_prod_def
      split: option.splits if_splits json.splits prod.splits)

lemma unmarshal_token_ok: "in_int64 (tk_ExpiresIn (fst (unmarshal_token bytes)))"
proof -
  have "in_int64 (tk_ExpiresIn (fst (fold (dec_member token_fields) kvs s)))"
    if "in_int64 (tk_ExpiresIn (fst s))" for kvs s
    using that by (induction kvs arbitrary: s) (auto simp: dec_member_token_ok)
  then show ?thesis
    by (auto simp: unmarshal_token_def dec_struct_def dec_members_def tk_zero_def in_int64_def split: option.splits json.splits)
qed

section \<open>Authentication without a cache\<close>

text \<open>The reference reading of the token file: the token it holds while it is young enough.\<close>

definition token_on_disk :: "'n sys \<Rightarrow> string \<Rightarrow> Token option" where
  "token_on_disk y key =
     (case sy_files y key of
        None \<Rightarrow> None
      | Some (source, mtime) \<Rightarrow>
          (let (t, ok) = unmarshal_token source
           in if ok \<and> tk_AccessToken t \<noteq> [] \<and> time_Since y mtime \<le> wrap64 (tk_ExpiresIn t * second)
              then Some t else None))"

lemma isFileTokenValid_eval:
  "isFileTokenValid key (a, y) =
     (case token_on_disk y key of
        None \<Rightarrow> Some ((a, y), Inr False)
      | Some t \<Rightarrow> Some ((SetToken (Some t) a, y), Inr True))"
  by (auto simp: isFileTokenValid_def token_on_disk_def os_ReadFile_def prog_simps Let_def
      split: option.splits prod.splits)

definition token_request :: "Credentials \<Rightarrow> http_request" where
  "token_request c = \<lparr>rq_Method = ''POST'', rq_URL = cr_TokenURL c,
     rq_Header = auth_Header (query_escape (cr_ClientID c)) (query_escape (cr_ClientSecret c)), rq_Body = auth_body c\<rparr>"

lemma GenerateToken_eval:
  "GenerateToken hc (a, y) =
     (let a' = a\<lparr>au_token := None, au_timeoutMs := (if 0 < cr_AuthTimeoutMS (au_config a)
                 then cr_AuthTimeoutMS (au_config a) else DefaultTimeoutMS)\<rparr>;
          (y', r) = http_Do hc (token_request (au_config a)) y
      in if \<not> hc_url_ok hc (cr_TokenURL (au_config a)) then None
         else if hr_err r \<or> 300 \<le> hr_code r then Some ((a', y'), Inl (ServerSaid (hr_body r)))
         else (let (t, ok) = unmarshal_token (hr_body r)
               in if ok then Some ((a'\<lparr>au_token := Some t\<rparr>, y'), Inr t) else Some ((a', y'), Inl TokenJson)))"
  by (auto simp: GenerateToken_def andThen_def prog_simps zoom_def http_Post_def http_method_cases token_request_def
      SetToken_def Let_def split: prod.splits option.splits)

lemma CacheToken_eval:
  "au_Cache a = None \<Longrightarrow> au_token a = Some t \<Longrightarrow>
   CacheToken hc (a, y) = Some ((a, fst (os_WriteFile y (TokenCacheKey a) (indent_token t))), Inr ())"
  by (simp add: CacheToken_def andThen_def prog_simps write_token_def)

lemma TokenCacheKey_upd [simp]:
  "TokenCacheKey (a\<lparr>au_token := t\<rparr>) = TokenCacheKey a" "TokenCacheKey (a\<lparr>au_timeoutMs := n\<rparr>) = TokenCacheKey a"
  "TokenCacheKey (SetToken t a) = TokenCacheKey a"
  by (simp_all add: TokenCacheKey_def SetToken_def)

section \<open>Properties\<close>

lemma Authenticate_hit:
  "\<not> cr_AuthDisabled (au_config a) \<Longrightarrow> au_Cache a = None \<Longrightarrow> token_on_disk y (TokenCacheKey a) = Some t \<Longrightarrow>
   Authenticate hc (a, y) = Some ((SetToken (Some t) a, y), Inr t)"
  by (simp add: Authenticate_def isTokenValid_def andThen_def prog_simps isFileTokenValid_eval SetToken_def)

lemma Authenticate_miss:
  assumes "\<not> cr_AuthDisabled (au_config a)" "au_Cache a = None" "token_on_disk y (TokenCacheKey a) = None"
  shows "Authenticate hc (a, y) =
     (case GenerateToken hc (a, y) of
        None \<Rightarrow> None
      | Some (s, Inl e) \<Rightarrow> Some (s, Inl e)
      | Some ((a', y'), Inr t) \<Rightarrow>
          Some ((a', fst (os_WriteFile y' (TokenCacheKey a) (indent_token t))), Inr t))"
  using assms
  by (auto simp: Authenticate_def isTokenValid_def andThen_def prog_simps isFileTokenValid_eval GenerateToken_eval
      CacheToken_eval Let_def split: prod.splits)

text \<open>An authenticator without a cache, as every component of the collector builds it, answers a
  call in one of these ways. With a token on disk that is younger than its life, it returns that token
  and changes nothing else on the machine. Otherwise it sends exactly one request to the token
  service: a failed request or a status of 300 and above is an error with the text of the response,
  a body that is not a token is an error, and a token is written to the token file and returned.\<close>

lemma authenticate_answers:
  assumes "\<not> cr_AuthDisabled (au_config a)" "au_Cache a = None" "hc_url_ok hc (cr_TokenURL (au_config a))"
  shows "\<exists>a' y' r. Authenticate hc (a, y) = Some ((a', y'), r) \<and>
     (case token_on_disk y (TokenCacheKey a) of
        Some t \<Rightarrow> r = Inr t \<and> y' = y
      | None \<Rightarrow>
          (let (y1, resp) = http_Do hc (token_request (au_config a)) y
           in if hr_err resp \<or> 300 \<le> hr_code resp then r = Inl (ServerSaid (hr_body resp)) \<and> y' = y1
              else if \<not> snd (unmarshal_token (hr_body resp)) then r = Inl TokenJson \<and> y' = y1
              else r = Inr (fst (unmarshal_token (hr_body resp))) \<and>
                   y' = fst (os_WriteFile y1 (TokenCacheKey a) (indent_token (fst (unmarshal_token (hr_body resp)))))))"
proof (cases "token_on_disk y (TokenCacheKey a)")
  case None
  obtain y1 resp where r: "http_Do hc (token_request (au_config a)) y = (y1, resp)" by (metis surj_pair)
  obtain t ok where t: "unmarshal_token (hr_body resp) = (t, ok)" by (metis surj_pair)
  show ?thesis
    using assms(3) by (simp add: Authenticate_miss [OF assms(1,2) None] GenerateToken_eval None r t Let_def)
next
  case (Some t)
  then show ?thesis using Authenticate_hit [OF assms(1,2) Some] by simp
qed

text \<open>C23. A token the service issued is reused: once an authenticator has written it to its file, every
  authenticator with the same client and scope returns this very token for as long as the token
  lives, without a request and without touching a file.\<close>

theorem token_is_reused:
  assumes first: "Authenticate hc (a, y) = Some ((a1, y1), Inr t)"
    and conf: "\<not> cr_AuthDisabled (au_config a)" "au_Cache a = None" "\<not> cr_AuthDisabled (au_config b)" "au_Cache b = None"
    and key: "cr_ClientID (au_config b) = cr_ClientID (au_config a)" "cr_Scope (au_config b) = cr_Scope (au_config a)"
    and fresh: "token_on_disk y (TokenCacheKey a) = None" "tk_AccessToken t \<noteq> []"
    and disk: "sy_writable y (TokenCacheKey a)" "sy_files y2 (TokenCacheKey a) = sy_files y1 (TokenCacheKey a)"
    and life: "tk_ExpiresIn t * second < 2 ^ 63" "0 \<le> sy_now y2 - sy_now y1"
              "sy_now y2 - sy_now y1 \<le> tk_ExpiresIn t * second"
  shows "Authenticate hc' (b, y2) = Some ((SetToken (Some t) b, y2), Inr t)"
proof -
  have kb: "TokenCacheKey b = TokenCacheKey a" using key by (simp add: TokenCacheKey_def)
  obtain y' where gen: "y1 = fst (os_WriteFile y' (TokenCacheKey a) (indent_token t))" "sy_writable y' = sy_writable y"
    and ok: "in_int64 (tk_ExpiresIn t)"
    using first unmarshal_token_ok
    by (auto simp: Authenticate_miss [OF conf(1,2) fresh(1)] GenerateToken_eval Let_def
        split: option.splits prod.splits if_splits) (metis fst_conv http_Do_frame(2))+
  then have stored: "sy_files y2 (TokenCacheKey a) = Some (indent_token t, sy_now y1)"
    using disk by (auto simp: os_WriteFile_def)
  have "time_Since y2 (sy_now y1) \<le> wrap64 (tk_ExpiresIn t * second)"
    using life by (subst wrap64_id) (auto simp: time_Since_def in_int64_def)
  then have "token_on_disk y2 (TokenCacheKey b) = Some t"
    using stored fresh(2) by (simp add: kb token_on_disk_def unmarshal_indent_token [OF ok])
  then show ?thesis using conf by (intro Authenticate_hit) auto
qed

definition ex_cred :: Credentials where
  "ex_cred = \<lparr>cr_AuthDisabled = False, cr_TokenURL = ''http://t/token'', cr_ClientID = ''appID:x'', cr_ClientSecret = ''s'',
     cr_Scope = ''log'', cr_AuthTimeoutMS = 0\<rparr>"

definition ex_token :: Token where
  "ex_token = \<lparr>tk_AccessToken = ''abc'', tk_ExpiresIn = 900, tk_Scope = ''log'', tk_TokenType = ''bearer''\<rparr>"

text \<open>A service that issues this token at every request and counts its requests.\<close>

definition ex_hc :: "nat http_client" where
  "ex_hc = \<lparr>hc_send = (\<lambda>n r. (Suc n, 5, Some (200, indent_token ex_token))), hc_url_ok = (\<lambda>_. True),
     hc_uuid = (\<lambda>_. ''u''), hc_rand = (\<lambda>_ _. 0)\<rparr>"

definition ex_sys :: "nat sys" where
  "ex_sys = \<lparr>sy_net = 0, sy_files = (\<lambda>_. None), sy_writable = (\<lambda>_. True), sy_now = 0, sy_uuids = 0, sy_rands = 0\<rparr>"

definition ex_auth :: "unit Authenticator" where
  "ex_auth = NewAuthenticator ex_cred"

lemma ex_auth_simps:
  "au_config ex_auth = ex_cred" "au_Cache ex_auth = None" "\<not> cr_AuthDisabled ex_cred" "hc_url_ok ex_hc s"
  "token_on_disk ex_sys k = None" "sy_writable ex_sys k"
  by (simp_all add: ex_auth_def NewAuthenticator_def NewAuthenticatorWithCache_def ex_cred_def ex_hc_def ex_sys_def token_on_disk_def)

lemma ex_token_ok: "in_int64 (tk_ExpiresIn ex_token)"
  by (simp add: ex_token_def in_int64_def)

lemma ex_Do: "http_Do ex_hc r ex_sys =
    (ex_sys\<lparr>sy_net := 1, sy_now := 5\<rparr>, \<lparr>hr_code = 200, hr_body = indent_token ex_token, hr_err = False\<rparr>)"
  by (simp add: http_Do_def ex_hc_def ex_sys_def)

lemma ex_Authenticate:
  "\<exists>a1. Authenticate ex_hc (ex_auth, ex_sys) =
     Some ((a1, fst (os_WriteFile (ex_sys\<lparr>sy_net := 1, sy_now := 5\<rparr>) (TokenCacheKey ex_auth) (indent_token ex_token))), Inr ex_token)"
  by (simp add: Authenticate_miss ex_auth_simps GenerateToken_eval ex_Do unmarshal_indent_token [OF ex_token_ok])

lemma authenticate_answers_example:
  "\<exists>a' y'. Authenticate ex_hc (ex_auth, ex_sys) = Some ((a', y'), Inr ex_token)"
  using authenticate_answers [of ex_auth ex_hc ex_sys]
  by (auto simp: ex_auth_simps ex_Do unmarshal_indent_token [OF ex_token_ok])

theorem token_is_reused_witness:
  "\<exists>a1 y1. Authenticate ex_hc (ex_auth, ex_sys) = Some ((a1, y1), Inr ex_token) \<and>
           Authenticate ex_hc (ex_auth, time_Sleep (899 * second) y1) =
             Some ((SetToken (Some ex_token) ex_auth, time_Sleep (899 * second) y1), Inr ex_token)"
proof -
  obtain a1 where run: "Authenticate ex_hc (ex_auth, ex_sys) =
      Some ((a1, fst (os_WriteFile (ex_sys\<lparr>sy_net := 1, sy_now := 5\<rparr>) (TokenCacheKey ex_auth) (indent_token ex_token))), Inr ex_token)"
    using ex_Authenticate by blast
  show ?thesis using run token_is_reused [OF run, of ex_auth "time_Sleep (899 * second) _" ex_hc]
    by (auto simp: ex_auth_simps time_Sleep_def second_def ex_token_def)
qed

section \<open>The local cache as token cache\<close>

definition local_token_cache :: "ttl_cache \<Rightarrow> ttl_cache token_cache" where
  "local_token_cache c = \<lparr>kc_Get = local_Get, kc_Set = (\<lambda>c k v ttl. (local_Set c k v ttl, True)), kc_state = c\<rparr>"

lemma local_ttl_negative:
  assumes "ttl \<le> 0" "ttl \<noteq> DefaultTTL"
  shows "fst (local_Get ((local_Set c k v ttl)\<lparr>tc_clock := clock, tc_tick := n\<rparr>) k) = Some v"
  using assms
  by (auto simp: local_Get_def local_Set_def ttl_get_def ttl_set_def newItem_def touch_def isExpired_def NoTTL_def Let_def)

lemma cache_expiration_short:
  assumes "tk_ExpiresIn t \<le> 10" "- 1000000 \<le> tk_ExpiresIn t" "0 \<le> drift" "drift < 60"
  shows "cache_expiration t drift \<le> 0 \<and> cache_expiration t drift \<noteq> DefaultTTL"
proof -
  have "wrap64 (tk_ExpiresIn t - 10) = tk_ExpiresIn t - 10" using assms by (simp add: wrap64_id in_int64_def)
  moreover have "wrap64 (tk_ExpiresIn t - 10 - drift) = tk_ExpiresIn t - 10 - drift"
    using assms by (simp add: wrap64_id in_int64_def)
  moreover have "wrap64 ((tk_ExpiresIn t - 10 - drift) * second) = (tk_ExpiresIn t - 10 - drift) * second"
    using assms by (simp add: wrap64_id in_int64_def second_def)
  ultimately have "cache_expiration t drift = (tk_ExpiresIn t - 10 - drift) * second"
    by (simp add: cache_expiration_def)
  moreover have "tk_ExpiresIn t - 10 - drift \<le> 0" using assms by simp
  ultimately show ?thesis
    by (cases "tk_ExpiresIn t - 10 - drift = 0") (auto simp: second_def DefaultTTL_def)
qed

text \<open>A token that lives ten seconds or less is cached forever by an authenticator with a local
  cache: the time to live computed for it is zero or negative, which the cache takes for none, so a
  lookup returns the token at every later instant, long after the service stopped accepting it.\<close>

lemma short_token_never_expires:
  assumes "au_Cache a = Some (local_token_cache c)" "au_token a = Some t"
    and "tk_ExpiresIn t \<le> 10" "- 1000000 \<le> tk_ExpiresIn t"
  shows "\<exists>a' y' c'. CacheToken hc (a, y) = Some ((a', y'), Inr ()) \<and> au_Cache a' = Some (local_token_cache c') \<and>
           (\<forall>clock n. fst (local_Get (c'\<lparr>tc_clock := clock, tc_tick := n\<rparr>) (TokenCacheKey a)) = Some (marshal_token t))"
proof -
  let ?drift = "snd (rand_Int hc y 60)"
  let ?c = "local_Set c (TokenCacheKey a) (marshal_token t) (cache_expiration t ?drift)"
  have "0 \<le> ?drift" "?drift < 60" by (simp_all add: rand_Int_def)
  then have "cache_expiration t ?drift \<le> 0 \<and> cache_expiration t ?drift \<noteq> DefaultTTL"
    using cache_expiration_short assms(3,4) by blast
  then have "fst (local_Get (?c\<lparr>tc_clock := clock, tc_tick := n\<rparr>) (TokenCacheKey a)) = Some (marshal_token t)" for clock n
    using local_ttl_negative by blast
  moreover have "CacheToken hc (a, y) =
      Some ((a\<lparr>au_Cache := Some (local_token_cache ?c)\<rparr>, fst (rand_Int hc y 60)), Inr ())"
    using assms(1,2)
    by (simp add: CacheToken_def andThen_def prog_simps local_token_cache_def Let_def split: prod.splits)
  ultimately show ?thesis by (metis Authenticator.select_convs(3) Authenticator.surjective Authenticator.update_convs(3))
qed

lemma short_token_never_expires_example:
  "\<exists>a' y' c'. CacheToken ex_hc ((NewAuthenticatorWithCache ex_cred (Some (local_token_cache (NewLocalCache 60 (\<lambda>i. int i)))))
        \<lparr>au_token := Some (ex_token\<lparr>tk_ExpiresIn := 10\<rparr>)\<rparr>, ex_sys) = Some ((a', y'), Inr ()) \<and>
     au_Cache a' = Some (local_token_cache c') \<and>
     (\<forall>clock n. fst (local_Get (c'\<lparr>tc_clock := clock, tc_tick := n\<rparr>) (TokenCacheKey ex_auth)) =
        Some (marshal_token (ex_token\<lparr>tk_ExpiresIn := 10\<rparr>)))"
proof -
  let ?a = "(NewAuthenticatorWithCache ex_cred (Some (local_token_cache (NewLocalCache 60 (\<lambda>i. int i)))))
        \<lparr>au_token := Some (ex_token\<lparr>tk_ExpiresIn := 10\<rparr>)\<rparr>"
  have "TokenCacheKey ?a = TokenCacheKey ex_auth"
    by (simp add: TokenCacheKey_def ex_auth_def NewAuthenticator_def NewAuthenticatorWithCache_def)
  then show ?thesis
    using short_token_never_expires [of ?a "NewLocalCache 60 (\<lambda>i. int i)" "ex_token\<lparr>tk_ExpiresIn := 10\<rparr>" ex_hc ex_sys]
    by (simp add: NewAuthenticatorWithCache_def)
qed

end
