(* ===== verification/Log_Fetcher.thy ===== *)
theory Log_Fetcher
  imports Oauth Event_Schema Go_Time
begin

text \<open>
  The fetcher of the Mix log API (\<open>pkg/log_fetchers/mix_log_api/fetcher.go\<close>, types in
  \<open>pkg/log_fetchers/types/types.go\<close>): it creates a consumer per partition, positions it, and starts
  a partition fetcher for it. Every call authenticates first and sends one request; the
  operations are programs over the state of the fetcher, which holds the authenticator, the
  machine and the pipeline.
\<close>

section \<open>Types of the log API\<close>

record Consumer =
  co_Group :: string
  co_Name :: string
  co_Partition :: int

record Partition =
  pa_Topic :: string
  pa_Partition :: string

record PartitionsResponse =
  pr_Topic :: string
  pr_Partitions :: "int list"

record Offset =
  of_Topic :: string
  of_Partition :: int
  of_Offset :: int

record OffsetRangeResponse =
  or_BeginningOffset :: int
  or_EndOffset :: int

record OffsetDetails =
  od_Topic :: string
  od_Partition :: int
  od_CurrentOffset :: int
  od_BeginningOffset :: int
  od_EndOffset :: int

text \<open>Slices: a value of the wrong type inside is reported, the element keeps its zero value.\<close>

definition dec_list :: "(json \<Rightarrow> 'a \<times> bool) \<Rightarrow> json \<Rightarrow> 'a list \<Rightarrow> 'a list \<times> bool" where
  "dec_list d v old =
     (case v of
        JArr xs \<Rightarrow> (map (\<lambda>x. fst (d x)) xs, list_all (\<lambda>x. snd (d x)) xs)
      | JNull \<Rightarrow> ([], True)
      | _ \<Rightarrow> (old, False))"

definition list_always ::
  "string \<Rightarrow> ('a \<Rightarrow> json) \<Rightarrow> (json \<Rightarrow> 'a \<times> bool) \<Rightarrow> ('s \<Rightarrow> 'a list) \<Rightarrow> (('a list \<Rightarrow> 'a list) \<Rightarrow> 's \<Rightarrow> 's) \<Rightarrow> 's field" where
  "list_always n e d get upd = Field n (\<lambda>s. Some (JArr (map e (get s))))
     (\<lambda>v s. apfst (\<lambda>x. upd (\<lambda>_. x) s) (dec_list d v (get s)))"

definition Partition_fields :: "Partition fields" where
  "Partition_fields =
     [str_field ''topic'' pa_Topic pa_Topic_update, str_field ''partition'' pa_Partition pa_Partition_update]"

definition PartitionsResponse_fields :: "PartitionsResponse fields" where
  "PartitionsResponse_fields =
     [str_always ''topic'' pr_Topic pr_Topic_update,
      list_always ''partitions'' (\<lambda>i. JNum (dec_of_int i)) (\<lambda>v. dec_int v 0) pr_Partitions pr_Partitions_update]"

definition Offset_fields :: "Offset fields" where
  "Offset_fields =
     [str_always ''topic'' of_Topic of_Topic_update,
      int_always ''partition'' of_Partition of_Partition_update,
      int_always ''offset'' of_Offset of_Offset_update]"

definition of_zero :: Offset where
  "of_zero = \<lparr>of_Topic = [], of_Partition = 0, of_Offset = 0\<rparr>"

definition Offsets_fields :: "Offset list fields" where
  "Offsets_fields =
     [list_always ''offsets'' (enc_struct Offset_fields) (\<lambda>v. dec_struct Offset_fields v of_zero) id id]"

definition OffsetRangeResponse_fields :: "OffsetRangeResponse fields" where
  "OffsetRangeResponse_fields =
     [int_always ''beginning_offset'' or_BeginningOffset or_BeginningOffset_update,
      int_always ''end_offset'' or_EndOffset or_EndOffset_update]"

definition decode :: "'s fields \<Rightarrow> 's \<Rightarrow> string \<Rightarrow> 's \<times> bool" where
  "decode fs zero bytes = (case json_parse bytes of None \<Rightarrow> (zero, False) | Some v \<Rightarrow> dec_struct fs v zero)"

text \<open>The struct \<open>Partitions\<close> with its one slice, which is never empty where it is printed.\<close>

definition partitions_json :: "string \<Rightarrow> int \<Rightarrow> json" where
  "partitions_json topic part =
     JObj [(''partitions'', JArr [enc_struct Partition_fields \<lparr>pa_Topic = topic, pa_Partition = itoa part\<rparr>])]"

section \<open>State\<close>

record Config =
  cf_Credentials :: Credentials
  cf_ApiUrl :: string
  cf_ConnectTimeoutMs :: int
  cf_RateLimit :: "int option"
  cf_MaxRetries :: int
  cf_Delay :: int
  cf_RecordCheckFrequency :: int
  cf_ClientName :: string
  cf_ConsumerGroupID :: string
  cf_ConsumerOptions :: "obj option"
  cf_Partitions :: "dec list"

record gauge =
  ga_Name :: string
  ga_Value :: int
  ga_Labels :: "string list"

text \<open>The type parameters are the states of the network and of the pipeline writer.\<close>

record ('n, 'p) LogFetcher =
  lf_name :: string
  lf_cfg :: Config
  lf_Authenticator :: "unit Authenticator"
  lf_groupName :: string
  lf_consumers :: "Consumer list"
  lf_subscription :: "Consumer option"
  lf_topic :: string
  lf_clientName :: string
  lf_timeoutMs :: int
  lf_offsetReset :: string
  lf_autoCommitEnabled :: bool
  lf_Partitions :: "int list"
  lf_partitionFetchers :: "Consumer list"
  lf_wait :: nat
  lf_writer :: 'p
  lf_sys :: "'n sys"
  lf_gauges :: "gauge list"

datatype fetch_error = AuthErr auth_error | HttpErr | ApiSaid string | ApiStatus int string | BadBody | NotCached string

type_synonym ('n, 'p, 'a) fetch_prog = "(('n, 'p) LogFetcher, fetch_error, 'a) prog"

section \<open>Configuration\<close>

definition DefaultConfig :: Config where
  "DefaultConfig =
     \<lparr>cf_Credentials = \<lparr>cr_AuthDisabled = False, cr_TokenURL = ''https://auth.crt.nuance.com/oauth2/token'',
        cr_ClientID = [], cr_ClientSecret = [], cr_Scope = ''log'', cr_AuthTimeoutMS = 5000\<rparr>,
      cf_ApiUrl = ''https://log.api.nuance.com'', cf_ConnectTimeoutMs = 60000, cf_RateLimit = None,
      cf_MaxRetries = -1, cf_Delay = 5, cf_RecordCheckFrequency = 10, cf_ClientName = ''neap'',
      cf_ConsumerGroupID = ''01'', cf_ConsumerOptions = Some [(''auto.offset.reset'', JStr ''latest'')],
      cf_Partitions = []\<rparr>"

definition getValueFromEnv :: "(string \<Rightarrow> string option) \<Rightarrow> string \<Rightarrow> string \<Rightarrow> string" where
  "getValueFromEnv env name defaultVal = (case env name of Some val \<Rightarrow> val | None \<Rightarrow> defaultVal)"

text \<open>The YAML library is a parameter: it merges the text of the file into the defaults, or fails. A
  file that cannot be read leaves the defaults.\<close>

definition loadConfigFromFile ::
  "(string \<Rightarrow> Config \<Rightarrow> Config option) \<Rightarrow> (string \<Rightarrow> string option) \<Rightarrow> string option \<Rightarrow> Config option" where
  "loadConfigFromFile yaml env content =
     do { yml \<leftarrow> (case content of None \<Rightarrow> Some DefaultConfig | Some text \<Rightarrow> yaml text DefaultConfig);
          (let cr = cf_Credentials yml;
               cr' = cr\<lparr>cr_ClientID := getValueFromEnv env ''ELC_CLIENT_ID'' (cr_ClientID cr),
                        cr_ClientSecret := getValueFromEnv env ''ELC_CLIENT_SECRET'' (cr_ClientSecret cr),
                        cr_TokenURL := getValueFromEnv env ''ELC_TOKEN_URL'' (cr_TokenURL cr)\<rparr>
           in Some (yml\<lparr>cf_Credentials := cr',
                        cf_ApiUrl := getValueFromEnv env ''ELC_API_URL'' (cf_ApiUrl yml),
                        cf_ConsumerGroupID := getValueFromEnv env ''ELC_CONSUMER_GROUP_ID'' (cf_ConsumerGroupID yml)\<rparr>)) }"

text \<open>A map built by assignments: a repeated key keeps its last value.\<close>

fun pairs :: "string list \<Rightarrow> (string \<times> string) list" where
  "pairs (k # v # arr) = (k, v) # pairs arr"
| "pairs _ = []"

definition parseClientID :: "string \<Rightarrow> string \<Rightarrow> string option" where
  "parseClientID clientID = map_of (rev (pairs (split_on (CHR '':'') clientID)))"

text \<open>\<^term>\<open>None\<close> is the panic of the type assertion on \<open>auto.offset.reset\<close>.\<close>

definition NewLogFetcher ::
  "string \<Rightarrow> Config \<Rightarrow> 'p \<Rightarrow> 'n sys \<Rightarrow> ('n, 'p) LogFetcher option" where
  "NewLogFetcher name cfg w y =
     do { offsetReset \<leftarrow> (case Option.bind (cf_ConsumerOptions cfg) (\<lambda>m. obj_get m ''auto.offset.reset'') of
                            None \<Rightarrow> Some [] | Some (JStr s) \<Rightarrow> Some s | Some _ \<Rightarrow> None);
          (let autoCommit = (case Option.bind (cf_ConsumerOptions cfg) (\<lambda>m. obj_get m ''auto.commit.enable'') of
                               Some (JBool b) \<Rightarrow> b | _ \<Rightarrow> False);
               parts = parseClientID (cr_ClientID (cf_Credentials cfg));
               appID = (case parts ''appID'' of Some v \<Rightarrow> v | None \<Rightarrow> []);
               clientName = (case parts ''clientName'' of Some v \<Rightarrow> v | None \<Rightarrow> cf_ClientName cfg)
           in Some \<lparr>lf_name = name, lf_cfg = cfg, lf_Authenticator = NewAuthenticator (cf_Credentials cfg),
                lf_groupName = ''appID-'' @ appID @ ''-clientName-'' @ clientName @ ''-'' @ cf_ConsumerGroupID cfg,
                lf_consumers = [], lf_subscription = None, lf_topic = appID, lf_clientName = clientName,
                lf_timeoutMs = (if cf_ConnectTimeoutMs cfg \<le> 0 then 60000 else cf_ConnectTimeoutMs cfg),
                lf_offsetReset = offsetReset, lf_autoCommitEnabled = autoCommit, lf_Partitions = [],
                lf_partitionFetchers = [], lf_wait = 0, lf_writer = w, lf_sys = y, lf_gauges = []\<rparr>) }"

section \<open>Requests\<close>

definition lf_Authenticate :: "'n http_client \<Rightarrow> ('n, 'p, Token) fetch_prog" where
  "lf_Authenticate hc = map_err AuthErr
     (zoom (\<lambda>f. (lf_Authenticator f, lf_sys f)) (\<lambda>(a, y) f. f\<lparr>lf_Authenticator := a, lf_sys := y\<rparr>) (Authenticate hc))"

definition fetch_header :: "('n, 'p) LogFetcher \<Rightarrow> Token \<Rightarrow> string \<Rightarrow> (string \<times> string) list" where
  "fetch_header f token name =
     (if tk_AccessToken token = []
      then [(''Content-Type'', ''application/json''), (''consumer-group'', lf_groupName f), (''consumer-name'', name),
            (''x-nuance-client-id'', cr_ClientID (cf_Credentials (lf_cfg f)))]
      else [(''Authorization'', tk_TokenType token @ '' '' @ tk_AccessToken token), (''Content-Type'', ''application/json''),
            (''consumer-group'', lf_groupName f), (''consumer-name'', name)])"

definition parseURL :: "('n, 'p) LogFetcher \<Rightarrow> string \<Rightarrow> string" where
  "parseURL f apiPath = cf_ApiUrl (lf_cfg f) @ apiPath"

definition lf_Post :: "'n http_client \<Rightarrow> string \<Rightarrow> Token \<Rightarrow> string \<Rightarrow> string \<Rightarrow> ('n, 'p, http_result) fetch_prog" where
  "lf_Post hc path token name data =
     andThen (gets (\<lambda>f. (parseURL f path, fetch_header f token name))) (\<lambda>(url, header).
       zoom lf_sys (\<lambda>y f. f\<lparr>lf_sys := y\<rparr>) (http_Post hc url header data))"

definition lf_Get :: "'n http_client \<Rightarrow> string \<Rightarrow> Token \<Rightarrow> string \<Rightarrow> ('n, 'p, http_result) fetch_prog" where
  "lf_Get hc path token name =
     andThen (gets (\<lambda>f. (parseURL f path, fetch_header f token name))) (\<lambda>(url, header).
       zoom lf_sys (\<lambda>y f. f\<lparr>lf_sys := y\<rparr>) (http_Get hc url header))"

definition lf_uuid :: "'n http_client \<Rightarrow> ('n, 'p, string) fetch_prog" where
  "lf_uuid hc =
     andThen (gets (\<lambda>f. new_uuid hc (lf_sys f))) (\<lambda>(y, uid). andThen (modify (\<lambda>f. f\<lparr>lf_sys := y\<rparr>)) (\<lambda>_. ret uid))"

definition createConsumer :: "'n http_client \<Rightarrow> ('n, 'p, Consumer) fetch_prog" where
  "createConsumer hc =
     andThen (lf_Authenticate hc) (\<lambda>token.
     andThen (gets (\<lambda>f. case cf_ConsumerOptions (lf_cfg f) of Some m \<Rightarrow> json_str (JObj m) | None \<Rightarrow> ''null'')) (\<lambda>data.
     andThen (lf_uuid hc) (\<lambda>uid.
     andThen (gets (\<lambda>f. \<lparr>co_Group = lf_groupName f, co_Name = ''consumer-'' @ uid, co_Partition = -1\<rparr>)) (\<lambda>consumer.
     andThen (modify (\<lambda>f. f\<lparr>lf_consumers := lf_consumers f @ [consumer]\<rparr>)) (\<lambda>_.
     andThen (lf_Post hc ''/consumers'' token (co_Name consumer) data) (\<lambda>r.
       if hr_err r then fail HttpErr
       else if hr_code r = 204 then ret consumer
       else fail (ApiSaid (hr_body r))))))))"

definition createSubscription :: "'n http_client \<Rightarrow> Consumer \<Rightarrow> ('n, 'p, Consumer) fetch_prog" where
  "createSubscription hc consumer =
     andThen (lf_Authenticate hc) (\<lambda>token.
     andThen (gets (\<lambda>f. json_str (JObj [(''topics'', JArr [JStr (lf_topic f)])]))) (\<lambda>data.
     andThen (lf_Post hc ''/consumers/subscription'' token (co_Name consumer) data) (\<lambda>r.
       if hr_err r then fail HttpErr
       else if hr_code r = 204 then ret consumer
       else fail (ApiSaid (hr_body r)))))"

definition getPartitions :: "'n http_client \<Rightarrow> Consumer \<Rightarrow> ('n, 'p, int list) fetch_prog" where
  "getPartitions hc consumer =
     andThen (lf_Authenticate hc) (\<lambda>token.
     andThen (lf_Get hc ''/partitions'' token (co_Name consumer)) (\<lambda>r.
       if hr_err r then fail HttpErr
       else if hr_code r = 200 then
         (let (resp, ok) = decode PartitionsResponse_fields \<lparr>pr_Topic = [], pr_Partitions = []\<rparr> (hr_body r)
          in if ok then ret (pr_Partitions resp) else fail BadBody)
       else fail (ApiSaid (hr_body r))))"

text \<open>The first cached consumer with the name gets the partition.\<close>

fun assign_cached :: "string \<Rightarrow> int \<Rightarrow> Consumer list \<Rightarrow> (Consumer list \<times> Consumer) option" where
  "assign_cached name part [] = None"
| "assign_cached name part (entry # cs) =
     (if co_Name entry = name
      then Some (entry\<lparr>co_Partition := part\<rparr> # cs, entry\<lparr>co_Partition := part\<rparr>)
      else map_option (apfst (Cons entry)) (assign_cached name part cs))"

definition assignPartitionToConsumer :: "'n http_client \<Rightarrow> int \<Rightarrow> Consumer \<Rightarrow> ('n, 'p, Consumer) fetch_prog" where
  "assignPartitionToConsumer hc part consumer =
     andThen (lf_Authenticate hc) (\<lambda>token.
     andThen (gets (\<lambda>f. json_str (partitions_json (lf_topic f) part))) (\<lambda>data.
     andThen (lf_Post hc ''/consumers/assignments'' token (co_Name consumer) data) (\<lambda>r.
       if hr_err r then fail HttpErr
       else if hr_code r = 204 then
         andThen (gets (\<lambda>f. assign_cached (co_Name consumer) part (lf_consumers f))) (\<lambda>found.
           case found of
             None \<Rightarrow> fail (NotCached (co_Name consumer))
           | Some (cs, entry) \<Rightarrow> andThen (modify (\<lambda>f. f\<lparr>lf_consumers := cs\<rparr>)) (\<lambda>_. ret entry))
       else fail (ApiSaid (hr_body r)))))"

definition getOffsetRange :: "'n http_client \<Rightarrow> Consumer \<Rightarrow> int \<Rightarrow> ('n, 'p, OffsetRangeResponse) fetch_prog" where
  "getOffsetRange hc consumer part =
     andThen (lf_Authenticate hc) (\<lambda>token.
     andThen (lf_Get hc (''/partitions/'' @ itoa part @ ''/offsets'') token (co_Name consumer)) (\<lambda>r.
       if hr_err r then fail HttpErr
       else if 300 \<le> hr_code r then fail (ApiStatus (hr_code r) (hr_body r))
       else (let (resp, ok) = decode OffsetRangeResponse_fields \<lparr>or_BeginningOffset = 0, or_EndOffset = 0\<rparr> (hr_body r)
             in if ok then ret resp else fail BadBody)))"

text \<open>The argument \<open>partition\<close> of the source is not used: the request names the consumer's.\<close>

definition getCurrentOffset :: "'n http_client \<Rightarrow> Consumer \<Rightarrow> int \<Rightarrow> ('n, 'p, Offset) fetch_prog" where
  "getCurrentOffset hc consumer part =
     andThen (lf_Authenticate hc) (\<lambda>token.
     andThen (gets lf_topic) (\<lambda>topic.
     andThen (lf_Post hc ''/consumers/committed/offsets'' token (co_Name consumer)
                (json_str (partitions_json topic (co_Partition consumer)))) (\<lambda>r.
       if hr_err r then fail HttpErr
       else if 300 \<le> hr_code r then fail (ApiStatus (hr_code r) (hr_body r))
       else (let (offsets, ok) = decode Offsets_fields [] (hr_body r);
                 offsets' = (if offsets = [] then [\<lparr>of_Topic = topic, of_Partition = 0, of_Offset = 0\<rparr>] else offsets)
             in if ok then ret (hd offsets') else fail BadBody))))"

definition getOffsetDetails :: "'n http_client \<Rightarrow> Consumer \<Rightarrow> ('n, 'p, OffsetDetails) fetch_prog" where
  "getOffsetDetails hc consumer =
     andThen (getOffsetRange hc consumer (co_Partition consumer)) (\<lambda>offsetRange.
     andThen (getCurrentOffset hc consumer (co_Partition consumer)) (\<lambda>currentOffset.
       ret \<lparr>od_Topic = of_Topic currentOffset, od_Partition = of_Partition currentOffset,
            od_CurrentOffset =
              (if of_Offset currentOffset < or_BeginningOffset offsetRange then or_BeginningOffset offsetRange
               else if or_EndOffset offsetRange < of_Offset currentOffset then or_EndOffset offsetRange
               else of_Offset currentOffset),
            od_BeginningOffset = or_BeginningOffset offsetRange, od_EndOffset = or_EndOffset offsetRange\<rparr>))"

definition logOffsetDetails :: "OffsetDetails \<Rightarrow> ('n, 'p, unit) fetch_prog" where
  "logOffsetDetails offset =
     (let labels = [od_Topic offset, itoa (od_Partition offset)];
          behind = wrap64 (od_EndOffset offset - od_CurrentOffset offset)
      in modify (\<lambda>f. f\<lparr>lf_gauges := lf_gauges f @
           [\<lparr>ga_Name = ''ConsumerOffsetLowGauge'', ga_Value = od_BeginningOffset offset, ga_Labels = labels\<rparr>,
            \<lparr>ga_Name = ''ConsumerOffsetHighGauge'', ga_Value = od_EndOffset offset, ga_Labels = labels\<rparr>,
            \<lparr>ga_Name = ''ConsumerOffsetCurrentGauge'', ga_Value = od_CurrentOffset offset, ga_Labels = labels\<rparr>] @
           (if 0 \<le> behind then [\<lparr>ga_Name = ''ConsumerOffsetBehindGauge'', ga_Value = behind, ga_Labels = labels\<rparr>] else [])\<rparr>))"

definition seekFirstOffset :: "'n http_client \<Rightarrow> Consumer \<Rightarrow> ('n, 'p, unit) fetch_prog" where
  "seekFirstOffset hc consumer =
     andThen (lf_Authenticate hc) (\<lambda>token.
     andThen (gets (\<lambda>f. json_str (partitions_json (lf_topic f) (co_Partition consumer)))) (\<lambda>data.
     andThen (lf_Post hc ''/consumers/positions/beginning'' token (co_Name consumer) data) (\<lambda>r.
       if hr_err r then fail HttpErr
       else if hr_code r = 204 then ret ()
       else fail (ApiSaid (hr_body r)))))"

definition seekLastOffset :: "'n http_client \<Rightarrow> Consumer \<Rightarrow> ('n, 'p, unit) fetch_prog" where
  "seekLastOffset hc consumer =
     andThen (lf_Authenticate hc) (\<lambda>token.
     andThen (gets (\<lambda>f. json_str (partitions_json (lf_topic f) (co_Partition consumer)))) (\<lambda>data.
     andThen (lf_Post hc ''/consumers/positions/end'' token (co_Name consumer) data) (\<lambda>r.
       if hr_err r then fail HttpErr
       else if hr_code r = 204 then ret ()
       else fail (ApiSaid (hr_body r)))))"

definition commitOffset :: "'n http_client \<Rightarrow> Consumer \<Rightarrow> int \<Rightarrow> ('n, 'p, unit) fetch_prog" where
  "commitOffset hc consumer offset =
     andThen (lf_Authenticate hc) (\<lambda>token.
     andThen (gets (\<lambda>f. json_str (enc_struct Offsets_fields
                [\<lparr>of_Topic = lf_topic f, of_Partition = co_Partition consumer, of_Offset = offset\<rparr>]))) (\<lambda>data.
     andThen (lf_Post hc ''/consumers/offsets'' token (co_Name consumer) data) (\<lambda>r.
       if hr_err r then fail HttpErr
       else if hr_code r < 300 then ret ()
       else fail (ApiSaid (hr_body r)))))"

section \<open>Start and Stop\<close>

definition ResetPartitionConsumer :: "'n http_client \<Rightarrow> int \<Rightarrow> ('n, 'p, Consumer) fetch_prog" where
  "ResetPartitionConsumer hc part =
     andThen (createConsumer hc) (assignPartitionToConsumer hc part)"

text \<open>The errors of \<open>commitOffset\<close> and of the seeks are dropped; an error of the last
  \<open>getOffsetDetails\<close> kills the process.\<close>

definition createPartitionFetcher :: "'n http_client \<Rightarrow> int \<Rightarrow> ('n, 'p, Consumer) fetch_prog" where
  "createPartitionFetcher hc part =
     andThen (ResetPartitionConsumer hc part) (\<lambda>consumer.
     andThen (gets lf_offsetReset) (\<lambda>offsetReset.
     andThen (if offsetReset = ''earliest'' then
                andThen (getOffsetDetails hc consumer) (\<lambda>offsetDetails.
                andThen (attempt (commitOffset hc consumer (od_BeginningOffset offsetDetails))) (\<lambda>_.
                andThen (attempt (seekFirstOffset hc consumer)) (\<lambda>_. ret ())))
              else if offsetReset = ''latest'' then
                andThen (getOffsetDetails hc consumer) (\<lambda>offsetDetails.
                andThen (attempt (commitOffset hc consumer (od_EndOffset offsetDetails))) (\<lambda>_.
                andThen (attempt (seekLastOffset hc consumer)) (\<lambda>_. ret ())))
              else ret ()) (\<lambda>_.
     andThen (or_die (getOffsetDetails hc consumer)) (\<lambda>offsetDetails.
     andThen (logOffsetDetails offsetDetails) (\<lambda>_. ret consumer)))))"

text \<open>The loop runs over the indices of the slice of partitions. The partition fetchers it starts run
  on their own from then on and are modelled in the theory of the partition fetcher.\<close>

definition Start :: "'n http_client \<Rightarrow> ('n, 'p, unit) fetch_prog" where
  "Start hc =
     andThen (or_die (createConsumer hc)) (\<lambda>consumer.
     andThen (or_die (createSubscription hc consumer)) (\<lambda>subscription.
     andThen (modify (\<lambda>f. f\<lparr>lf_subscription := Some subscription\<rparr>)) (\<lambda>_.
     andThen (or_die (getPartitions hc consumer)) (\<lambda>partitions.
     andThen (modify (\<lambda>f. f\<lparr>lf_Partitions := partitions, lf_gauges := lf_gauges f @
                [\<lparr>ga_Name = ''PartitionTotalGauge'', ga_Value = int (length partitions),
                  ga_Labels = [lf_name f, lf_topic f, lf_groupName f, co_Name consumer]\<rparr>]\<rparr>)) (\<lambda>_.
     andThen (each (\<lambda>p. andThen (modify (\<lambda>f. f\<lparr>lf_wait := Suc (lf_wait f)\<rparr>)) (\<lambda>_.
                          or_die (createPartitionFetcher hc p)))
                (map int [0..<length partitions])) (\<lambda>pfs.
     modify (\<lambda>f. f\<lparr>lf_partitionFetchers := pfs\<rparr>)))))))"

section \<open>Properties\<close>

lemma pairs_concat: "pairs (concat (map (\<lambda>(k, v). [k, v]) kvs)) = kvs"
  by (induction kvs) auto

text \<open>A client identifier made of names and values separated by colons, as in
  \<open>appID:x:geo:us:clientName:y\<close>, is parsed into exactly those names with those values (the last
  one, should a name be repeated), provided no part contains a colon itself.\<close>

lemma parseClientID_pairs:
  assumes "kvs \<noteq> []" "\<And>k v. (k, v) \<in> set kvs \<Longrightarrow> CHR '':'' \<notin> set k \<and> CHR '':'' \<notin> set v"
  shows "parseClientID (join_with (CHR '':'') (concat (map (\<lambda>(k, v). [k, v]) kvs))) = map_of (rev kvs)"
proof -
  have "split_on (CHR '':'') (join_with (CHR '':'') (concat (map (\<lambda>(k, v). [k, v]) kvs))) =
      concat (map (\<lambda>(k, v). [k, v]) kvs)"
    using assms by (intro split_join) (auto simp: neq_Nil_conv)
  then show ?thesis by (simp add: parseClientID_def pairs_concat)
qed

lemma parseClientID_pairs_example:
  "parseClientID ''appID:a:clientName:b'' = map_of (rev [(''appID'', ''a''), (''clientName'', ''b'')])"
proof -
  have "CHR '':'' \<notin> set k \<and> CHR '':'' \<notin> set v" if "(k, v) \<in> set [(''appID'', ''a''), (''clientName'', ''b'')]" for k v
    using that by auto
  then show ?thesis using parseClientID_pairs [of "[(''appID'', ''a''), (''clientName'', ''b'')]"] by simp
qed

text \<open>The offset reported for a partition lies between its first and its last offset, whatever the
  service says about the committed one, and it is the committed one when that is in range; so the
  backlog that is reported as a gauge is never negative.\<close>

lemma offset_details_in_range:
  assumes run: "getOffsetDetails hc consumer f = Some (f', Inr od)"
    and range: "od_BeginningOffset od \<le> od_EndOffset od"
  shows "od_BeginningOffset od \<le> od_CurrentOffset od \<and> od_CurrentOffset od \<le> od_EndOffset od \<and>
    (\<exists>f1 f2 r cur. getOffsetRange hc consumer (co_Partition consumer) f = Some (f1, Inr r) \<and>
       getCurrentOffset hc consumer (co_Partition consumer) f1 = Some (f2, Inr cur) \<and>
       (or_BeginningOffset r \<le> of_Offset cur \<and> of_Offset cur \<le> or_EndOffset r \<longrightarrow> od_CurrentOffset od = of_Offset cur))"
proof -
  from run obtain f1 r f2 cur where
    "getOffsetRange hc consumer (co_Partition consumer) f = Some (f1, Inr r)"
    "getCurrentOffset hc consumer (co_Partition consumer) f1 = Some (f2, Inr cur)"
    and od: "od = \<lparr>od_Topic = of_Topic cur, od_Partition = of_Partition cur,
            od_CurrentOffset =
              (if of_Offset cur < or_BeginningOffset r then or_BeginningOffset r
               else if or_EndOffset r < of_Offset cur then or_EndOffset r else of_Offset cur),
            od_BeginningOffset = or_BeginningOffset r, od_EndOffset = or_EndOffset r\<rparr>"
    unfolding getOffsetDetails_def andThen_Inr_iff by (auto simp: ret_def)
  then show ?thesis using range by auto
qed

section \<open>Which partitions are fetched\<close>

lemma assign_cached_partition:
  "assign_cached name p cs = Some (cs', entry) \<Longrightarrow> co_Partition entry = p"
  by (induction cs arbitrary: cs') (auto split: if_splits)

lemma assignPartition_result:
  "assignPartitionToConsumer hc p c f = Some (f', Inr entry) \<Longrightarrow> co_Partition entry = p"
  by (auto simp: assignPartitionToConsumer_def andThen_Inr_iff fail_def ret_def gets_def
      split: if_splits option.splits dest: assign_cached_partition)

lemma createPartitionFetcher_partition:
  assumes "createPartitionFetcher hc p f = Some (f', Inr c)"
  shows "co_Partition c = p"
proof -
  obtain f1 where "ResetPartitionConsumer hc p f = Some (f1, Inr c)"
    using assms unfolding createPartitionFetcher_def by (auto simp: andThen_Inr_iff ret_def)
  then show ?thesis by (auto simp: ResetPartitionConsumer_def andThen_Inr_iff dest: assignPartition_result)
qed

lemma keeps_Authenticate: "(\<And>f a y. P f \<Longrightarrow> P (f\<lparr>lf_Authenticator := a, lf_sys := y\<rparr>)) \<Longrightarrow> keeps P (lf_Authenticate hc)"
  by (auto simp: lf_Authenticate_def intro!: keeps_map_err keeps_zoom)

text \<open>A predicate that does not look at the machine, the authenticator, the cached consumers and the
  gauges is kept by everything a partition fetcher is created with.\<close>

definition coarse :: "(('n, 'p) LogFetcher \<Rightarrow> bool) \<Rightarrow> bool" where
  "coarse P = (\<forall>f. P f \<longrightarrow> (\<forall>a y. P (f\<lparr>lf_Authenticator := a, lf_sys := y\<rparr>)) \<and> (\<forall>y. P (f\<lparr>lf_sys := y\<rparr>)) \<and>
     (\<forall>cs. P (f\<lparr>lf_consumers := cs\<rparr>)) \<and> (\<forall>gs. P (f\<lparr>lf_gauges := gs\<rparr>)))"

lemma coarseD:
  assumes "coarse P" "P f"
  shows "P (f\<lparr>lf_Authenticator := a, lf_sys := y\<rparr>)" "P (f\<lparr>lf_sys := y\<rparr>)" "P (f\<lparr>lf_consumers := cs\<rparr>)" "P (f\<lparr>lf_gauges := gs\<rparr>)"
  using assms by (auto simp: coarse_def)

lemma keeps_requests:
  assumes "coarse P"
  shows "keeps P (lf_Authenticate hc)" "keeps P (lf_Post hc path token name data)" "keeps P (lf_Get hc path token name)"
    "keeps P (lf_uuid hc)" "keeps P (modify (\<lambda>f. f\<lparr>lf_consumers := cs f\<rparr>))" "keeps P (logOffsetDetails od)"
  using coarseD [OF assms]
  by (auto simp: lf_Post_def lf_Get_def lf_uuid_def logOffsetDetails_def Let_def split: prod.splits
      intro!: keeps_Authenticate keeps_andThen keeps_zoom keeps_modify)

lemmas fetch_op_defs = createConsumer_def createSubscription_def getPartitions_def assignPartitionToConsumer_def
  getOffsetRange_def getCurrentOffset_def getOffsetDetails_def seekFirstOffset_def seekLastOffset_def
  commitOffset_def ResetPartitionConsumer_def

lemma keeps_ops:
  assumes "coarse P"
  shows "keeps P (createConsumer hc)" "keeps P (assignPartitionToConsumer hc p c)" "keeps P (getOffsetRange hc c p)"
    "keeps P (getCurrentOffset hc c p)" "keeps P (seekFirstOffset hc c)" "keeps P (seekLastOffset hc c)"
    "keeps P (commitOffset hc c i)"
  unfolding fetch_op_defs
  by (auto simp: Let_def split: prod.splits option.splits intro!: keeps_andThen keeps_requests [OF assms])

lemma keeps_createPartitionFetcher:
  assumes "coarse P"
  shows "keeps P (createPartitionFetcher hc p)"
  unfolding createPartitionFetcher_def getOffsetDetails_def ResetPartitionConsumer_def
  by (intro keeps_andThen keeps_if keeps_attempt keeps_or_die keeps_basic keeps_ops [OF assms] keeps_requests [OF assms])

lemma keeps_Partitions:
  "keeps (\<lambda>f. lf_Partitions f = ps) (each (\<lambda>p. andThen (modify (\<lambda>f. f\<lparr>lf_wait := Suc (lf_wait f)\<rparr>)) (\<lambda>_.
       or_die (createPartitionFetcher hc p))) xs)"
proof -
  have "coarse (\<lambda>f. lf_Partitions f = ps)" by (simp add: coarse_def)
  then show ?thesis by (intro keeps_each keeps_andThen keeps_or_die keeps_createPartitionFetcher keeps_modify) auto
qed

text \<open>\<open>Start\<close> creates one partition fetcher per partition the service listed, but it fetches the
  partitions numbered from 0 on, whatever numbers were listed: the loop hands its index to
  \<open>createPartitionFetcher\<close>, not the partition at that index.\<close>

lemma Start_fetches_indices:
  fixes f :: "('n, 'p) LogFetcher"
  assumes "Start hc f = Some (f', Inr ())"
  shows "map co_Partition (lf_partitionFetchers f') = map int [0..<length (lf_Partitions f')]"
proof -
  obtain ps pfs and s1 s2 :: "('n, 'p) LogFetcher" where
    run: "each (\<lambda>p. andThen (modify (\<lambda>f. f\<lparr>lf_wait := Suc (lf_wait f)\<rparr>)) (\<lambda>_.
       or_die (createPartitionFetcher hc p))) (map int [0..<length ps]) s1 = Some (s2, Inr pfs)"
    and f': "f' = s2\<lparr>lf_partitionFetchers := pfs\<rparr>" and s1: "lf_Partitions s1 = (ps :: int list)"
    using assms unfolding Start_def andThen_Inr_iff by (auto simp: modify_def)
  have "list_all2 (\<lambda>p c. co_Partition c = p) (map int [0..<length ps]) pfs"
    using run by (rule each_Inr) (auto simp: andThen_Inr_iff or_die_Inr dest: createPartitionFetcher_partition)
  moreover have "lf_Partitions f' = ps" using keepsD [OF keeps_Partitions s1 run] f' by simp
  ultimately show ?thesis unfolding f' by (auto simp: list_all2_conv_all_nth intro: nth_equalityI)
qed

text \<open>A service with the partitions 5 and 7.\<close>

definition ex_api :: "http_request \<Rightarrow> int \<times> string" where
  "ex_api r =
     (if has_suffix (rq_URL r) ''/partitions'' then (200, ''{\"topic\":\"t\",\"partitions\":[5,7]}'')
      else if rq_Method r = ''GET'' then (200, ''{\"beginning_offset\":3,\"end_offset\":9}'')
      else if has_suffix (rq_URL r) ''/committed/offsets'' then (200, ''{\"offsets\":[]}'')
      else (204, []))"

definition ex_api_hc :: "http_request list http_client" where
  "ex_api_hc = \<lparr>hc_send = (\<lambda>n r. (n @ [r], 1, Some (ex_api r))), hc_url_ok = (\<lambda>_. True),
     hc_uuid = (\<lambda>i. itoa (int i)), hc_rand = (\<lambda>_ _. 0)\<rparr>"

definition ex_api_sys :: "http_request list sys" where
  "ex_api_sys = \<lparr>sy_net = [], sy_files = (\<lambda>_. None), sy_writable = (\<lambda>_. True), sy_now = 0, sy_uuids = 0, sy_rands = 0\<rparr>"

definition ex_fetcher :: "(http_request list, string list) LogFetcher" where
  "ex_fetcher = the (NewLogFetcher ''f''
     (DefaultConfig\<lparr>cf_Credentials := ex_cred\<lparr>cr_AuthDisabled := True\<rparr>\<rparr>) [] ex_api_sys)"

definition ex_Start_ok :: bool where
  "ex_Start_ok = (case outcome (Start ex_api_hc) ex_fetcher of Some (f', _) \<Rightarrow> lf_Partitions f' = [5, 7] | None \<Rightarrow> False)"

lemma ex_Start: "ex_Start_ok"
  by code_simp

lemma Start_fetches_indices_example:
  "\<exists>f'. Start ex_api_hc ex_fetcher = Some (f', Inr ()) \<and> lf_Partitions f' = [5, 7] \<and>
        map co_Partition (lf_partitionFetchers f') = [0, 1]"
proof -
  obtain f' where f': "Start ex_api_hc ex_fetcher = Some (f', Inr ())" "lf_Partitions f' = [5, 7]"
    using ex_Start by (auto simp: ex_Start_ok_def outcome_Some split: option.splits)
  then show ?thesis using Start_fetches_indices [OF f'(1)] by simp
qed

definition ex_consumer :: Consumer where
  "ex_consumer = \<lparr>co_Group = ''g'', co_Name = ''c'', co_Partition = 0\<rparr>"

definition ex_details_ok :: bool where
  "ex_details_ok = (case outcome (getOffsetDetails ex_api_hc ex_consumer) ex_fetcher of
     Some (f', od) \<Rightarrow> od_BeginningOffset od = 3 \<and> od_EndOffset od = 9 | None \<Rightarrow> False)"

lemma ex_details: "ex_details_ok"
  by code_simp

lemma offset_details_in_range_example:
  "\<exists>f' od. getOffsetDetails ex_api_hc ex_consumer ex_fetcher = Some (f', Inr od) \<and>
     od_EndOffset od = 9 \<and> 3 \<le> od_CurrentOffset od \<and> od_CurrentOffset od \<le> 9"
proof -
  obtain f' od where r: "getOffsetDetails ex_api_hc ex_consumer ex_fetcher = Some (f', Inr od)"
    "od_BeginningOffset od = 3" "od_EndOffset od = 9"
    using ex_details by (auto simp: ex_details_ok_def outcome_Some split: option.splits)
  then show ?thesis using offset_details_in_range [OF r(1)] by auto
qed

end
