(* ===== verification/Partition_Fetcher.thy ===== *)
theory Partition_Fetcher
  imports Log_Fetcher Base_Worker
begin

text \<open>
  The partition fetcher (\<open>pkg/log_fetchers/mix_log_api/partition_fetcher.go\<close>): a loop that fetches
  batches of records from the log API, and a handler that writes the records of a batch to the
  pipeline and then commits the offset of the last one. Loop and handler are goroutines joined by
  an unbuffered channel; the step relation at the end of the model interleaves them.
\<close>

section \<open>State\<close>

text \<open>The fetcher is shared with the other partitions; the metrics are those of this partition.\<close>

record ('n, 'p) PartitionFetcher =
  pf_logFetcher :: "('n, 'p) LogFetcher"
  pf_consumer :: Consumer
  pf_metrics :: "metric list"

type_synonym ('n, 'p, 'a) part_prog = "(('n, 'p) PartitionFetcher, fetch_error, 'a) prog"

definition NewPartitionFetcher :: "('n, 'p) LogFetcher \<Rightarrow> Consumer \<Rightarrow> ('n, 'p) PartitionFetcher" where
  "NewPartitionFetcher f consumer = \<lparr>pf_logFetcher = f, pf_consumer = consumer, pf_metrics = []\<rparr>"

definition on_fetcher :: "('n, 'p, 'a) fetch_prog \<Rightarrow> ('n, 'p, 'a) part_prog" where
  "on_fetcher m = zoom pf_logFetcher (\<lambda>f s. s\<lparr>pf_logFetcher := f\<rparr>) m"

definition report :: "metric list \<Rightarrow> ('n, 'p, unit) part_prog" where
  "report ms = modify (\<lambda>s. s\<lparr>pf_metrics := pf_metrics s @ ms\<rparr>)"

abbreviation pf_topic :: "('n, 'p) PartitionFetcher \<Rightarrow> string" where
  "pf_topic s \<equiv> lf_topic (pf_logFetcher s)"

section \<open>Handler\<close>

text \<open>An error of the commit is only logged.\<close>

definition pf_commitOffset :: "'n http_client \<Rightarrow> int \<Rightarrow> ('n, 'p, unit) part_prog" where
  "pf_commitOffset hc offset =
     andThen (gets (\<lambda>s. (lf_autoCommitEnabled (pf_logFetcher s), pf_consumer s))) (\<lambda>(auto, consumer).
       if \<not> auto \<and> 0 \<le> offset
       then andThen (attempt (on_fetcher (commitOffset hc consumer offset))) (\<lambda>_. ret ())
       else ret ())"

text \<open>A record is a decoded JSON value; printing it again sorts the members of its objects.\<close>

definition record_bytes :: "json \<Rightarrow> string" where
  "record_bytes r = json_str (canon r)"

definition record_offset :: "json \<Rightarrow> int" where
  "record_offset r = dec_trunc (el_Offset (fst (unmarshal_schema (record_bytes r) el_zero)))"

definition handled_metrics :: "string \<Rightarrow> metric list" where
  "handled_metrics topic =
     [Gauge ''ElcLagOut'' [''fetcher'', topic],
      Gauge ''ElcProcessingDuration'' [''fetcher'', topic, ''success'', ''200'', ''processed''],
      Counter ''ElcNumRecordsOutCounter'' [''fetcher'', topic],
      Counter ''ElcProcessingTotal'' [''fetcher'', topic, ''success'', ''200'', ''processed'']]"

text \<open>One turn of the loop over a batch; the result is the offset of the record. A value that was
  decoded from JSON can always be printed, so the branch for a marshalling error is never taken; an
  error of the pipeline writer kills the process.\<close>

definition handle_record :: "'p writer \<Rightarrow> json \<Rightarrow> ('n, 'p, int) part_prog" where
  "handle_record wr r =
     andThen (gets pf_topic) (\<lambda>topic.
     andThen (report [Gauge ''ElcLagIn'' [''fetcher'', topic]]) (\<lambda>_.
     andThen (gets (\<lambda>s. wr (lf_writer (pf_logFetcher s)) (record_bytes r))) (\<lambda>(w, err).
     andThen (modify (\<lambda>s. s\<lparr>pf_logFetcher := (pf_logFetcher s)\<lparr>lf_writer := w\<rparr>\<rparr>)) (\<lambda>_.
       if err = None then andThen (report (handled_metrics topic)) (\<lambda>_. ret (record_offset r)) else die))))"

fun handle_records :: "'p writer \<Rightarrow> json list \<Rightarrow> int \<Rightarrow> ('n, 'p, int) part_prog" where
  "handle_records wr [] offset = ret offset"
| "handle_records wr (r # rs) offset = andThen (handle_record wr r) (\<lambda>offset'. handle_records wr rs offset')"

definition handle_batch :: "'n http_client \<Rightarrow> 'p writer \<Rightarrow> json list \<Rightarrow> ('n, 'p, unit) part_prog" where
  "handle_batch hc wr records = andThen (handle_records wr records (-1)) (pf_commitOffset hc)"

section \<open>Responses of the API\<close>

definition randomSleep :: "'n http_client \<Rightarrow> ('n, 'p, unit) part_prog" where
  "randomSleep hc = modify (\<lambda>s.
     let (y, delay) = rand_Int hc (lf_sys (pf_logFetcher s)) 60
     in s\<lparr>pf_logFetcher := (pf_logFetcher s)\<lparr>lf_sys := time_Sleep ((delay + 1) * second) y\<rparr>\<rparr>)"

definition retryOrQuit :: "'n http_client \<Rightarrow> int \<Rightarrow> ('n, 'p, unit) part_prog" where
  "retryOrQuit hc errCount = (if errCount \<le> 3 then randomSleep hc else die)"

definition processApiErrorResponse :: "'n http_client \<Rightarrow> int \<Rightarrow> ('n, 'p, unit) part_prog" where
  "processApiErrorResponse hc errCount =
     andThen (gets pf_topic) (\<lambda>topic.
     andThen (report [Counter ''ElcErrors'' [''fetcher'', topic, ''522'', ''http'']]) (\<lambda>_. retryOrQuit hc errCount))"

text \<open>The records of a body: none when it is not a JSON array.\<close>

definition records_of :: "string \<Rightarrow> json list" where
  "records_of body = (case json_parse body of Some (JArr xs) \<Rightarrow> xs | _ \<Rightarrow> [])"

text \<open>The result is the batch to hand to the handler.\<close>

definition processApi200Response :: "string \<Rightarrow> ('n, 'p, json list) part_prog" where
  "processApi200Response body =
     (let records = records_of body
      in if records \<noteq> []
         then andThen (gets pf_topic) (\<lambda>topic.
              andThen (report (replicate (length records) (Counter ''ElcNumRecordsInCounter'' [''fetcher'', topic]))) (\<lambda>_. ret records))
         else andThen (modify (\<lambda>s. s\<lparr>pf_logFetcher := (pf_logFetcher s)\<lparr>lf_sys :=
                time_Sleep (wrap64 (cf_RecordCheckFrequency (lf_cfg (pf_logFetcher s)) * second)) (lf_sys (pf_logFetcher s))\<rparr>\<rparr>)) (\<lambda>_.
              ret []))"

definition processApi404Response :: "'n http_client \<Rightarrow> ('n, 'p, unit) part_prog" where
  "processApi404Response hc =
     andThen (gets (co_Partition \<circ> pf_consumer)) (\<lambda>part.
     andThen (or_die (on_fetcher (ResetPartitionConsumer hc part))) (\<lambda>consumer.
     andThen (modify (\<lambda>s. s\<lparr>pf_consumer := consumer\<rparr>)) (\<lambda>_. randomSleep hc)))"

definition processApi429Response :: "'n http_client \<Rightarrow> int \<Rightarrow> ('n, 'p, unit) part_prog" where
  "processApi429Response hc code =
     andThen (gets pf_topic) (\<lambda>topic.
     andThen (report [Counter ''ElcErrors'' [''fetcher'', topic, itoa code, ''event log fetcher rate limited by log.api'']]) (\<lambda>_.
       randomSleep hc))"

definition upstream_error :: string where
  "upstream_error = ''upstream connect error or disconnect/reset before headers. reset reason: connection termination''"

text \<open>The last metric of a process that is about to die is not kept: \<open>die\<close> has no state.\<close>

definition processUnhandledApiResponse :: "('n, 'p, unit) part_prog" where
  "processUnhandledApiResponse = die"

text \<open>The body that was read is never a nil slice here, so the first case of the source is never taken.\<close>

definition processApi503Response :: "'n http_client \<Rightarrow> int \<Rightarrow> string \<Rightarrow> int \<Rightarrow> ('n, 'p, unit) part_prog" where
  "processApi503Response hc code body errCount =
     (if str_contains body upstream_error
      then andThen (gets pf_topic) (\<lambda>topic.
           andThen (report [Counter ''ElcErrors'' [''fetcher'', topic, itoa code, body]]) (\<lambda>_. retryOrQuit hc errCount))
      else processUnhandledApiResponse)"

section \<open>The fetch loop\<close>

record loop_vars =
  lv_total :: int
  lv_errCount :: int

text \<open>One turn of the loop: the new values of its variables and the batch for the handler.\<close>

definition fetch_turn :: "'n http_client \<Rightarrow> loop_vars \<Rightarrow> ('n, 'p, loop_vars \<times> json list) part_prog" where
  "fetch_turn hc v =
     andThen (or_die (on_fetcher (lf_Authenticate hc))) (\<lambda>token.
     andThen (gets (co_Name \<circ> pf_consumer)) (\<lambda>name.
     andThen (on_fetcher (lf_Get hc ''/consumers/records'' token name)) (\<lambda>r.
       if hr_err r then
         andThen (processApiErrorResponse hc (lv_errCount v + 1)) (\<lambda>_. ret (v\<lparr>lv_errCount := lv_errCount v + 1\<rparr>, []))
       else if hr_code r = 200 then
         andThen (processApi200Response (hr_body r)) (\<lambda>records.
           ret (v\<lparr>lv_errCount := 0, lv_total := lv_total v + int (length records)\<rparr>, records))
       else if hr_code r = 404 then andThen (processApi404Response hc) (\<lambda>_. ret (v, []))
       else if hr_code r = 429 then andThen (processApi429Response hc (hr_code r)) (\<lambda>_. ret (v, []))
       else if hr_code r = 503 then
         andThen (processApi503Response hc (hr_code r) (hr_body r) (lv_errCount v + 1)) (\<lambda>_.
           ret (v\<lparr>lv_errCount := lv_errCount v + 1\<rparr>, []))
       else andThen processUnhandledApiResponse (\<lambda>_. ret (v, [])))))"

text \<open>The periodic look at the offsets, at the end of each minute.\<close>

definition monitor_turn :: "'n http_client \<Rightarrow> ('n, 'p, unit) part_prog" where
  "monitor_turn hc =
     andThen (gets pf_consumer) (\<lambda>consumer.
     andThen (attempt (on_fetcher (getOffsetDetails hc consumer))) (\<lambda>r.
       case r of Inl _ \<Rightarrow> ret () | Inr od \<Rightarrow> on_fetcher (logOffsetDetails od)))"

section \<open>Loop, handler and monitor together\<close>

text \<open>
  What the loop and the handler are doing. The loop offers a batch until the handler takes it, and
  after a shutdown waits for the handler to stop. The last two fields are ghosts: the records
  fetched so far, and what happened to the pipeline and the committed offsets, in order.
\<close>

datatype loop_state = Fetching | Offering "json list" | Signalling | Stopped

datatype handler_state = Waiting | Writing "json list" int | Halted

datatype event = Written string int | Committed int

record ('n, 'p) system =
  sm_pf :: "('n, 'p) PartitionFetcher"
  sm_vars :: loop_vars
  sm_loop :: loop_state
  sm_handler :: handler_state
  sm_fetched :: "json list"
  sm_events :: "event list"

definition commit_events :: "('n, 'p) PartitionFetcher \<Rightarrow> int \<Rightarrow> event list" where
  "commit_events s offset = (if \<not> lf_autoCommitEnabled (pf_logFetcher s) \<and> 0 \<le> offset then [Committed offset] else [])"

text \<open>\<open>pf.shutdown\<close> is received between two turns of the loop; the loop then sends \<open>handlerSignal\<close>,
  which the handler receives between two batches. Every other component of the collector may
  change the shared state of the fetcher between the steps of this one.\<close>

inductive step :: "'n http_client \<Rightarrow> 'p writer \<Rightarrow> ('n, 'p) system \<Rightarrow> ('n, 'p) system \<Rightarrow> bool"
  for hc :: "'n http_client" and wr :: "'p writer" where
  fetch: "sm_loop s = Fetching \<Longrightarrow> fetch_turn hc (sm_vars s) (sm_pf s) = Some (p, Inr (v, batch)) \<Longrightarrow>
    step hc wr s (s\<lparr>sm_pf := p, sm_vars := v, sm_fetched := sm_fetched s @ batch,
                    sm_loop := (if batch = [] then Fetching else Offering batch)\<rparr>)"
| take_batch: "sm_loop s = Offering batch \<Longrightarrow> sm_handler s = Waiting \<Longrightarrow>
    step hc wr s (s\<lparr>sm_loop := Fetching, sm_handler := Writing batch (-1)\<rparr>)"
| write_record: "sm_handler s = Writing (r # rs) offset \<Longrightarrow> handle_record wr r (sm_pf s) = Some (p, Inr offset') \<Longrightarrow>
    step hc wr s (s\<lparr>sm_pf := p, sm_handler := Writing rs offset',
                    sm_events := sm_events s @ [Written (record_bytes r) offset']\<rparr>)"
| commit: "sm_handler s = Writing [] offset \<Longrightarrow> pf_commitOffset hc offset (sm_pf s) = Some (p, Inr ()) \<Longrightarrow>
    step hc wr s (s\<lparr>sm_pf := p, sm_handler := Waiting, sm_events := sm_events s @ commit_events (sm_pf s) offset\<rparr>)"
| shutdown: "sm_loop s = Fetching \<Longrightarrow> step hc wr s (s\<lparr>sm_loop := Signalling\<rparr>)"
| signal: "sm_loop s = Signalling \<Longrightarrow> sm_handler s = Waiting \<Longrightarrow>
    step hc wr s (s\<lparr>sm_loop := Stopped, sm_handler := Halted\<rparr>)"
| monitor: "sm_handler s \<noteq> Halted \<Longrightarrow> monitor_turn hc (sm_pf s) = Some (p, Inr ()) \<Longrightarrow> step hc wr s (s\<lparr>sm_pf := p\<rparr>)"
| others: "step hc wr s (s\<lparr>sm_pf := (sm_pf s)\<lparr>pf_logFetcher := f\<rparr>\<rparr>)"

definition system_init :: "('n, 'p) PartitionFetcher \<Rightarrow> ('n, 'p) system" where
  "system_init p = \<lparr>sm_pf = p, sm_vars = \<lparr>lv_total = 0, lv_errCount = 0\<rparr>, sm_loop = Fetching, sm_handler = Waiting,
     sm_fetched = [], sm_events = []\<rparr>"

inductive reachable :: "'n http_client \<Rightarrow> 'p writer \<Rightarrow> ('n, 'p) system \<Rightarrow> bool"
  for hc :: "'n http_client" and wr :: "'p writer" where
  start: "reachable hc wr (system_init p)"
| step: "reachable hc wr s \<Longrightarrow> step hc wr s s' \<Longrightarrow> reachable hc wr s'"

inductive_cases stepE: "step hc wr s s'"

section \<open>What a turn of the loop does to its variables\<close>

lemma fetch_turn_errCount:
  assumes "fetch_turn hc v s = Some (s', Inr (v', batch))" "0 \<le> lv_errCount v" "lv_errCount v \<le> 3"
  shows "0 \<le> lv_errCount v' \<and> lv_errCount v' \<le> 3"
  using assms
  by (auto simp: fetch_turn_def andThen_Inr_iff processApiErrorResponse_def processApi503Response_def retryOrQuit_def
      processUnhandledApiResponse_def prog_simps split: if_splits)

text \<open>In every state the partition fetcher can reach, whatever the service answers and however the
  loop, the handler and the monitor interleave, the number of failed requests in a row that it
  remembers is between 0 and 3: the fourth one kills the process instead of being counted.\<close>

lemma errCount_bounded:
  "reachable hc wr s \<Longrightarrow> 0 \<le> lv_errCount (sm_vars s) \<and> lv_errCount (sm_vars s) \<le> 3"
proof (induction rule: reachable.induct)
  case (start p)
  then show ?case by (simp add: system_init_def)
next
  case (step s s')
  then show ?case by (cases rule: stepE [OF step.hyps(2)]) (auto dest: fetch_turn_errCount)
qed

section \<open>Delivery and commits\<close>

fun writes :: "event list \<Rightarrow> string list" where
  "writes [] = []"
| "writes (Written text i # es) = text # writes es"
| "writes (Committed i # es) = writes es"

text \<open>The offset of the last record written.\<close>

fun last_offset :: "event list \<Rightarrow> int option" where
  "last_offset [] = None"
| "last_offset (Written text i # es) = (case last_offset es of None \<Rightarrow> Some i | Some j \<Rightarrow> Some j)"
| "last_offset (Committed i # es) = last_offset es"

definition commits_follow :: "event list \<Rightarrow> bool" where
  "commits_follow es = (\<forall>pre i post. es = pre @ Committed i # post \<longrightarrow> last_offset pre = Some i)"

lemma writes_append [simp]: "writes (es @ fs) = writes es @ writes fs"
  by (induction es rule: writes.induct) auto

lemma last_offset_snoc [simp]: "last_offset (es @ [Written t i]) = Some i"
  by (induction es rule: writes.induct) auto

lemma last_offset_commit [simp]: "last_offset (es @ [Committed i]) = last_offset es"
  by (induction es rule: writes.induct) (auto split: option.splits)

lemma commits_follow_Nil: "commits_follow []"
  by (simp add: commits_follow_def)

lemma commits_follow_write: "commits_follow es \<Longrightarrow> commits_follow (es @ [Written t i])"
  unfolding commits_follow_def
proof (intro allI impI)
  fix pre j post
  assume ih: "\<forall>pre i post. es = pre @ Committed i # post \<longrightarrow> last_offset pre = Some i"
    and "es @ [Written t i] = pre @ Committed j # post"
  then obtain q where "es = pre @ Committed j # q" by (cases post rule: rev_cases) auto
  then show "last_offset pre = Some j" using ih by blast
qed

lemma commits_follow_commit:
  "commits_follow es \<Longrightarrow> last_offset es = Some i \<Longrightarrow> commits_follow (es @ [Committed i])"
  unfolding commits_follow_def
proof (intro allI impI)
  fix pre j post
  assume ih: "\<forall>pre i post. es = pre @ Committed i # post \<longrightarrow> last_offset pre = Some i"
    and last: "last_offset es = Some i" and eq: "es @ [Committed i] = pre @ Committed j # post"
  show "last_offset pre = Some j"
  proof (cases post rule: rev_cases)
    case Nil
    then show ?thesis using eq last by simp
  next
    case (snoc q e)
    then show ?thesis using eq ih by auto
  qed
qed

fun in_handler :: "handler_state \<Rightarrow> json list" where
  "in_handler (Writing rs i) = rs"
| "in_handler _ = []"

fun in_loop :: "loop_state \<Rightarrow> json list" where
  "in_loop (Offering rs) = rs"
| "in_loop _ = []"

definition delivery_inv :: "('n, 'p) system \<Rightarrow> bool" where
  "delivery_inv s =
     (map record_bytes (sm_fetched s) =
        writes (sm_events s) @ map record_bytes (in_handler (sm_handler s) @ in_loop (sm_loop s)) \<and>
      commits_follow (sm_events s) \<and>
      (\<forall>rs i. sm_handler s = Writing rs i \<longrightarrow> i = -1 \<or> last_offset (sm_events s) = Some i) \<and>
      (sm_handler s = Halted \<longleftrightarrow> sm_loop s = Stopped))"

lemma delivery_inv_step:
  assumes "step hc wr s s'" "delivery_inv s"
  shows "delivery_inv s'"
  using assms(1)
proof (cases rule: step.cases)
  case (commit i p)
  have "commits_follow (sm_events s @ commit_events (sm_pf s) i)"
    using assms(2) commit commits_follow_commit by (auto simp: delivery_inv_def commit_events_def)
  then show ?thesis using assms(2) commit by (auto simp: delivery_inv_def commit_events_def)
next
  case (write_record r rs i p j)
  then show ?thesis using assms(2) commits_follow_write by (auto simp: delivery_inv_def)
qed (use assms(2) in \<open>auto simp: delivery_inv_def\<close>)

lemma delivery_inv_reachable: "reachable hc wr s \<Longrightarrow> delivery_inv s"
proof (induction rule: reachable.induct)
  case (start p)
  then show ?case by (simp add: delivery_inv_def system_init_def commits_follow_Nil)
next
  case (step s s')
  then show ?case using delivery_inv_step by blast
qed

text \<open>The records go to the pipeline in the order they were fetched, each once: in every reachable
  state what was written is a prefix of what was fetched, the rest is in the hands of the handler
  or the loop, and after a shutdown nothing is left behind.\<close>

lemma fetched_in_order:
  assumes "reachable hc wr s"
  shows "map record_bytes (sm_fetched s) =
      writes (sm_events s) @ map record_bytes (in_handler (sm_handler s) @ in_loop (sm_loop s)) \<and>
    (sm_loop s = Stopped \<longrightarrow> writes (sm_events s) = map record_bytes (sm_fetched s))"
  using delivery_inv_reachable [OF assms] by (auto simp: delivery_inv_def)


section \<open>Failures in a row\<close>

fun fetch_turns :: "'n http_client \<Rightarrow> nat \<Rightarrow> loop_vars \<Rightarrow> ('n, 'p, loop_vars) part_prog" where
  "fetch_turns hc 0 v = ret v"
| "fetch_turns hc (Suc n) v = andThen (fetch_turn hc v) (\<lambda>(v', _). fetch_turns hc n v')"

lemma lf_Authenticate_disabled:
  "cr_AuthDisabled (au_config (lf_Authenticator f)) \<Longrightarrow> lf_Authenticate hc f = Some (f, Inr tk_zero)"
  by (simp add: lf_Authenticate_def map_err_def zoom_def Authenticate_def prog_simps)

lemma on_fetcher_eval [prog_simps]:
  "m (pf_logFetcher s) = Some (f, r) \<Longrightarrow> on_fetcher m s = Some (s\<lparr>pf_logFetcher := f\<rparr>, r)"
  by (simp add: on_fetcher_def zoom_def)

lemma lf_Get_eval:
  "hc_url_ok hc (parseURL f path) \<Longrightarrow>
   lf_Get hc path token name f =
     (let (y, r) = http_Do hc \<lparr>rq_Method = ''GET'', rq_URL = parseURL f path, rq_Header = fetch_header f token name, rq_Body = []\<rparr> (lf_sys f)
      in Some (f\<lparr>lf_sys := y\<rparr>, Inr r))"
  by (simp add: lf_Get_def prog_simps zoom_def http_Get_def http_method_cases split: prod.splits)

lemma fetch_turn_no_network:
  assumes "\<And>n r. snd (snd (hc_send hc n r)) = None" "\<And>u. hc_url_ok hc u"
    and "cr_AuthDisabled (au_config (lf_Authenticator (pf_logFetcher s)))"
  shows "fetch_turn hc v s =
      andThen (processApiErrorResponse hc (lv_errCount v + 1)) (\<lambda>_. ret (v\<lparr>lv_errCount := lv_errCount v + 1\<rparr>, []))
        (s\<lparr>pf_logFetcher := (pf_logFetcher s)\<lparr>lf_sys :=
             fst (http_Do hc \<lparr>rq_Method = ''GET'', rq_URL = parseURL (pf_logFetcher s) ''/consumers/records'',
               rq_Header = fetch_header (pf_logFetcher s) tk_zero (co_Name (pf_consumer s)), rq_Body = []\<rparr> (lf_sys (pf_logFetcher s)))\<rparr>\<rparr>)"
proof -
  have err: "hr_err (snd (http_Do hc r y))" for r y
    using assms(1) [of "sy_net y" r] by (auto simp: http_Do_def Let_def split: prod.splits)
  have auth: "or_die (on_fetcher (lf_Authenticate hc)) s = Some (s, Inr tk_zero)"
    using assms(3) by (simp add: or_die_def on_fetcher_eval lf_Authenticate_disabled)
  let ?r = "\<lparr>rq_Method = ''GET'', rq_URL = parseURL (pf_logFetcher s) ''/consumers/records'',
     rq_Header = fetch_header (pf_logFetcher s) tk_zero (co_Name (pf_consumer s)), rq_Body = []\<rparr>"
  obtain y r where do: "http_Do hc ?r (lf_sys (pf_logFetcher s)) = (y, r)" by (cases "http_Do hc ?r (lf_sys (pf_logFetcher s))")
  then have "hr_err r" using err [of ?r "lf_sys (pf_logFetcher s)"] by simp
  with do show ?thesis
    unfolding fetch_turn_def by (simp add: auth prog_simps on_fetcher_eval lf_Get_eval assms(2))
qed

lemma fetch_turn_fails:
  assumes "\<And>n r. snd (snd (hc_send hc n r)) = None" "\<And>u. hc_url_ok hc u"
    and "cr_AuthDisabled (au_config (lf_Authenticator (pf_logFetcher s)))"
  shows "3 \<le> lv_errCount v \<Longrightarrow> fetch_turn hc v s = None"
    and "lv_errCount v < 3 \<Longrightarrow> \<exists>s'. fetch_turn hc v s = Some (s', Inr (v\<lparr>lv_errCount := lv_errCount v + 1\<rparr>, [])) \<and>
           cr_AuthDisabled (au_config (lf_Authenticator (pf_logFetcher s')))"
  using assms(3)
  by (auto simp: fetch_turn_no_network [OF assms] processApiErrorResponse_def retryOrQuit_def prog_simps report_def
      randomSleep_def Let_def split: prod.splits)

text \<open>When no request gets through any more, the fetch loop retries three times and dies at the
  fourth failure in a row.\<close>

lemma dies_after_four_failures:
  assumes "\<And>n r. snd (snd (hc_send hc n r)) = None" "\<And>u. hc_url_ok hc u"
    and "cr_AuthDisabled (au_config (lf_Authenticator (pf_logFetcher s)))" "lv_errCount v = 0"
  shows "(\<exists>s'. fetch_turns hc 3 v s = Some (s', Inr (v\<lparr>lv_errCount := 3\<rparr>))) \<and> fetch_turns hc 4 v s = None"
proof -
  note turn = fetch_turn_fails [OF assms(1,2)]
  obtain s1 where 1: "fetch_turn hc v s = Some (s1, Inr (v\<lparr>lv_errCount := 1\<rparr>, []))"
    "cr_AuthDisabled (au_config (lf_Authenticator (pf_logFetcher s1)))" using turn(2) [OF assms(3), of v] assms(4) by auto
  obtain s2 where 2: "fetch_turn hc (v\<lparr>lv_errCount := 1\<rparr>) s1 = Some (s2, Inr (v\<lparr>lv_errCount := 2\<rparr>, []))"
    "cr_AuthDisabled (au_config (lf_Authenticator (pf_logFetcher s2)))" using turn(2) [OF 1(2), of "v\<lparr>lv_errCount := 1\<rparr>"] by auto
  obtain s3 where 3: "fetch_turn hc (v\<lparr>lv_errCount := 2\<rparr>) s2 = Some (s3, Inr (v\<lparr>lv_errCount := 3\<rparr>, []))"
    "cr_AuthDisabled (au_config (lf_Authenticator (pf_logFetcher s3)))" using turn(2) [OF 2(2), of "v\<lparr>lv_errCount := 2\<rparr>"] by auto
  have 4: "fetch_turn hc (v\<lparr>lv_errCount := 3\<rparr>) s3 = None" using turn(1) [OF 3(2), of "v\<lparr>lv_errCount := 3\<rparr>"] by simp
  show ?thesis using 1(1) 2(1) 3(1) 4 by (simp add: numeral_eq_Suc prog_simps)
qed

section \<open>Shutdown\<close>

lemma handle_record_ok:
  assumes "\<And>p b. snd (wr p b) = None"
  shows "\<exists>s'. handle_record wr r s = Some (s', Inr (record_offset r))"
proof -
  obtain w where "wr (lf_writer (pf_logFetcher s)) (record_bytes r) = (w, None)"
    using assms [of "lf_writer (pf_logFetcher s)" "record_bytes r"]
    by (cases "wr (lf_writer (pf_logFetcher s)) (record_bytes r)") simp
  then show ?thesis by (simp add: handle_record_def prog_simps report_def)
qed

lemma isTokenValid_token:
  "isTokenValid (a, y) = Some ((a', y'), Inr True) \<Longrightarrow> au_token a' \<noteq> None"
  by (auto simp: isTokenValid_def IsCachedTokenValid_def isFileTokenValid_eval andThen_Inr_iff SetToken_def prog_simps Let_def
      split: option.splits if_splits prod.splits)

lemma isTokenValid_total: "\<exists>a' y' b. isTokenValid (a, y) = Some ((a', y'), Inr b)"
  by (auto simp: isTokenValid_def IsCachedTokenValid_def andThen_def isFileTokenValid_eval SetToken_def prog_simps Let_def
      split: option.splits prod.splits)

lemma CacheToken_total: "au_token a = Some t \<Longrightarrow> \<exists>a' y'. CacheToken hc (a, y) = Some ((a', y'), Inr ()) \<and> au_token a' = Some t"
  by (auto simp: CacheToken_def prog_simps write_token_def Let_def split: option.splits prod.splits)

lemma Authenticate_total:
  assumes "\<And>u. hc_url_ok hc u"
  shows "Authenticate hc (a, y) \<noteq> None"
proof (cases "cr_AuthDisabled (au_config a)")
  case True
  then show ?thesis by (simp add: Authenticate_def prog_simps)
next
  case False
  obtain a1 y1 b where v: "isTokenValid (a, y) = Some ((a1, y1), Inr b)" using isTokenValid_total by blast
  show ?thesis
  proof (cases b)
    case True
    then have "au_token a1 \<noteq> None" using v isTokenValid_token [of a y a1 y1] by simp
    then show ?thesis using False True v by (auto simp: Authenticate_def prog_simps)
  next
    case nb: False
    have "\<exists>s r. GenerateToken hc (a1, y1) = Some (s, r) \<and> (\<forall>t. r = Inr t \<longrightarrow> au_token (fst s) = Some t)"
      using assms by (auto simp: GenerateToken_eval Let_def split: prod.splits)
    then obtain a2 y2 r where g: "GenerateToken hc (a1, y1) = Some ((a2, y2), r)" "\<And>t. r = Inr t \<Longrightarrow> au_token a2 = Some t"
      by auto
    show ?thesis
    proof (cases r)
      case (Inl e)
      then show ?thesis using False nb v g by (simp add: Authenticate_def prog_simps)
    next
      case (Inr t)
      obtain a3 y3 where "CacheToken hc (a2, y2) = Some ((a3, y3), Inr ())" "au_token a3 = Some t"
        using CacheToken_total g(2) [OF Inr] by blast
      then show ?thesis using False nb v g Inr by (simp add: Authenticate_def prog_simps)
    qed
  qed
qed

lemma commitOffset_total:
  assumes "\<And>u. hc_url_ok hc u"
  shows "commitOffset hc c i f \<noteq> None"
proof -
  obtain f1 r where a: "lf_Authenticate hc f = Some (f1, r)"
    using Authenticate_total [OF assms, of "lf_Authenticator f" "lf_sys f"]
    by (auto simp: lf_Authenticate_def map_err_def zoom_def)
  show ?thesis
    by (cases r) (auto simp: commitOffset_def prog_simps a lf_Post_def zoom_def http_Post_def http_method_cases assms andThen_def
        split: prod.splits)
qed

lemma pf_commitOffset_ok:
  assumes "\<And>u. hc_url_ok hc u"
  shows "\<exists>s'. pf_commitOffset hc i s = Some (s', Inr ())"
proof -
  obtain f r where "commitOffset hc (pf_consumer s) i (pf_logFetcher s) = Some (f, r)"
    using commitOffset_total [OF assms] by fast
  then show ?thesis by (simp add: pf_commitOffset_def prog_simps)
qed

lemma handler_drains:
  assumes wr: "\<And>p b. snd (wr p b) = None" and url: "\<And>u. hc_url_ok hc u"
    and "sm_loop s = Signalling" "sm_handler s \<noteq> Halted"
  shows "\<exists>s'. (step hc wr)\<^sup>*\<^sup>* s s' \<and> sm_loop s' = Signalling \<and> sm_handler s' = Waiting"
proof (cases "sm_handler s")
  case (Writing rs i)
  then show ?thesis using assms(3)
  proof (induction rs arbitrary: s i)
    case Nil
    obtain p where "pf_commitOffset hc i (sm_pf s) = Some (p, Inr ())" using pf_commitOffset_ok [OF url] by blast
    then have "step hc wr s (s\<lparr>sm_pf := p, sm_handler := Waiting, sm_events := sm_events s @ commit_events (sm_pf s) i\<rparr>)"
      (is "step hc wr s ?s1") using Nil step.commit by blast
    then show ?case using Nil by (intro exI [of _ ?s1]) (simp add: r_into_rtranclp)
  next
    case (Cons r rs)
    obtain p where "handle_record wr r (sm_pf s) = Some (p, Inr (record_offset r))"
      using handle_record_ok [of wr r "sm_pf s"] wr by blast
    then have 1: "step hc wr s (s\<lparr>sm_pf := p, sm_handler := Writing rs (record_offset r),
        sm_events := sm_events s @ [Written (record_bytes r) (record_offset r)]\<rparr>)" (is "step hc wr s ?s1")
      using Cons.prems step.write_record by blast
    obtain s' where "(step hc wr)\<^sup>*\<^sup>* ?s1 s'" "sm_loop s' = Signalling" "sm_handler s' = Waiting"
      using Cons.IH [of ?s1 "record_offset r"] Cons.prems by auto
    then show ?case using 1 by (meson converse_rtranclp_into_rtranclp)
  qed
qed (use assms in auto)

text \<open>A shutdown request is always answered: from every reachable state in which the loop has seen
  it, if the pipeline accepts records and the configured address is a URL, the handler can finish
  its batch and both goroutines stop, with every fetched record in the pipeline.\<close>

lemma shutdown_completes:
  assumes "reachable hc wr s" "sm_loop s = Signalling"
    and "\<And>p b. snd (wr p b) = None" "\<And>u. hc_url_ok hc u"
  shows "\<exists>s'. (step hc wr)\<^sup>*\<^sup>* s s' \<and> sm_loop s' = Stopped \<and> sm_handler s' = Halted \<and>
              writes (sm_events s') = map record_bytes (sm_fetched s')"
proof -
  have inv: "delivery_inv s" by (rule delivery_inv_reachable [OF assms(1)])
  then have "sm_handler s \<noteq> Halted" using assms(2) by (auto simp: delivery_inv_def)
  then obtain s1 where s1: "(step hc wr)\<^sup>*\<^sup>* s s1" "sm_loop s1 = Signalling" "sm_handler s1 = Waiting"
    using handler_drains [of wr hc s] assms(2-4) by blast
  let ?s2 = "s1\<lparr>sm_loop := Stopped, sm_handler := Halted\<rparr>"
  have "step hc wr s1 ?s2" by (rule step.signal [OF s1(2,3)])
  with s1(1) have steps: "(step hc wr)\<^sup>*\<^sup>* s ?s2" by (rule rtranclp.rtrancl_into_rtrancl)
  have "delivery_inv ?s2" using steps inv
    by (induction rule: rtranclp_induct) (auto intro: delivery_inv_step)
  then have "writes (sm_events ?s2) = map record_bytes (sm_fetched ?s2)" by (simp add: delivery_inv_def)
  with steps show ?thesis by (intro exI [of _ ?s2]) simp
qed

section \<open>A run\<close>

text \<open>A service that hands out one record.\<close>

definition ex_rec :: json where
  "ex_rec = JObj [(''offset'', JNum (Dec 5 0))]"

definition ex_rec_hc :: "http_request list http_client" where
  "ex_rec_hc = ex_api_hc\<lparr>hc_send := (\<lambda>n r. (n @ [r], 1, Some (200, ''[{\"offset\":5}]'')))\<rparr>"

definition ex_list_wr :: "string list writer" where
  "ex_list_wr p b = (p @ [b], None)"

definition ex_pf :: "(http_request list, string list) PartitionFetcher" where
  "ex_pf = NewPartitionFetcher ex_fetcher ex_consumer"

definition ex_run_ok :: bool where
  "ex_run_ok =
     (case outcome (fetch_turn ex_rec_hc \<lparr>lv_total = 0, lv_errCount = 0\<rparr>) ex_pf of
        None \<Rightarrow> False
      | Some (p1, v, batch) \<Rightarrow> batch = [ex_rec] \<and>
          (case outcome (handle_record ex_list_wr ex_rec) p1 of
             None \<Rightarrow> False
           | Some (p2, i) \<Rightarrow> i = 5 \<and> \<not> lf_autoCommitEnabled (pf_logFetcher p2) \<and>
               (case outcome (pf_commitOffset ex_rec_hc 5) p2 of None \<Rightarrow> False | Some (p3, _) \<Rightarrow> True)))"

lemma ex_run: "ex_run_ok"
  by code_simp

lemma ex_list_wr_ok: "snd (ex_list_wr p b) = None" "hc_url_ok ex_rec_hc u"
  by (simp_all add: ex_list_wr_def ex_rec_hc_def ex_api_hc_def)

lemma ex_reachable:
  "\<exists>s. reachable ex_rec_hc ex_list_wr s \<and> sm_fetched s = [ex_rec] \<and> sm_loop s = Fetching \<and>
       sm_events s = [Written (record_bytes ex_rec) 5, Committed 5]"
proof -
  obtain p1 v p2 p3 where
    1: "fetch_turn ex_rec_hc \<lparr>lv_total = 0, lv_errCount = 0\<rparr> ex_pf = Some (p1, Inr (v, [ex_rec]))"
    and 2: "handle_record ex_list_wr ex_rec p1 = Some (p2, Inr 5)" "\<not> lf_autoCommitEnabled (pf_logFetcher p2)"
    and 3: "pf_commitOffset ex_rec_hc 5 p2 = Some (p3, Inr ())"
    using ex_run by (auto simp: ex_run_ok_def outcome_Some split: option.splits)
  let ?s = "system_init ex_pf"
  have r0: "reachable ex_rec_hc ex_list_wr ?s" by (rule reachable.start)
  have r1: "reachable ex_rec_hc ex_list_wr (?s\<lparr>sm_pf := p1, sm_vars := v, sm_fetched := [ex_rec], sm_loop := Offering [ex_rec]\<rparr>)"
    (is "reachable _ _ ?s1")
    using reachable.step [OF r0 step.fetch [of ?s ex_rec_hc p1 v "[ex_rec]"]] 1 by (simp add: system_init_def)
  have r2: "reachable ex_rec_hc ex_list_wr (?s1\<lparr>sm_loop := Fetching, sm_handler := Writing [ex_rec] (-1)\<rparr>)" (is "reachable _ _ ?s2")
    by (rule reachable.step [OF r1 step.take_batch]) (simp_all add: system_init_def)
  have r3: "reachable ex_rec_hc ex_list_wr (?s2\<lparr>sm_pf := p2, sm_handler := Writing [] 5,
      sm_events := sm_events ?s2 @ [Written (record_bytes ex_rec) 5]\<rparr>)" (is "reachable _ _ ?s3")
    by (rule reachable.step [OF r2 step.write_record]) (use 2 in simp_all)
  have "reachable ex_rec_hc ex_list_wr (?s3\<lparr>sm_pf := p3, sm_handler := Waiting,
      sm_events := sm_events ?s3 @ commit_events (sm_pf ?s3) 5\<rparr>)"
    by (rule reachable.step [OF r3 step.commit]) (use 3 in simp_all)
  then show ?thesis using 2(2) by (intro exI conjI) (assumption | simp add: system_init_def commit_events_def)+
qed

lemma errCount_bounded_example:
  "\<exists>s. reachable ex_rec_hc ex_list_wr s \<and> sm_fetched s = [ex_rec] \<and> lv_errCount (sm_vars s) \<le> 3"
  using ex_reachable errCount_bounded by blast

lemma fetched_in_order_example:
  "\<exists>s. reachable ex_rec_hc ex_list_wr s \<and> sm_fetched s = [ex_rec] \<and>
     map record_bytes (sm_fetched s) = writes (sm_events s) @ map record_bytes (in_handler (sm_handler s) @ in_loop (sm_loop s))"
  using ex_reachable fetched_in_order by blast


lemma shutdown_completes_example:
  "\<exists>s s'. reachable ex_rec_hc ex_list_wr s \<and> sm_fetched s = [ex_rec] \<and> (step ex_rec_hc ex_list_wr)\<^sup>*\<^sup>* s s' \<and> sm_loop s' = Stopped"
proof -
  obtain s where s: "reachable ex_rec_hc ex_list_wr s" "sm_fetched s = [ex_rec]" "sm_loop s = Fetching"
    using ex_reachable by auto
  let ?s = "s\<lparr>sm_loop := Signalling\<rparr>"
  have r: "reachable ex_rec_hc ex_list_wr ?s" by (rule reachable.step [OF s(1) step.shutdown [OF s(3)]])
  obtain s' where "(step ex_rec_hc ex_list_wr)\<^sup>*\<^sup>* ?s s'" "sm_loop s' = Stopped"
    using shutdown_completes [OF r] ex_list_wr_ok by fastforce
  moreover have "sm_fetched ?s = [ex_rec]" using s(2) by simp
  ultimately show ?thesis using r by blast
qed

lemma dies_after_four_failures_example:
  "fetch_turns (ex_api_hc\<lparr>hc_send := (\<lambda>n r. (n, 1, None))\<rparr>) 4 \<lparr>lv_total = 0, lv_errCount = 0\<rparr> ex_pf = None"
  using dies_after_four_failures [of "ex_api_hc\<lparr>hc_send := (\<lambda>n r. (n, 1, None))\<rparr>" ex_pf "\<lparr>lv_total = 0, lv_errCount = 0\<rparr>"]
  by (simp add: ex_api_hc_def ex_pf_def NewPartitionFetcher_def ex_fetcher_def NewLogFetcher_def DefaultConfig_def
      NewAuthenticator_def NewAuthenticatorWithCache_def Let_def)

end
