(* ===== verification/Batching.thy ===== *)
theory Batching
  imports Main "HOL-Library.Multiset"
begin

text \<open>
  What the storages that write in batches share (\<open>commitHandler\<close> of the Elasticsearch, OpenSearch,
  NEAP and log producer API writers). A handler receives events one by one; a turn may start
  goroutines, each with one batch. The locale \<open>batch_handler\<close> is the contract between the handler
  and its buffer; what follows from it is proved once and holds for every storage.
\<close>

section \<open>Runs of a handler\<close>

text \<open>The events come with the time they are handled. The result has the batches in the order their
  goroutines are started.\<close>

fun handler_run :: "(int \<Rightarrow> 'e \<Rightarrow> 'h \<Rightarrow> 'h \<times> 'b list) \<Rightarrow> (int \<times> 'e) list \<Rightarrow> 'h \<Rightarrow> 'h \<times> 'b list" where
  "handler_run turn [] h = (h, [])"
| "handler_run turn ((now, ev) # evs) h =
     (let (h1, bs) = turn now ev h; (h2, bs') = handler_run turn evs h1 in (h2, bs @ bs'))"

section \<open>Goroutines and shutdown\<close>

text \<open>
  The goroutines of the batches. \<open>go commit(...)\<close> only creates one; it adds itself to
  \<open>commitDoneSignal\<close> when it begins to run, and removes itself at its end. After a stop request the
  handler waits until no goroutine is in the group, then reports that the shutdown is complete.
\<close>

datatype shutdown_phase = Serving | Draining | Complete

record ('h, 'b) batch_system =
  bs_handler :: 'h
  bs_created :: "'b list"
  bs_running :: "'b list"
  bs_sent :: "'b list"
  bs_phase :: shutdown_phase

inductive batch_step ::
  "(int \<Rightarrow> 'e \<Rightarrow> 'h \<Rightarrow> 'h \<times> 'b list) \<Rightarrow> ('e \<Rightarrow> bool) \<Rightarrow> ('h, 'b) batch_system \<Rightarrow> 'e list \<Rightarrow> ('h, 'b) batch_system \<Rightarrow> bool"
  for turn stops where
  handle: "bs_phase s = Serving \<Longrightarrow> turn now ev (bs_handler s) = (h, bs) \<Longrightarrow>
    batch_step turn stops s [ev]
      (s\<lparr>bs_handler := h, bs_created := bs_created s @ bs, bs_phase := (if stops ev then Draining else Serving)\<rparr>)"
| begin_commit: "bs_created s = xs @ b # ys \<Longrightarrow>
    batch_step turn stops s [] (s\<lparr>bs_created := xs @ ys, bs_running := bs_running s @ [b]\<rparr>)"
| end_commit: "bs_running s = xs @ b # ys \<Longrightarrow>
    batch_step turn stops s [] (s\<lparr>bs_running := xs @ ys, bs_sent := bs_sent s @ [b]\<rparr>)"
| drained: "bs_phase s = Draining \<Longrightarrow> bs_running s = [] \<Longrightarrow> batch_step turn stops s [] (s\<lparr>bs_phase := Complete\<rparr>)"

text \<open>Executions, with the events the handler received.\<close>

inductive batch_steps ::
  "(int \<Rightarrow> 'e \<Rightarrow> 'h \<Rightarrow> 'h \<times> 'b list) \<Rightarrow> ('e \<Rightarrow> bool) \<Rightarrow> ('h, 'b) batch_system \<Rightarrow> 'e list \<Rightarrow> ('h, 'b) batch_system \<Rightarrow> bool"
  for turn stops where
  refl: "batch_steps turn stops s [] s"
| step: "batch_steps turn stops s evs t \<Longrightarrow> batch_step turn stops t es u \<Longrightarrow> batch_steps turn stops s (evs @ es) u"

definition batch_init :: "'h \<Rightarrow> ('h, 'b) batch_system" where
  "batch_init h = \<lparr>bs_handler = h, bs_created = [], bs_running = [], bs_sent = [], bs_phase = Serving\<rparr>"

lemma batch_steps_trans:
  "batch_steps turn stops t es u \<Longrightarrow> batch_steps turn stops s evs t \<Longrightarrow> batch_steps turn stops s (evs @ es) u"
proof (induction rule: batch_steps.induct)
  case (step t es v fs u)
  then show ?case by (metis append.assoc batch_steps.step)
qed simp

lemma batch_steps_one: "batch_step turn stops s es t \<Longrightarrow> batch_steps turn stops s es t"
  using batch_steps.step [OF batch_steps.refl] by fastforce

text \<open>Goroutines that exist can begin, and those that run can end, in any phase.\<close>

lemma created_can_run:
  "\<exists>t. batch_steps turn stops s [] t \<and> bs_created t = [] \<and> bs_running t = bs_running s @ bs_created s \<and>
       bs_sent t = bs_sent s \<and> bs_phase t = bs_phase s \<and> bs_handler t = bs_handler s"
proof (induction "bs_created s" arbitrary: s)
  case Nil
  then show ?case by (intro exI [of _ s]) (simp add: batch_steps.refl)
next
  case (Cons b bs)
  let ?t = "s\<lparr>bs_created := bs, bs_running := bs_running s @ [b]\<rparr>"
  have "batch_step turn stops s [] ?t"
    using batch_step.begin_commit [of s "[]" b bs turn stops] Cons.hyps(2) by simp
  moreover obtain u where "batch_steps turn stops ?t [] u" "bs_created u = []" "bs_running u = bs_running s @ b # bs"
    "bs_sent u = bs_sent s" "bs_phase u = bs_phase s" "bs_handler u = bs_handler s"
    using Cons.hyps(1) [of ?t] by auto
  ultimately show ?case
    using batch_steps_trans [OF _ batch_steps_one] Cons.hyps(2) by (intro exI [of _ u]) fastforce
qed

lemma running_can_end:
  "\<exists>t. batch_steps turn stops s [] t \<and> bs_running t = [] \<and> bs_created t = bs_created s \<and>
       bs_sent t = bs_sent s @ bs_running s \<and> bs_phase t = bs_phase s \<and> bs_handler t = bs_handler s"
proof (induction "bs_running s" arbitrary: s)
  case Nil
  then show ?case by (intro exI [of _ s]) (simp add: batch_steps.refl)
next
  case (Cons b bs)
  let ?t = "s\<lparr>bs_running := bs, bs_sent := bs_sent s @ [b]\<rparr>"
  have "batch_step turn stops s [] ?t"
    using batch_step.end_commit [of s "[]" b bs turn stops] Cons.hyps(2) by simp
  moreover obtain u where "batch_steps turn stops ?t [] u" "bs_running u = []" "bs_created u = bs_created s"
    "bs_sent u = bs_sent s @ b # bs" "bs_phase u = bs_phase s" "bs_handler u = bs_handler s"
    using Cons.hyps(1) [of ?t] by auto
  ultimately show ?case
    using batch_steps_trans [OF _ batch_steps_one] Cons.hyps(2) by (intro exI [of _ u]) fastforce
qed

lemma all_can_be_sent:
  "\<exists>t. batch_steps turn stops s [] t \<and> bs_created t = [] \<and> bs_running t = [] \<and>
       bs_sent t = bs_sent s @ bs_running s @ bs_created s \<and> bs_phase t = bs_phase s \<and> bs_handler t = bs_handler s"
proof -
  obtain t where t: "batch_steps turn stops s [] t" "bs_created t = []" "bs_running t = bs_running s @ bs_created s"
    "bs_sent t = bs_sent s" "bs_phase t = bs_phase s" "bs_handler t = bs_handler s"
    using created_can_run by blast
  obtain u where "batch_steps turn stops t [] u" "bs_running u = []" "bs_created u = bs_created t"
    "bs_sent u = bs_sent t @ bs_running t" "bs_phase u = bs_phase t" "bs_handler u = bs_handler t"
    using running_can_end by blast
  then show ?thesis using t batch_steps_trans [of turn stops t "[]" u s "[]"] by (intro exI [of _ u]) simp
qed

section \<open>The contract of a handler\<close>

text \<open>
  \<open>item\<close> is what an event brings, \<open>pack\<close> the batch of some items, and \<open>pending h ds\<close> says that the
  items \<open>ds\<close> wait in the buffer of \<open>h\<close>. A turn adds the item of the event to them and may cut
  batches off the front; a stop request leaves nothing behind.
\<close>

locale batch_handler =
  fixes turn :: "int \<Rightarrow> 'e \<Rightarrow> 'h \<Rightarrow> 'h \<times> 'b list"
    and stops :: "'e \<Rightarrow> bool"
    and item :: "'e \<Rightarrow> 'd list"
    and pack :: "'d list \<Rightarrow> 'b"
    and pending :: "'h \<Rightarrow> 'd list \<Rightarrow> bool"
  assumes turn_splits: "pending h ds \<Longrightarrow> turn now ev h = (h', bs) \<Longrightarrow>
      \<exists>out rest. bs = map pack out \<and> [] \<notin> set out \<and> pending h' rest \<and> concat out @ rest = ds @ item ev \<and> (stops ev \<longrightarrow> rest = [])"
    and stop_brings_nothing: "stops ev \<Longrightarrow> item ev = []"
begin

lemma run_splits:
  assumes "pending h ds" "handler_run turn evs h = (h', bs)"
  shows "\<exists>out rest. bs = map pack out \<and> [] \<notin> set out \<and> pending h' rest \<and>
           concat out @ rest = ds @ concat (map (\<lambda>e. item (snd e)) evs) \<and> (evs \<noteq> [] \<and> stops (snd (last evs)) \<longrightarrow> rest = [])"
  using assms
proof (induction evs arbitrary: h ds bs h')
  case Nil
  then show ?case by (intro exI [of _ "[]"] exI [of _ ds]) auto
next
  case (Cons e evs)
  obtain now ev where e: "e = (now, ev)" by (cases e)
  obtain h1 b1 where 1: "turn now ev h = (h1, b1)" by (cases "turn now ev h")
  obtain h2 b2 where 2: "handler_run turn evs h1 = (h2, b2)" by (cases "handler_run turn evs h1")
  have hb: "h' = h2" "bs = b1 @ b2" using Cons.prems(2) by (simp_all add: e 1 2)
  obtain o1 r1 where s1: "b1 = map pack o1" "[] \<notin> set o1" "pending h1 r1" "concat o1 @ r1 = ds @ item ev" "stops ev \<longrightarrow> r1 = []"
    using turn_splits [OF Cons.prems(1) 1] by blast
  obtain o2 r2 where s2: "b2 = map pack o2" "[] \<notin> set o2" "pending h2 r2" "concat o2 @ r2 = r1 @ concat (map (\<lambda>e. item (snd e)) evs)"
    "evs \<noteq> [] \<and> stops (snd (last evs)) \<longrightarrow> r2 = []"
    using Cons.IH [OF s1(3) 2] by blast
  have "concat (o1 @ o2) @ r2 = ds @ concat (map (\<lambda>e. item (snd e)) (e # evs))"
    using s1(4) s2(4) by (simp add: e)
  moreover have "e # evs \<noteq> [] \<and> stops (snd (last (e # evs))) \<longrightarrow> r2 = []"
    using s1(5) s2(4,5) by (cases evs) (auto simp: e)
  ultimately show ?case using hb s1(1,2) s2(1-3) by (intro exI [of _ "o1 @ o2"] exI [of _ r2]) simp
qed

text \<open>What holds of every batch a turn starts holds of every batch of a run.\<close>

lemma run_batches:
  assumes "\<And>h ds now ev h' bs b. pending h ds \<Longrightarrow> turn now ev h = (h', bs) \<Longrightarrow> b \<in> set bs \<Longrightarrow> P b"
  shows "pending h ds \<Longrightarrow> handler_run turn evs h = (h', bs) \<Longrightarrow> b \<in> set bs \<Longrightarrow> P b"
proof (induction evs arbitrary: h ds bs h')
  case (Cons e evs)
  obtain now ev where e: "e = (now, ev)" by (cases e)
  obtain h1 b1 where 1: "turn now ev h = (h1, b1)" by (cases "turn now ev h")
  obtain h2 b2 where 2: "handler_run turn evs h1 = (h2, b2)" by (cases "handler_run turn evs h1")
  have "bs = b1 @ b2" using Cons.prems(2) by (simp add: e 1 2)
  moreover obtain rest where "pending h1 rest" using turn_splits [OF Cons.prems(1) 1] by blast
  ultimately show ?case using Cons.IH [OF _ 2] assms [OF Cons.prems(1) 1] Cons.prems(3) by auto
qed simp

text \<open>In every reachable state the batches of all goroutines, however they interleave, with what is
  still buffered, are what was received.\<close>

lemma reachable_splits:
  assumes "batch_steps turn stops s evs t" "s = batch_init h" "pending h []"
  shows "\<exists>out rest. mset (bs_created t @ bs_running t @ bs_sent t) = mset (map pack out) \<and> [] \<notin> set out \<and>
           pending (bs_handler t) rest \<and> concat out @ rest = concat (map item evs) \<and> (bs_phase t \<noteq> Serving \<longrightarrow> rest = [])"
  using assms
proof (induction rule: batch_steps.induct)
  case (refl s)
  then show ?case by (intro exI [of _ "[]"]) (simp add: batch_init_def)
next
  case (step s evs t es u)
  then obtain out rest where i: "mset (bs_created t @ bs_running t @ bs_sent t) = mset (map pack out)" "[] \<notin> set out"
    "pending (bs_handler t) rest" "concat out @ rest = concat (map item evs)" "bs_phase t \<noteq> Serving \<longrightarrow> rest = []"
    by blast
  from step.hyps(2) show ?case
  proof cases
    case (handle now ev h bs)
    obtain o1 r1 where s1: "bs = map pack o1" "[] \<notin> set o1" "pending h r1" "concat o1 @ r1 = rest @ item ev" "stops ev \<longrightarrow> r1 = []"
      using turn_splits [OF i(3) handle(4)] by blast
    have "concat (out @ o1) @ r1 = concat (map item (evs @ es))"
      using i(4) s1(4) handle(1) by simp
    then show ?thesis using handle i(1,2) s1 by (intro exI [of _ "out @ o1"] exI [of _ r1]) auto
  next
    case (begin_commit xs b ys)
    then show ?thesis using i by (intro exI [of _ out] exI [of _ rest]) auto
  next
    case (end_commit xs b ys)
    then show ?thesis using i by (intro exI [of _ out] exI [of _ rest]) auto
  next
    case drained
    then show ?thesis using i by (intro exI [of _ out] exI [of _ rest]) auto
  qed
qed

text \<open>After a stop request the shutdown may complete before anything is sent.\<close>

lemma shutdown_too_soon:
  assumes "pending h ds" "stops ev"
  shows "\<exists>t out. batch_steps turn stops (batch_init h) [ev] t \<and> bs_phase t = Complete \<and> bs_sent t = [] \<and> bs_running t = [] \<and>
           bs_created t = map pack out \<and> [] \<notin> set out \<and> concat out = ds"
proof -
  obtain h' bs where t: "turn 0 ev h = (h', bs)" by (cases "turn 0 ev h")
  obtain out rest where o: "bs = map pack out" "[] \<notin> set out" "concat out @ rest = ds @ item ev" "rest = []"
    using turn_splits [OF assms(1) t] assms(2) by blast
  let ?s = "(batch_init h)\<lparr>bs_handler := h', bs_created := bs, bs_phase := Draining\<rparr>"
  have "batch_step turn stops (batch_init h) [ev] ?s"
    using batch_step.handle [of "batch_init h" turn 0 ev h' bs stops] t assms(2) by (simp add: batch_init_def)
  moreover have "batch_step turn stops ?s [] (?s\<lparr>bs_phase := Complete\<rparr>)"
    by (rule batch_step.drained) (simp_all add: batch_init_def)
  ultimately have "batch_steps turn stops (batch_init h) [ev] (?s\<lparr>bs_phase := Complete\<rparr>)"
    using batch_steps.step [OF batch_steps_one] by fastforce
  then show ?thesis using o stop_brings_nothing [OF assms(2)]
    by (intro exI [of _ "?s\<lparr>bs_phase := Complete\<rparr>"] exI [of _ out]) (simp add: batch_init_def)
qed

lemma shutdown_loses_one:
  assumes "pending h []" "turn now ev h = (h', [])" "item ev = [d]" "\<not> stops ev" "stops ev'"
  shows "\<exists>t. batch_steps turn stops (batch_init h) [ev, ev'] t \<and> bs_phase t = Complete \<and> bs_sent t = [] \<and>
           bs_running t = [] \<and> bs_created t = [pack [d]]"
proof -
  have p: "pending h' [d]" using turn_splits [OF assms(1,2)] assms(3) by auto
  obtain t out where t: "batch_steps turn stops (batch_init h') [ev'] t" "bs_phase t = Complete" "bs_sent t = []" "bs_running t = []"
    "bs_created t = map pack out" "[] \<notin> set out" "concat out = [d]"
    using shutdown_too_soon [OF p assms(5)] by auto
  have "out = [[d]]" using t(6,7) by (cases out; cases "tl out") (auto simp: append_eq_Cons_conv)
  moreover have "batch_step turn stops (batch_init h) [ev] (batch_init h')"
    using batch_step.handle [of "batch_init h" turn now ev h' "[]" stops] assms(2,4) by (simp add: batch_init_def)
  ultimately show ?thesis using t batch_steps_trans [OF t(1) batch_steps_one] by fastforce
qed

text \<open>From every reachable state after a stop request the shutdown can complete with everything sent.\<close>

lemma can_send_all:
  assumes "batch_steps turn stops (batch_init h) evs s" "pending h []" "bs_phase s = Draining"
  shows "\<exists>t out. batch_steps turn stops s [] t \<and> bs_phase t = Complete \<and> bs_created t = [] \<and> bs_running t = [] \<and>
           mset (bs_sent t) = mset (map pack out) \<and> concat out = concat (map item evs)"
proof -
  obtain t where t: "batch_steps turn stops s [] t" "bs_created t = []" "bs_running t = []"
    "bs_sent t = bs_sent s @ bs_running s @ bs_created s" "bs_phase t = Draining"
    using all_can_be_sent [of turn stops s] assms(3) by auto
  have u: "batch_steps turn stops s [] (t\<lparr>bs_phase := Complete\<rparr>)"
    using batch_steps.step [OF t(1) batch_step.drained [OF t(5,3)]] by simp
  obtain out rest where "mset (bs_created s @ bs_running s @ bs_sent s) = mset (map pack out)" "concat out @ rest = concat (map item evs)"
    "rest = []"
    using reachable_splits [OF assms(1) HOL.refl assms(2)] assms(3) by auto
  then show ?thesis using t u by (intro exI [of _ "t\<lparr>bs_phase := Complete\<rparr>"] exI [of _ out]) (simp add: ac_simps)
qed

end

end
