(* ===== verification/Bulk_Storage.thy ===== *)
theory Bulk_Storage
  imports Log_Fetcher Batching
begin

text \<open>
  The storage clients of the Elasticsearch and the OpenSearch writers
  (\<open>pkg/log_writers/elasticsearch/storage.go\<close>, \<open>job.go\<close> and their copies under \<open>opensearch\<close>). Records
  are collected in a buffer of bulk request lines; a handler cuts the buffer into batches, and each
  batch is sent by a goroutine that retries when the network fails. The client library is a
  parameter. The two packages differ where the text says so.
\<close>

section \<open>The buffer\<close>

record bulk_records =
  br_data :: string
  br_numRecords :: int

definition br_empty :: bulk_records where
  "br_empty = \<lparr>br_data = [], br_numRecords = 0\<rparr>"

definition br_Length :: "bulk_records \<Rightarrow> int" where
  "br_Length r = br_numRecords r"

definition br_SizeInBytes :: "bulk_records \<Rightarrow> int" where
  "br_SizeInBytes r = int (length (br_data r))"

definition bulk_meta :: "string \<Rightarrow> string" where
  "bulk_meta docID = ''{ \"index\" : { \"_id\" : \"'' @ docID @ ''\" } }''"

definition br_Append :: "string \<Rightarrow> string \<Rightarrow> bulk_records \<Rightarrow> bulk_records" where
  "br_Append docID value r =
     r\<lparr>br_data := br_data r @ bulk_meta docID @ [CHR 0x0A] @ value @ [CHR 0x0A], br_numRecords := br_numRecords r + 1\<rparr>"

text \<open>Reading the copy drains the buffer of bytes, not the count.\<close>

definition br_Records :: "bulk_records \<Rightarrow> string \<times> bulk_records" where
  "br_Records r = (br_data r, r\<lparr>br_data := []\<rparr>)"

definition br_Clear :: "bulk_records \<Rightarrow> bulk_records" where
  "br_Clear r = r\<lparr>br_data := [], br_numRecords := 0\<rparr>"

section \<open>Responses\<close>

record es_cause =
  ec_Type :: string
  ec_Reason :: string

record es_error =
  ee_Type :: string
  ee_Reason :: string
  ee_Cause :: es_cause

record es_index =
  ei_ID :: string
  ei_Result :: string
  ei_Status :: int
  ei_Error :: es_error

record bulkResponse =
  blk_Errors :: bool
  blk_Items :: "es_index list"

definition ei_zero :: es_index where
  "ei_zero = \<lparr>ei_ID = [], ei_Result = [], ei_Status = 0,
     ei_Error = \<lparr>ee_Type = [], ee_Reason = [], ee_Cause = \<lparr>ec_Type = [], ec_Reason = []\<rparr>\<rparr>\<rparr>"

definition cause_fields :: "es_cause fields" where
  "cause_fields = [str_always ''type'' ec_Type ec_Type_update, str_always ''reason'' ec_Reason ec_Reason_update]"

definition error_fields :: "es_error fields" where
  "error_fields =
     [str_always ''type'' ee_Type ee_Type_update, str_always ''reason'' ee_Reason ee_Reason_update,
      struct_field ''caused_by'' cause_fields ee_Cause ee_Cause_update]"

definition index_fields :: "es_index fields" where
  "index_fields =
     [str_always ''_id'' ei_ID ei_ID_update, str_always ''result'' ei_Result ei_Result_update,
      int_always ''status'' ei_Status ei_Status_update,
      struct_field ''error'' error_fields ei_Error ei_Error_update]"

text \<open>An item is a struct whose only field is \<open>index\<close>.\<close>

definition item_fields :: "es_index fields" where
  "item_fields = [struct_field ''index'' index_fields id id]"

definition bulk_fields :: "bulkResponse fields" where
  "bulk_fields =
     [bool_field ''errors'' blk_Errors blk_Errors_update,
      list_always ''items'' (enc_struct item_fields) (\<lambda>v. dec_struct item_fields v ei_zero) blk_Items blk_Items_update]"

text \<open>\<open>json.NewDecoder(r).Decode\<close> reads the first value and leaves the rest.\<close>

definition json_first :: "string \<Rightarrow> json option" where
  "json_first s = map_option fst (pval (2 * length s + 2) s)"

section \<open>Client\<close>

record BulkClient =
  bc_MajorVersion :: int
  bc_DocumentType :: string
  bc_index :: string
  bc_Refresh :: bool
  bc_Pipeline :: "string option"
  bc_records :: bulk_records
  bc_maxRetries :: int
  bc_delay :: int

record bulk_options =
  bo_Index :: string
  bo_DocumentType :: "string option"
  bo_Pipeline :: "string option"

record bulk_reply =
  rp_Status :: int
  rp_Body :: string

text \<open>The library: it is given the bytes that are left in the reader, reads some of them, and answers
  unless the network fails. The first component of the result is its next state, the second the
  number of bytes read.\<close>

type_synonym 'n bulk_api = "'n \<Rightarrow> bulk_options \<Rightarrow> string \<Rightarrow> 'n \<times> nat \<times> bulk_reply option"

text \<open>A counter is increased by an amount; of the labels, the one that tells written from not written.\<close>

datatype bulk_metric = Add string int string

datatype bulk_error = NetworkFailure int int | BadReply

section \<open>Configuration\<close>

text \<open>\<open>strconv.Atoi\<close>.\<close>

definition atoi :: "string \<Rightarrow> int option" where
  "atoi s =
     (let neg = has_prefix s ''-'';
          ds = (if neg \<or> has_prefix s ''+'' then tl s else s);
          i = (if neg then - int (digits_val ds) else int (digits_val ds))
      in if ds \<noteq> [] \<and> list_all is_digit ds \<and> in_int64 i then Some i else None)"

record InfoResponse =
  in_Name :: string
  in_ClusterName :: string
  in_ClusterUUID :: string
  in_Number :: string

definition version_fields :: "string fields" where
  "version_fields = [str_always ''number'' id id]"

text \<open>The struct \<open>Version\<close> has no tag and matches the member \<open>version\<close>. The two other numbers of the
  version are decoded as well, and not used.\<close>

definition info_fields :: "InfoResponse fields" where
  "info_fields =
     [str_always ''name'' in_Name in_Name_update, str_always ''cluster_name'' in_ClusterName in_ClusterName_update,
      str_always ''cluster_uuid'' in_ClusterUUID in_ClusterUUID_update,
      struct_field ''Version'' version_fields in_Number in_Number_update]"

record BulkConfig =
  bf_NumWorkers :: int
  bf_Limit :: dec
  bf_Burst :: int
  bf_DocType :: string
  bf_IndexPrefix :: string
  bf_AppendDateToIndex :: bool
  bf_Refresh :: bool
  bf_MaxRetries :: int
  bf_Delay :: int
  bf_Pipeline :: "string option"

text \<open>A status from the library, or none when the call failed.\<close>

definition version_major :: "(int \<times> string) option \<Rightarrow> int option" where
  "version_major info =
     (case info of
        None \<Rightarrow> None
      | Some (status, body) \<Rightarrow>
          if 400 \<le> status then None
          else (case json_first body of
                  None \<Rightarrow> None
                | Some v \<Rightarrow>
                    (let (i, ok) = dec_struct info_fields v \<lparr>in_Name = [], in_ClusterName = [], in_ClusterUUID = [], in_Number = []\<rparr>
                     in if ok then atoi (hd (split_on (CHR ''.'') (in_Number i))) else None)))"

definition es_NewStorage :: "BulkConfig \<Rightarrow> int option \<Rightarrow> (int \<times> string) option \<Rightarrow> BulkClient option" where
  "es_NewStorage config ping info =
     (case ping of
        None \<Rightarrow> None
      | Some status \<Rightarrow>
          if 400 \<le> status then None
          else do { v \<leftarrow> version_major info;
                    Some \<lparr>bc_MajorVersion = v,
                          bc_DocumentType = (if bf_DocType config = [] then ''mix3-record'' else bf_DocType config),
                          bc_index = [], bc_Refresh = bf_Refresh config, bc_Pipeline = bf_Pipeline config,
                          bc_records = br_empty, bc_maxRetries = bf_MaxRetries config, bc_delay = bf_Delay config\<rparr> })"

text \<open>OpenSearch is not asked for its version; the index prefix serves as document type in metrics.\<close>

definition os_NewStorage :: "BulkConfig \<Rightarrow> int option \<Rightarrow> BulkClient option" where
  "os_NewStorage config ping =
     (case ping of
        None \<Rightarrow> None
      | Some status \<Rightarrow>
          if 400 \<le> status then None
          else Some \<lparr>bc_MajorVersion = 0, bc_DocumentType = bf_IndexPrefix config, bc_index = [],
                     bc_Refresh = bf_Refresh config, bc_Pipeline = bf_Pipeline config, bc_records = br_empty,
                     bc_maxRetries = bf_MaxRetries config, bc_delay = bf_Delay config\<rparr>)"

section \<open>One batch\<close>

definition es_bulkRequestOptionsBuilder :: "BulkClient \<Rightarrow> bulk_options" where
  "es_bulkRequestOptionsBuilder e =
     \<lparr>bo_Index = bc_index e, bo_DocumentType = (if bc_MajorVersion e < 8 then Some (bc_DocumentType e) else None),
      bo_Pipeline = bc_Pipeline e\<rparr>"

definition os_bulkRequestOptionsBuilder :: "BulkClient \<Rightarrow> bulk_options" where
  "os_bulkRequestOptionsBuilder e = \<lparr>bo_Index = bc_index e, bo_DocumentType = None, bo_Pipeline = bc_Pipeline e\<rparr>"

definition callBulkApi ::
  "'n bulk_api \<Rightarrow> (BulkClient \<Rightarrow> bulk_options) \<Rightarrow> BulkClient \<Rightarrow> 'n \<Rightarrow> string \<Rightarrow> 'n \<times> string \<times> bulk_reply option" where
  "callBulkApi api opts e n r = (let (n', used, res) = api n (opts e) r in (n', drop used r, res))"

definition processNetworkFailure :: "BulkClient \<Rightarrow> int \<Rightarrow> int \<Rightarrow> bulk_metric list \<times> bulk_error option" where
  "processNetworkFailure e retry numRecords =
     (if 0 \<le> bc_maxRetries e \<and> bc_maxRetries e < retry
      then ([Add ''WritesTotalCounter'' numRecords ''NotWritten'', Add ''CommitTotalCounter'' numRecords ''NetworkError''],
            Some (NetworkFailure retry (bc_maxRetries e)))
      else ([], None))"

text \<open>The reply to a request that failed as a whole; \<^term>\<open>None\<close> is the panic of a type assertion. With
  Elasticsearch the member \<open>error\<close> may be anything, but an object there needs a string as
  \<open>reason\<close>; with OpenSearch it has to be a string.\<close>

definition failure_metrics :: "int \<Rightarrow> int \<Rightarrow> bulk_metric list" where
  "failure_metrics status numRecords =
     [Add ''WritesTotalCounter'' numRecords ''NotWritten'', Add ''CommitTotalCounter'' numRecords (itoa status)]"

definition raw_error :: "json \<Rightarrow> json option" where
  "raw_error v = (case v of JObj kvs \<Rightarrow> obj_get (obj_of kvs) ''error'' | _ \<Rightarrow> None)"

definition is_map :: "json \<Rightarrow> bool" where
  "is_map v = (case v of JObj _ \<Rightarrow> True | JNull \<Rightarrow> True | _ \<Rightarrow> False)"

definition es_processBulkResponseCompleteFailure :: "bulk_reply \<Rightarrow> int \<Rightarrow> bulk_metric list option" where
  "es_processBulkResponseCompleteFailure res numRecords =
     (case json_first (rp_Body res) of
        None \<Rightarrow> Some (failure_metrics (rp_Status res) numRecords)
      | Some v \<Rightarrow>
          if \<not> is_map v then Some (failure_metrics (rp_Status res) numRecords)
          else (case raw_error v of
                  Some (JObj m) \<Rightarrow> (case obj_get (obj_of m) ''reason'' of
                                      Some (JStr _) \<Rightarrow> Some (failure_metrics (rp_Status res) numRecords)
                                    | _ \<Rightarrow> None)
                | _ \<Rightarrow> Some (failure_metrics (rp_Status res) numRecords)))"

definition os_processBulkResponseCompleteFailure :: "bulk_reply \<Rightarrow> int \<Rightarrow> bulk_metric list option" where
  "os_processBulkResponseCompleteFailure res numRecords =
     (case json_first (rp_Body res) of
        None \<Rightarrow> Some (failure_metrics (rp_Status res) numRecords)
      | Some v \<Rightarrow>
          if \<not> is_map v then Some (failure_metrics (rp_Status res) numRecords)
          else (case raw_error v of
                  Some (JStr _) \<Rightarrow> Some (failure_metrics (rp_Status res) numRecords)
                | _ \<Rightarrow> None))"

text \<open>The loop over the items of a reply, with the two counters of the caller.\<close>

fun count_items :: "es_index list \<Rightarrow> int \<times> int \<Rightarrow> bulk_metric list \<times> int \<times> int" where
  "count_items [] c = ([], c)"
| "count_items (d # ds) (numIndexed, numErrors) =
     (let bad = 201 < ei_Status d;
          (ms, c) = count_items ds (if bad then (numIndexed, numErrors + 1) else (numIndexed + 1, numErrors))
      in (Add ''WritesTotalCounter'' 1 (if bad then ''NotWritten'' else ''Written'') #
          Add ''CommitTotalCounter'' 1 (itoa (ei_Status d)) # ms, c))"

text \<open>A reply of \<open>null\<close> leaves the pointer nil, and the loop over the items panics.\<close>

definition processBulkResponse ::
  "bulk_reply \<Rightarrow> int \<times> int \<Rightarrow> (bulk_metric list \<times> (int \<times> int) \<times> bulk_error option) option" where
  "processBulkResponse res c =
     (case json_first (rp_Body res) of
        None \<Rightarrow> Some ([], c, Some BadReply)
      | Some JNull \<Rightarrow> None
      | Some v \<Rightarrow>
          (let (blk, ok) = dec_struct bulk_fields v \<lparr>blk_Errors = False, blk_Items = []\<rparr>
           in if ok then (let (ms, c') = count_items (blk_Items blk) c in Some (ms, c', None))
              else Some ([], c, Some BadReply)))"

text \<open>
  The outcome of a commit: the counters, the error and the metrics, with the body of every attempt
  as a ghost. \<open>Panicked\<close> is the death of the process.
\<close>

datatype commit_outcome =
    Panicked
  | Finished (co_indexed: int) (co_errors: int) (co_err: "bulk_error option") (co_metrics: "bulk_metric list")
      (co_sent: "(bulk_options \<times> string) list")

record bulk_flavour =
  fl_opts :: "BulkClient \<Rightarrow> bulk_options"
  fl_failure :: "bulk_reply \<Rightarrow> int \<Rightarrow> bulk_metric list option"

definition es_flavour :: bulk_flavour where
  "es_flavour = \<lparr>fl_opts = es_bulkRequestOptionsBuilder, fl_failure = es_processBulkResponseCompleteFailure\<rparr>"

definition os_flavour :: bulk_flavour where
  "os_flavour = \<lparr>fl_opts = os_bulkRequestOptionsBuilder, fl_failure = os_processBulkResponseCompleteFailure\<rparr>"

text \<open>
  The loop of \<open>commit\<close>. The reader over the batch is created before the loop, so an attempt gets
  what the ones before left in it. Other goroutines may change the client while it waits: \<open>cl i\<close>
  is the client at the attempt after \<open>i\<close> failures. The first argument is fuel, and
  \<^term>\<open>None\<close> means that it ran out.
\<close>

fun commit_loop ::
  "nat \<Rightarrow> bulk_flavour \<Rightarrow> 'n bulk_api \<Rightarrow> (nat \<Rightarrow> BulkClient) \<Rightarrow> 'n \<Rightarrow> string \<Rightarrow> int \<Rightarrow> nat \<Rightarrow> (bulk_options \<times> string) list \<Rightarrow>
   commit_outcome option" where
  "commit_loop 0 fl api cl n r cnt retry sent = None"
| "commit_loop (Suc k) fl api cl n r cnt retry sent =
     (let e = cl retry;
          (n', r', res) = callBulkApi api (fl_opts fl) e n r;
          sent' = sent @ [(fl_opts fl e, r)]
      in case res of
           None \<Rightarrow>
             (let (ms, err) = processNetworkFailure (cl (Suc retry)) (int (Suc retry)) cnt
              in if err = None then commit_loop k fl api cl n' r' cnt (Suc retry) sent'
                 else Some (Finished 0 cnt err ms sent'))
         | Some reply \<Rightarrow>
             if 299 < rp_Status reply then
               (case fl_failure fl reply cnt of
                  None \<Rightarrow> Some Panicked
                | Some ms \<Rightarrow> Some (Finished 0 cnt None ms sent'))
             else
               (case processBulkResponse reply (0, 0) of
                  None \<Rightarrow> Some Panicked
                | Some (ms, (numIndexed, numErrors), err) \<Rightarrow> Some (Finished numIndexed numErrors err ms sent')))"

definition bulk_commit ::
  "nat \<Rightarrow> bulk_flavour \<Rightarrow> 'n bulk_api \<Rightarrow> (nat \<Rightarrow> BulkClient) \<Rightarrow> 'n \<Rightarrow> string \<Rightarrow> int \<Rightarrow> commit_outcome option" where
  "bulk_commit k fl api cl n records cnt = commit_loop k fl api cl n records cnt 0 []"

section \<open>Jobs\<close>

datatype job_action = WRITE | READ | DELETE

record Job =
  jo_Index :: string
  jo_DocID :: string
  jo_Body :: string
  jo_Action :: job_action

text \<open>A slice of bytes may be nil; the writers never pass a nil one.\<close>

definition NewJob :: "job_action \<Rightarrow> string \<Rightarrow> string \<Rightarrow> string option \<Rightarrow> Job option" where
  "NewJob action key path data =
     (if key = [] \<or> path = [] then None
      else map_option (\<lambda>d. \<lparr>jo_Index = key, jo_DocID = path, jo_Body = d, jo_Action = action\<rparr>) data)"

text \<open>What a worker of the pool does with a job: pass the record on, or log that the operation is not
  implemented. A nil job is dereferenced.\<close>

definition storageHandler :: "Job option \<Rightarrow> Job option option" where
  "storageHandler request =
     (case request of
        None \<Rightarrow> None
      | Some job \<Rightarrow> Some (case jo_Action job of WRITE \<Rightarrow> Some job | READ \<Rightarrow> None | DELETE \<Rightarrow> None))"

definition bulk_Write :: "string \<Rightarrow> string \<Rightarrow> string \<Rightarrow> BulkClient \<Rightarrow> BulkClient \<times> Job option" where
  "bulk_Write key path data e = (e\<lparr>bc_index := key\<rparr>, NewJob WRITE key path (Some data))"

section \<open>The commit handler\<close>

definition RECORD_CNT_THRESHOLD :: int where
  "RECORD_CNT_THRESHOLD = 1000"

definition TICKER_TIMEOUT_MS :: int where
  "TICKER_TIMEOUT_MS = 30000"

text \<open>What the handler receives: a job, a tick of its timer, or the request to stop. The clock is in
  milliseconds.\<close>

datatype handler_event = GotRecord Job | Tick | Stop

record handler =
  ha_client :: BulkClient
  ha_lastCommit :: int

type_synonym batch = "string \<times> int"

text \<open>The arguments of \<open>go commit(...)\<close> are evaluated at once: the batch is the data with the count.\<close>

definition spawn_commit :: "BulkClient \<Rightarrow> BulkClient \<times> batch" where
  "spawn_commit e =
     (let (data, r) = br_Records (bc_records e)
      in (e\<lparr>bc_records := br_Clear r\<rparr>, (data, br_Length r)))"

definition commitHandler :: "int \<Rightarrow> handler_event \<Rightarrow> handler \<Rightarrow> handler \<times> batch list" where
  "commitHandler now ev h =
     (case ev of
        GotRecord job \<Rightarrow>
          (let e = (ha_client h)\<lparr>bc_records := br_Append (jo_DocID job) (jo_Body job) (bc_records (ha_client h))\<rparr>
           in if RECORD_CNT_THRESHOLD \<le> br_Length (bc_records e)
              then (let (e', b) = spawn_commit e in (h\<lparr>ha_client := e', ha_lastCommit := now\<rparr>, [b]))
              else (h\<lparr>ha_client := e\<rparr>, []))
      | Tick \<Rightarrow>
          if br_Length (bc_records (ha_client h)) = 0 then (h, [])
          else if TICKER_TIMEOUT_MS \<le> now - ha_lastCommit h
          then (let (e', b) = spawn_commit (ha_client h) in (h\<lparr>ha_client := e', ha_lastCommit := now\<rparr>, [b]))
          else (h, [])
      | Stop \<Rightarrow>
          if 0 < br_Length (bc_records (ha_client h))
          then (let (e', b) = spawn_commit (ha_client h) in (h\<lparr>ha_client := e'\<rparr>, [b]))
          else (h, []))"

text \<open>The OpenSearch package repeats these operations word for word on its own types.\<close>

abbreviation os_Length :: "bulk_records \<Rightarrow> int" where
  "os_Length \<equiv> br_Length"

abbreviation os_SizeInBytes :: "bulk_records \<Rightarrow> int" where
  "os_SizeInBytes \<equiv> br_SizeInBytes"

abbreviation os_Append :: "string \<Rightarrow> string \<Rightarrow> bulk_records \<Rightarrow> bulk_records" where
  "os_Append \<equiv> br_Append"

abbreviation os_Records :: "bulk_records \<Rightarrow> string \<times> bulk_records" where
  "os_Records \<equiv> br_Records"

abbreviation os_Clear :: "bulk_records \<Rightarrow> bulk_records" where
  "os_Clear \<equiv> br_Clear"

abbreviation os_callBulkApi :: "'n bulk_api \<Rightarrow> BulkClient \<Rightarrow> 'n \<Rightarrow> string \<Rightarrow> 'n \<times> string \<times> bulk_reply option" where
  "os_callBulkApi api \<equiv> callBulkApi api os_bulkRequestOptionsBuilder"

abbreviation os_processNetworkFailure :: "BulkClient \<Rightarrow> int \<Rightarrow> int \<Rightarrow> bulk_metric list \<times> bulk_error option" where
  "os_processNetworkFailure \<equiv> processNetworkFailure"

abbreviation os_processBulkResponse ::
  "bulk_reply \<Rightarrow> int \<times> int \<Rightarrow> (bulk_metric list \<times> (int \<times> int) \<times> bulk_error option) option" where
  "os_processBulkResponse \<equiv> processBulkResponse"

abbreviation es_commit :: "nat \<Rightarrow> 'n bulk_api \<Rightarrow> (nat \<Rightarrow> BulkClient) \<Rightarrow> 'n \<Rightarrow> string \<Rightarrow> int \<Rightarrow> commit_outcome option" where
  "es_commit k \<equiv> bulk_commit k es_flavour"

abbreviation os_commit :: "nat \<Rightarrow> 'n bulk_api \<Rightarrow> (nat \<Rightarrow> BulkClient) \<Rightarrow> 'n \<Rightarrow> string \<Rightarrow> int \<Rightarrow> commit_outcome option" where
  "os_commit k \<equiv> bulk_commit k os_flavour"

abbreviation os_NewJob :: "job_action \<Rightarrow> string \<Rightarrow> string \<Rightarrow> string option \<Rightarrow> Job option" where
  "os_NewJob \<equiv> NewJob"

abbreviation os_storageHandler :: "Job option \<Rightarrow> Job option option" where
  "os_storageHandler \<equiv> storageHandler"

abbreviation os_Write :: "string \<Rightarrow> string \<Rightarrow> string \<Rightarrow> BulkClient \<Rightarrow> BulkClient \<times> Job option" where
  "os_Write \<equiv> bulk_Write"

abbreviation os_commitHandler :: "int \<Rightarrow> handler_event \<Rightarrow> handler \<Rightarrow> handler \<times> batch list" where
  "os_commitHandler \<equiv> commitHandler"

section \<open>The lines of a batch\<close>

text \<open>The documents of a buffer, for reasoning: each one gives two lines.\<close>

definition doc_text :: "string \<times> string \<Rightarrow> string" where
  "doc_text d = bulk_meta (fst d) @ [CHR 0x0A] @ snd d @ [CHR 0x0A]"

definition docs_text :: "(string \<times> string) list \<Rightarrow> string" where
  "docs_text ds = concat (map doc_text ds)"

definition one_line :: "string \<Rightarrow> bool" where
  "one_line s = (CHR 0x0A \<notin> set s)"

lemma one_line_meta: "one_line d \<Longrightarrow> one_line (bulk_meta d)"
  by (auto simp: one_line_def bulk_meta_def)

text \<open>The server gets the batch back in the pieces it was made of: as long as no record and no
  document id contains a line break, splitting the body of a bulk request at line breaks gives, for
  each document in order, the line that names it and the record.\<close>

lemma bulk_body_lines:
  assumes "\<And>d. d \<in> set ds \<Longrightarrow> one_line (fst d) \<and> one_line (snd d)"
  shows "split_on (CHR 0x0A) (br_data (fold (\<lambda>d r. br_Append (fst d) (snd d) r) ds br_empty)) =
           concat (map (\<lambda>d. [bulk_meta (fst d), snd d]) ds) @ [[]]"
proof -
  have data: "br_data (fold (\<lambda>d r. br_Append (fst d) (snd d) r) es r) = br_data r @ docs_text es" for es r
    by (induction es arbitrary: r) (auto simp: br_Append_def docs_text_def doc_text_def)
  have "split_on (CHR 0x0A) (docs_text es) = concat (map (\<lambda>d. [bulk_meta (fst d), snd d]) es) @ [[]]"
    if "\<And>d. d \<in> set es \<Longrightarrow> one_line (fst d) \<and> one_line (snd d)" for es
    using that
  proof (induction es)
    case (Cons d es)
    have "CHR 0x0A \<notin> set (bulk_meta (fst d))" "CHR 0x0A \<notin> set (snd d)"
      using Cons.prems [of d] one_line_meta [of "fst d"] by (auto simp: one_line_def)
    then show ?case using Cons by (simp add: docs_text_def doc_text_def split_on_append)
  qed (simp add: docs_text_def)
  then show ?thesis using assms data by (simp add: br_empty_def)
qed

lemma bulk_body_lines_example:
  "split_on (CHR 0x0A) (br_data (fold (\<lambda>d r. br_Append (fst d) (snd d) r) [(''1'', ''{}''), (''2'', ''[]'')] br_empty)) =
     [bulk_meta ''1'', ''{}'', bulk_meta ''2'', ''[]'', []]"
proof -
  have "one_line (fst d) \<and> one_line (snd d)" if "d \<in> set [(''1'', ''{}''), (''2'', ''[]'')]" for d
    using that by (auto simp: one_line_def)
  then show ?thesis using bulk_body_lines [of "[(''1'', ''{}''), (''2'', ''[]'')]"] by simp
qed

section \<open>No record is lost on the way to a batch\<close>

text \<open>The specification of the handler: documents queue up and leave in batches.\<close>

definition buffered :: "BulkClient \<Rightarrow> (string \<times> string) list \<Rightarrow> bool" where
  "buffered e ds = (br_data (bc_records e) = docs_text ds \<and> br_numRecords (bc_records e) = int (length ds))"

definition bulk_item :: "handler_event \<Rightarrow> (string \<times> string) list" where
  "bulk_item ev = (case ev of GotRecord job \<Rightarrow> [(jo_DocID job, jo_Body job)] | Tick \<Rightarrow> [] | Stop \<Rightarrow> [])"

definition jobs_of :: "(int \<times> handler_event) list \<Rightarrow> (string \<times> string) list" where
  "jobs_of evs = concat (map (\<lambda>e. bulk_item (snd e)) evs)"

definition batch_of :: "(string \<times> string) list \<Rightarrow> batch" where
  "batch_of ds = (docs_text ds, int (length ds))"

lemma spawn_commit_eval:
  "buffered e ds \<Longrightarrow> \<exists>e'. spawn_commit e = (e', batch_of ds) \<and> buffered e' []"
  by (auto simp: spawn_commit_def br_Records_def br_Clear_def br_Length_def buffered_def batch_of_def docs_text_def)

lemma docs_text_snoc: "docs_text (ds @ [d]) = docs_text ds @ doc_text d"
  by (simp add: docs_text_def)

text \<open>One event: the buffer grows by the job, or leaves as one batch.\<close>

lemma commitHandler_spec:
  assumes "buffered (ha_client h) ds" "length ds < 1000" "commitHandler now ev h = (h', bs)"
  shows "\<exists>out rest. bs = map batch_of out \<and> [] \<notin> set out \<and> (buffered (ha_client h') rest \<and> length rest < 1000) \<and>
           concat out @ rest = ds @ bulk_item ev \<and> (ev = Stop \<longrightarrow> rest = [])"
proof (cases ev)
  case (GotRecord job)
  let ?ds = "ds @ [(jo_DocID job, jo_Body job)]"
  let ?e = "(ha_client h)\<lparr>bc_records := br_Append (jo_DocID job) (jo_Body job) (bc_records (ha_client h))\<rparr>"
  have b: "buffered ?e ?ds"
    using assms(1) by (simp add: buffered_def br_Append_def docs_text_snoc doc_text_def)
  then obtain e' where e': "spawn_commit ?e = (e', batch_of ?ds)" "buffered e' []" using spawn_commit_eval by blast
  show ?thesis
  proof (cases "RECORD_CNT_THRESHOLD \<le> br_Length (bc_records ?e)")
    case True
    then show ?thesis using assms(3) GotRecord e'
      by (intro exI [of _ "[?ds]"] exI [of _ "[]"]) (auto simp: commitHandler_def bulk_item_def)
  next
    case False
    then have "length ?ds < 1000" using b by (simp add: buffered_def RECORD_CNT_THRESHOLD_def br_Length_def)
    then show ?thesis using assms(3) GotRecord False b
      by (intro exI [of _ "[]"] exI [of _ ?ds]) (auto simp: commitHandler_def bulk_item_def)
  qed
next
  case Tick
  obtain e' where e': "spawn_commit (ha_client h) = (e', batch_of ds)" "buffered e' []" using spawn_commit_eval assms(1) by blast
  show ?thesis
  proof (cases "br_Length (bc_records (ha_client h)) \<noteq> 0 \<and> TICKER_TIMEOUT_MS \<le> now - ha_lastCommit h")
    case True
    then have "ds \<noteq> []" using assms(1) by (auto simp: buffered_def br_Length_def)
    then show ?thesis using True assms(3) Tick e'
      by (intro exI [of _ "[ds]"] exI [of _ "[]"]) (auto simp: commitHandler_def bulk_item_def)
  next
    case False
    then show ?thesis using assms Tick
      by (intro exI [of _ "[]"] exI [of _ ds]) (auto simp: commitHandler_def bulk_item_def split: if_splits)
  qed
next
  case Stop
  obtain e' where e': "spawn_commit (ha_client h) = (e', batch_of ds)" "buffered e' []" using spawn_commit_eval assms(1) by blast
  show ?thesis
  proof (cases "0 < br_Length (bc_records (ha_client h))")
    case True
    then have "ds \<noteq> []" using assms(1) by (auto simp: buffered_def br_Length_def)
    then show ?thesis using True assms(3) Stop e'
      by (intro exI [of _ "[ds]"] exI [of _ "[]"]) (auto simp: commitHandler_def bulk_item_def)
  next
    case False
    then have "ds = []" using assms(1) by (simp add: buffered_def br_Length_def)
    then show ?thesis using assms Stop False
      by (intro exI [of _ "[]"] exI [of _ "[]"]) (auto simp: commitHandler_def bulk_item_def)
  qed
qed

interpretation bulk: batch_handler commitHandler "\<lambda>ev. ev = Stop" bulk_item batch_of
  "\<lambda>h ds. buffered (ha_client h) ds \<and> length ds < 1000"
proof unfold_locales
  fix h h' ds now ev bs
  assume "buffered (ha_client h) ds \<and> length ds < 1000" "commitHandler now ev h = (h', bs)"
  then show "\<exists>out rest. bs = map batch_of out \<and> [] \<notin> set out \<and> (buffered (ha_client h') rest \<and> length rest < 1000) \<and>
      concat out @ rest = ds @ bulk_item ev \<and> (ev = Stop \<longrightarrow> rest = [])"
    using commitHandler_spec by blast
qed (simp add: bulk_item_def)

definition fresh_handler :: "BulkClient \<Rightarrow> handler" where
  "fresh_handler e = \<lparr>ha_client = e\<lparr>bc_records := br_empty\<rparr>, ha_lastCommit = 0\<rparr>"

lemma fresh_handler_buffered:
  "buffered (ha_client (fresh_handler e)) [] \<and> length ([] :: (string \<times> string) list) < 1000"
  by (simp add: fresh_handler_def buffered_def br_empty_def docs_text_def)

text \<open>C24. Whatever mix of records, timer ticks and stop requests the commit handler receives, the
  batches it starts, in order, followed by what is still buffered, are exactly the documents it
  received, in order; the count that goes with a batch is the number of its documents; fewer than
  a thousand documents ever wait; and after a stop request none does.\<close>

theorem batches_partition_the_records:
  assumes "handler_run commitHandler evs (fresh_handler e) = (h', bs)"
  shows "\<exists>out rest. bs = map batch_of out \<and> [] \<notin> set out \<and> concat out @ rest = jobs_of evs \<and> buffered (ha_client h') rest \<and>
           length rest < 1000 \<and> (evs \<noteq> [] \<and> snd (last evs) = Stop \<longrightarrow> rest = [])"
proof -
  have "buffered (ha_client (fresh_handler e)) [] \<and> length ([] :: (string \<times> string) list) < 1000"
    by (rule fresh_handler_buffered)
  from bulk.run_splits [OF this assms] show ?thesis by (auto simp: jobs_of_def)
qed

definition ex_client :: BulkClient where
  "ex_client = \<lparr>bc_MajorVersion = 7, bc_DocumentType = ''d'', bc_index = [], bc_Refresh = True, bc_Pipeline = None,
     bc_records = br_empty, bc_maxRetries = 2, bc_delay = 0\<rparr>"

definition ex_job :: Job where
  "ex_job = \<lparr>jo_Index = ''i'', jo_DocID = ''1'', jo_Body = ''{}'', jo_Action = WRITE\<rparr>"

theorem batches_partition_the_records_witness:
  "\<exists>h' bs out. handler_run commitHandler [(0, GotRecord ex_job), (40000, Tick), (40001, GotRecord ex_job), (40002, Stop)] (fresh_handler ex_client) =
       (h', bs) \<and> bs = map batch_of out \<and> concat out = [(''1'', ''{}''), (''1'', ''{}'')]"
proof -
  let ?evs = "[(0, GotRecord ex_job), (40000, Tick), (40001, GotRecord ex_job), (40002, Stop)]"
  obtain h' bs where run: "handler_run commitHandler ?evs (fresh_handler ex_client) = (h', bs)"
    by (cases "handler_run commitHandler ?evs (fresh_handler ex_client)")
  then show ?thesis using batches_partition_the_records [OF run] by (auto simp: ex_job_def jobs_of_def bulk_item_def)
qed

section \<open>Sending a batch\<close>

lemma commit_loop_returns:
  assumes "\<And>i. bc_maxRetries (cl i) = m" "0 \<le> m"
  shows "m < int (k + retry) \<Longrightarrow> 0 < k \<Longrightarrow> commit_loop k fl api cl n r cnt retry sent \<noteq> None"
proof (induction k arbitrary: n r retry sent)
  case (Suc k)
  have "commit_loop k fl api cl n' r' cnt (Suc retry) sent' \<noteq> None" if "int (Suc retry) \<le> m" for n' r' sent'
    using Suc.IH [of "Suc retry" n' r' sent'] Suc.prems that by simp
  then show ?case
    using assms by (auto simp: processNetworkFailure_def Let_def split: prod.splits option.splits if_splits)
qed simp

text \<open>C25. With a limit on the number of retries the loop of \<open>commit\<close> always ends, whatever the network
  and the server do: one more turn than there are retries is enough.\<close>

theorem commit_terminates:
  assumes "\<And>i. bc_maxRetries (cl i) = m" "0 \<le> m" "nat m < k"
  shows "bulk_commit k fl api cl n records cnt \<noteq> None"
proof -
  have "m < int (k + 0)" "0 < k" using assms(2,3) by simp_all
  then show ?thesis using commit_loop_returns [of cl m k 0] assms(1,2) by (simp add: bulk_commit_def)
qed

definition ex_down :: "nat bulk_api" where
  "ex_down n opts r = (Suc n, length r, None)"

theorem commit_terminates_witness:
  "bulk_commit 3 es_flavour ex_down (\<lambda>_. ex_client) 0 ''x'' 1 \<noteq> None"
  using commit_terminates [of "\<lambda>_. ex_client" 2 3] by (simp add: ex_client_def)

definition counted :: "string \<Rightarrow> bulk_metric list \<Rightarrow> int" where
  "counted name ms = sum_list (map (\<lambda>m. case m of Add nm i _ \<Rightarrow> if nm = name then i else 0) ms)"

lemma counted_simps [simp]:
  "counted name [] = 0" "counted name (Add nm i l # ms) = (if nm = name then i else 0) + counted name ms"
  by (simp_all add: counted_def)

lemma count_items_total:
  "count_items ds (i, e) = (ms, i', e') \<Longrightarrow> counted ''WritesTotalCounter'' ms = (i' - i) + (e' - e) \<and> i' + e' = i + e + int (length ds)"
proof (induction ds arbitrary: i e ms)
  case (Cons d ds)
  obtain ms1 i1 e1 where r: "count_items ds (if 201 < ei_Status d then (i, e + 1) else (i + 1, e)) = (ms1, i1, e1)"
    by (metis prod_cases3)
  have "i1 = i'" "e1 = e'" and ms: "ms = Add ''WritesTotalCounter'' 1 (if 201 < ei_Status d then ''NotWritten'' else ''Written'') #
      Add ''CommitTotalCounter'' 1 (itoa (ei_Status d)) # ms1"
    using Cons.prems r by (auto simp: Let_def)
  then show ?case using Cons.IH [of _ _ ms1] r by (cases "201 < ei_Status d") auto
qed simp

lemma failure_total [simp]: "counted ''WritesTotalCounter'' (failure_metrics s n) = n"
  by (simp add: failure_metrics_def)

lemma processBulkResponse_total:
  "processBulkResponse res (0, 0) = Some (ms, (i, e), err) \<Longrightarrow> counted ''WritesTotalCounter'' ms = i + e"
  by (auto simp: processBulkResponse_def split: option.splits json.splits prod.splits if_splits
      dest: count_items_total)

definition good_flavour :: "bulk_flavour \<Rightarrow> bool" where
  "good_flavour fl = (\<forall>res n ms. fl_failure fl res n = Some ms \<longrightarrow> counted ''WritesTotalCounter'' ms = n)"

lemma good_flavours: "good_flavour es_flavour" "good_flavour os_flavour"
  by (auto simp: good_flavour_def es_flavour_def os_flavour_def es_processBulkResponseCompleteFailure_def
      os_processBulkResponseCompleteFailure_def split: option.splits json.splits if_splits)

lemma commit_loop_accounts:
  assumes "good_flavour fl"
  shows "commit_loop k fl api cl n r cnt retry sent = Some (Finished i e err ms out) \<Longrightarrow> counted ''WritesTotalCounter'' ms = i + e"
proof (induction k arbitrary: n r retry sent)
  case (Suc k)
  then show ?case
    using assms
    by (auto simp: good_flavour_def processNetworkFailure_def Let_def split: prod.splits option.splits if_splits
        dest: processBulkResponse_total)
qed simp


definition ex_up :: "nat bulk_api" where
  "ex_up n opts r = (Suc n, length r, Some \<lparr>rp_Status = 200,
     rp_Body = ''{\"items\":[{\"index\":{\"status\":201}},{\"index\":{\"status\":400}}]}''\<rparr>)"

definition ex_up_ok :: bool where
  "ex_up_ok = (case bulk_commit 1 es_flavour ex_up (\<lambda>_. ex_client) 0 ''x'' 2 of
     Some (Finished i e err ms sent) \<Rightarrow> i = 1 \<and> e = 1 | _ \<Rightarrow> False)"

lemma ex_up_runs: "ex_up_ok"
  by code_simp


section \<open>A retry does not send the batch again\<close>

lemma commit_loop_sent:
  assumes drains: "\<And>n opts r. length r \<le> fst (snd (api n opts r))"
  shows "commit_loop k fl api cl n r cnt retry sent = Some (Finished i e err ms out) \<Longrightarrow>
     \<exists>opts rest. out = sent @ (opts, r) # rest \<and> (\<forall>x \<in> set rest. snd x = [])"
proof (induction k arbitrary: n r retry sent)
  case (Suc k)
  obtain n' used res where api: "api n (fl_opts fl (cl retry)) r = (n', used, res)" by (metis prod_cases3)
  then have empty: "drop used r = []" using drains [of r n "fl_opts fl (cl retry)"] by simp
  show ?case
  proof (cases "\<exists>k'. k = Suc k' \<and> res = None \<and> snd (processNetworkFailure (cl (Suc retry)) (int (Suc retry)) cnt) = None")
    case True
    then have "commit_loop k fl api cl n' [] cnt (Suc retry) (sent @ [(fl_opts fl (cl retry), r)]) = Some (Finished i e err ms out)"
      using Suc.prems api empty by (auto simp: callBulkApi_def Let_def split: prod.splits)
    from Suc.IH [OF this] show ?thesis by fastforce
  next
    case False
    then show ?thesis using Suc.prems api empty
      by (cases k) (auto simp: callBulkApi_def Let_def split: prod.splits option.splits if_splits)
  qed
qed simp

text \<open>A batch is sent once: with a client library that reads the body of a request to its end, as
  sending it takes, every attempt after the first one has an empty body, because the attempts share
  one reader. The records of a batch whose first attempt failed never reach the server.\<close>

lemma retry_sends_nothing:
  assumes "\<And>n opts r. length r \<le> fst (snd (api n opts r))"
    and "bulk_commit k fl api cl n records cnt = Some (Finished i e err ms sent)"
  shows "\<exists>opts rest. sent = (opts, records) # rest \<and> (\<forall>x \<in> set rest. snd x = [])"
  using commit_loop_sent [of api k fl cl n records cnt 0 "[]" i e err ms sent] assms by (simp add: bulk_commit_def)

definition ex_down_ok :: bool where
  "ex_down_ok = (case bulk_commit 3 es_flavour ex_down (\<lambda>_. ex_client) 0 ''x'' 1 of
     Some (Finished i e err ms sent) \<Rightarrow> map snd sent = [''x'', [], []] \<and> e = 1 | _ \<Rightarrow> False)"

lemma ex_down_runs: "ex_down_ok"
  by code_simp

lemma retry_sends_nothing_example:
  "\<exists>i e err ms opts rest. bulk_commit 3 es_flavour ex_down (\<lambda>_. ex_client) 0 ''x'' 1 =
       Some (Finished i e err ms ((opts, ''x'') # rest)) \<and> length rest = 2 \<and> (\<forall>x \<in> set rest. snd x = [])"
proof -
  obtain i e err ms sent where r: "bulk_commit 3 es_flavour ex_down (\<lambda>_. ex_client) 0 ''x'' 1 = Some (Finished i e err ms sent)"
    and l: "map snd sent = [''x'', [], []]"
    using ex_down_runs by (auto simp: ex_down_ok_def split: option.splits commit_outcome.splits)
  obtain opts rest where s: "sent = (opts, ''x'') # rest" "\<forall>x \<in> set rest. snd x = []"
    using retry_sends_nothing [OF _ r] by (auto simp: ex_down_def)
  moreover have "length rest = 2" using l s(1) by (auto simp: map_eq_Cons_conv)
  ultimately show ?thesis using r by blast
qed

section \<open>Which index a batch goes to\<close>

lemma commit_loop_index:
  assumes "fl = es_flavour \<or> fl = os_flavour" "\<And>i. bc_index (cl i) = key"
  shows "commit_loop k fl api cl n r cnt retry sent = Some (Finished i e err ms out) \<Longrightarrow>
     \<exists>rest. out = sent @ rest \<and> rest \<noteq> [] \<and> (\<forall>x \<in> set rest. bo_Index (fst x) = key)"
proof (induction k arbitrary: n r retry sent)
  case (Suc k)
  have key: "bo_Index (fl_opts fl (cl retry)) = key"
    using assms by (auto simp: es_flavour_def os_flavour_def es_bulkRequestOptionsBuilder_def os_bulkRequestOptionsBuilder_def)
  obtain n' r' res where api: "callBulkApi api (fl_opts fl) (cl retry) n r = (n', r', res)" by (metis prod_cases3)
  show ?case
  proof (cases "res = None \<and> snd (processNetworkFailure (cl (Suc retry)) (int (Suc retry)) cnt) = None")
    case True
    then have "commit_loop k fl api cl n' r' cnt (Suc retry) (sent @ [(fl_opts fl (cl retry), r)]) = Some (Finished i e err ms out)"
      using Suc.prems api by (auto simp: Let_def split: prod.splits)
    from Suc.IH [OF this] key show ?thesis by auto
  next
    case False
    then show ?thesis using Suc.prems api key by (auto simp: Let_def split: prod.splits option.splits if_splits)
  qed
qed simp

text \<open>The index a record was written to is forgotten: two records written to different indices, the
  indices of two days for instance, that leave in one batch both go to the index of the later one,
  since the request names the index the client was last called with.\<close>

lemma batch_goes_to_last_index:
  assumes "fl = es_flavour \<or> fl = os_flavour"
    and "bulk_Write k1 p1 d1 e = (e1, Some j1)" "bulk_Write k2 p2 d2 e1 = (e2, Some j2)"
    and "handler_run commitHandler [(t1, GotRecord j1), (t2, GotRecord j2), (t3, Stop)] (fresh_handler e) = (h', bs)"
    and "bulk_commit k fl api (\<lambda>_. e2) n (fst (hd bs)) (snd (hd bs)) = Some (Finished i er err ms sent)"
  shows "bs = [batch_of [(p1, d1), (p2, d2)]] \<and> jo_Index j1 = k1 \<and> (\<forall>x \<in> set sent. bo_Index (fst x) = k2)"
proof -
  have j: "j1 = \<lparr>jo_Index = k1, jo_DocID = p1, jo_Body = d1, jo_Action = WRITE\<rparr>"
    "j2 = \<lparr>jo_Index = k2, jo_DocID = p2, jo_Body = d2, jo_Action = WRITE\<rparr>" "bc_index e2 = k2"
    using assms(2,3) by (auto simp: bulk_Write_def NewJob_def split: if_splits)
  have "bs = [batch_of [(p1, d1), (p2, d2)]]"
    using assms(4) by (auto simp: j commitHandler_def fresh_handler_def br_empty_def br_Append_def br_Length_def Let_def
        RECORD_CNT_THRESHOLD_def spawn_commit_def br_Records_def br_Clear_def batch_of_def docs_text_def doc_text_def)
  moreover have "\<forall>x \<in> set sent. bo_Index (fst x) = k2"
    using commit_loop_index [OF assms(1), of "\<lambda>_. e2" k2] assms(5) j(3) by (fastforce simp: bulk_commit_def)
  ultimately show ?thesis using j by simp
qed

definition ex_index_ok :: bool where
  "ex_index_ok =
     (case bulk_commit 1 es_flavour ex_up (\<lambda>_. fst (bulk_Write ''day2'' ''2'' ''{}'' ex_client)) 0
             (docs_text [(''1'', ''{}''), (''2'', ''{}'')]) 2 of
        Some (Finished i e err ms sent) \<Rightarrow> length sent = 1 | _ \<Rightarrow> False)"

lemma ex_index_runs: "ex_index_ok"
  by code_simp

lemma ex_index_handler:
  "\<exists>h'. handler_run commitHandler [(0, GotRecord \<lparr>jo_Index = ''day1'', jo_DocID = ''1'', jo_Body = ''{}'', jo_Action = WRITE\<rparr>),
      (1, GotRecord \<lparr>jo_Index = ''day2'', jo_DocID = ''2'', jo_Body = ''{}'', jo_Action = WRITE\<rparr>), (2, Stop)] (fresh_handler ex_client) =
    (h', [batch_of [(''1'', ''{}''), (''2'', ''{}'')]])"
  by (simp add: commitHandler_def fresh_handler_def br_empty_def br_Append_def br_Length_def Let_def ex_client_def
        RECORD_CNT_THRESHOLD_def spawn_commit_def br_Records_def br_Clear_def batch_of_def docs_text_def doc_text_def)

lemma batch_goes_to_last_index_example:
  "\<exists>i er err ms opts body. bulk_commit 1 es_flavour ex_up (\<lambda>_. fst (bulk_Write ''day2'' ''2'' ''{}'' ex_client)) 0
      (docs_text [(''1'', ''{}''), (''2'', ''{}'')]) 2 = Some (Finished i er err ms [(opts, body)]) \<and> bo_Index opts = ''day2''"
proof -
  obtain i er err ms sent where r: "bulk_commit 1 es_flavour ex_up (\<lambda>_. fst (bulk_Write ''day2'' ''2'' ''{}'' ex_client)) 0
      (docs_text [(''1'', ''{}''), (''2'', ''{}'')]) 2 = Some (Finished i er err ms sent)" and l: "length sent = 1"
    using ex_index_runs by (auto simp: ex_index_ok_def split: option.splits commit_outcome.splits)
  obtain h' where h: "handler_run commitHandler [(0, GotRecord \<lparr>jo_Index = ''day1'', jo_DocID = ''1'', jo_Body = ''{}'', jo_Action = WRITE\<rparr>),
      (1, GotRecord \<lparr>jo_Index = ''day2'', jo_DocID = ''2'', jo_Body = ''{}'', jo_Action = WRITE\<rparr>), (2, Stop)] (fresh_handler ex_client) =
    (h', [batch_of [(''1'', ''{}''), (''2'', ''{}'')]])"
    using ex_index_handler by blast
  have "\<forall>x \<in> set sent. bo_Index (fst x) = ''day2''"
    using batch_goes_to_last_index [of es_flavour "''day1''" "''1''" "''{}''" ex_client _ _ "''day2''" "''2''" "''{}''" _ _ 0 1 2 h' _ 1 ex_up 0 i er err ms sent] r h
    by (simp add: bulk_Write_def NewJob_def batch_of_def)
  then show ?thesis using r l by (cases sent) auto
qed

section \<open>Shutdown\<close>

text \<open>A shutdown can complete before the last batch is sent: for every record that waits in the
  buffer there is an execution in which the handler creates the goroutine for the batch, finds its
  wait group still empty, and reports the shutdown as complete with the batch unsent.\<close>

lemma shutdown_can_lose_last_batch:
  "\<exists>s. batch_steps commitHandler (\<lambda>ev. ev = Stop) (batch_init (fresh_handler e)) [GotRecord job, Stop] s \<and>
       bs_phase s = Complete \<and> bs_sent s = [] \<and> bs_running s = [] \<and> bs_created s = [batch_of [(jo_DocID job, jo_Body job)]]"
proof -
  obtain h1 where h1: "commitHandler 0 (GotRecord job) (fresh_handler e) = (h1, [])"
    by (simp add: commitHandler_def fresh_handler_def br_empty_def br_Append_def br_Length_def RECORD_CNT_THRESHOLD_def)
  have item: "bulk_item (GotRecord job) = [(jo_DocID job, jo_Body job)]" by (simp add: bulk_item_def)
  show ?thesis by (rule bulk.shutdown_loses_one [OF fresh_handler_buffered h1 item]) simp_all
qed

text \<open>The other half: from every state the handler and its goroutines can reach with a stop request
  received, whatever the interleaving so far, the shutdown can still complete with every document
  sent, each in exactly one batch.\<close>

lemma shutdown_can_send_all:
  assumes "batch_steps commitHandler (\<lambda>ev. ev = Stop) (batch_init (fresh_handler e)) evs s" "bs_phase s = Draining"
  shows "\<exists>t out. batch_steps commitHandler (\<lambda>ev. ev = Stop) s [] t \<and> bs_phase t = Complete \<and> bs_created t = [] \<and>
           bs_running t = [] \<and> mset (bs_sent t) = mset (map batch_of out) \<and> concat out = concat (map bulk_item evs)"
  by (rule bulk.can_send_all [OF assms(1) fresh_handler_buffered assms(2)])

lemma ex_draining:
  "batch_steps commitHandler (\<lambda>ev. ev = Stop) (batch_init (fresh_handler ex_client)) [Stop]
     ((batch_init (fresh_handler ex_client))\<lparr>bs_phase := Draining\<rparr>)"
proof -
  have "commitHandler 0 Stop (fresh_handler ex_client) = (fresh_handler ex_client, [])"
    by (simp add: commitHandler_def fresh_handler_def br_Length_def br_empty_def)
  then show ?thesis
    using batch_steps_one [OF batch_step.handle [of "batch_init (fresh_handler ex_client)" commitHandler 0 Stop "fresh_handler ex_client" "[]" "\<lambda>ev. ev = Stop"]]
    by (simp add: batch_init_def)
qed

lemma shutdown_can_send_all_example:
  "\<exists>t out. batch_steps commitHandler (\<lambda>ev. ev = Stop) ((batch_init (fresh_handler ex_client))\<lparr>bs_phase := Draining\<rparr>) [] t \<and>
     bs_phase t = Complete \<and> mset (bs_sent t) = mset (map batch_of out) \<and> concat out = []"
  using shutdown_can_send_all [OF ex_draining] by (auto simp: bulk_item_def)

end
