(* ===== verification/Log_Writer.thy ===== *)
theory Log_Writer
  imports Bulk_Storage Base_Worker
begin

text \<open>
  The log writers (\<open>pkg/log_writers/*/writer.go\<close>): a loop that reads the pipeline, and a handler that
  decodes each record, chooses an index and a document id for it, hands it to the storage, and
  reports metrics. The writers differ in the choice of the index and in their storage; the locale
  \<open>log_storage\<close> is the interface \<open>Storage\<close> they share.
\<close>

section \<open>Reading the pipeline\<close>

datatype read_action = Pass string | Sleep int | Again

text \<open>What the loop does with the result of a read, an error message or a record.\<close>

definition writer_fetch :: "string + string \<Rightarrow> read_action" where
  "writer_fetch r =
     (case r of
        Inr record \<Rightarrow> Pass record
      | Inl err \<Rightarrow> if err = ''reader closed'' then Again else if err = ''queue is empty'' then Sleep 5 else Sleep 5)"

abbreviation os_fetchRecords :: "string + string \<Rightarrow> read_action" where
  "os_fetchRecords \<equiv> writer_fetch"

abbreviation mongo_fetchRecords :: "string + string \<Rightarrow> read_action" where
  "mongo_fetchRecords \<equiv> writer_fetch"

abbreviation neap_fetchRecords :: "string + string \<Rightarrow> read_action" where
  "neap_fetchRecords \<equiv> writer_fetch"

abbreviation mlp_fetchRecords :: "string + string \<Rightarrow> read_action" where
  "mlp_fetchRecords \<equiv> writer_fetch"

text \<open>The writers for fluentd and the file system sleep after every error.\<close>

definition fluentd_fetchRecords :: "string + string \<Rightarrow> read_action" where
  "fluentd_fetchRecords r = (case r of Inr record \<Rightarrow> Pass record | Inl err \<Rightarrow> Sleep 5)"

abbreviation fs_fetchRecords :: "string + string \<Rightarrow> read_action" where
  "fs_fetchRecords \<equiv> fluentd_fetchRecords"

section \<open>Document ids\<close>

text \<open>\<open>%v\<close> of a \<open>float64\<close>: the shortest text, with an exponent of two digits below \<open>1e-4\<close> and from
  \<open>1e21\<close> on.\<close>

definition exp_digits :: "int \<Rightarrow> string" where
  "exp_digits x = (let ds = nat_str (nat \<bar>x\<bar>) in if length ds < 2 then CHR ''0'' # ds else ds)"

definition fmt_float :: "dec \<Rightarrow> string" where
  "fmt_float d =
     (let m = mant d; k = scale d; ds = nat_str (nat \<bar>m\<bar>);
          t = rev (dropWhile (\<lambda>c. c = CHR ''0'') (rev ds));
          x = int (length ds) - 1 - int k
      in if m = 0 \<or> (-4 \<le> x \<and> x < 21) then plain_str m k
         else (if m < 0 then ''-'' else []) @ [hd t] @ (if tl t = [] then [] else CHR ''.'' # tl t) @
              (if x < 0 then ''e-'' else ''e+'') @ exp_digits x)"

text \<open>\<open>strconv.FormatFloat(x, 'f', 0, 64)\<close>: rounded to an integer, a tie to the even one.\<close>

definition round_half_even :: "dec \<Rightarrow> int" where
  "round_half_even d =
     (let q = \<bar>mant d\<bar> div 10 ^ scale d; r = 2 * (\<bar>mant d\<bar> mod 10 ^ scale d);
          u = (if r < 10 ^ scale d then q else if 10 ^ scale d < r then q + 1 else if even q then q else q + 1)
      in if mant d < 0 then - u else u)"

definition fmt_f0 :: "dec \<Rightarrow> string" where
  "fmt_f0 d = (if mant d < 0 then ''-'' else []) @ nat_str (nat \<bar>round_half_even d\<bar>)"

definition docID_of :: "EventLogSchema \<Rightarrow> string" where
  "docID_of s =
     elv_ID (el_Value s) @ ''.'' @ el_Topic s @ ''.'' @ fmt_float (el_Partition s) @ ''.'' @ fmt_f0 (el_Offset s)"

section \<open>The handler\<close>

definition writer_monitor :: "string option \<Rightarrow> string \<Rightarrow> metric list" where
  "writer_monitor err topic =
     (case err of
        Some message \<Rightarrow>
          [Gauge ''ElcProcessingDuration'' [''writer'', topic, ''failed'', ''521'', message],
           Counter ''ElcErrors'' [''writer'', topic, ''521'', message],
           Counter ''ElcProcessingTotal'' [''writer'', topic, ''failed'', ''524'', message]]
      | None \<Rightarrow>
          [Gauge ''ElcProcessingDuration'' [''writer'', topic, ''success'', ''200'', ''processed''],
           Gauge ''ElcLagOut'' [''writer'', topic],
           Counter ''ElcNumRecordsOutCounter'' [''writer'', topic],
           Counter ''ElcProcessingTotal'' [''writer'', topic, ''success'', ''200'', ''processed'']])"

definition incoming_metrics :: "string \<Rightarrow> metric list" where
  "incoming_metrics topic =
     [Counter ''ElcNumRecordsInCounter'' [''writer'', topic], Gauge ''ElcLagIn'' [''writer'', topic]]"

text \<open>A storage writes data under an index and a path, and reports an error or none; \<^term>\<open>None\<close> is a
  panic. A plan is the choice a writer makes for a decoded record: an error, or index and path. The
  text of a decoding error is abbreviated.\<close>

type_synonym 's storage_write = "'s \<Rightarrow> string \<Rightarrow> string \<Rightarrow> string \<Rightarrow> ('s \<times> string option) option"

type_synonym plan = "EventLogSchema \<Rightarrow> string + (string \<times> string)"

definition writer_handle :: "'s storage_write \<Rightarrow> plan \<Rightarrow> 's \<Rightarrow> string \<Rightarrow> ('s \<times> metric list) option" where
  "writer_handle put plan st record =
     (let (s, err) = unmarshal_schema record el_zero
      in if err \<noteq> None then Some (st, writer_monitor (Some ''json'') ''unknown'')
         else (case plan s of
                 Inl e \<Rightarrow> Some (st, writer_monitor (Some e) (el_Topic s))
               | Inr (index, path) \<Rightarrow>
                   do { (st', err) \<leftarrow> put st index path record;
                        Some (st', incoming_metrics (el_Topic s) @ writer_monitor err (el_Topic s)) }))"

text \<open>The loop of the handler: a record, or the signal to shut the storage down. It keeps running.\<close>

datatype writer_event = Incoming string | Signal

definition writer_turn ::
  "('s storage_write) \<Rightarrow> ('s \<Rightarrow> 's) \<Rightarrow> plan \<Rightarrow> 's \<Rightarrow> writer_event \<Rightarrow> ('s \<times> metric list) option" where
  "writer_turn put shutdown plan st ev =
     (case ev of Signal \<Rightarrow> Some (shutdown st, []) | Incoming record \<Rightarrow> writer_handle put plan st record)"

section \<open>Plans\<close>

definition es_getIndex :: "BulkConfig \<Rightarrow> go_time \<Rightarrow> string" where
  "es_getIndex cfg timestamp =
     (if bf_AppendDateToIndex cfg then bf_IndexPrefix cfg @ ''-'' @ format_mdy timestamp else bf_IndexPrefix cfg)"

abbreviation os_getIndex :: "BulkConfig \<Rightarrow> go_time \<Rightarrow> string" where
  "os_getIndex \<equiv> es_getIndex"

definition bulk_plan :: "BulkConfig \<Rightarrow> plan" where
  "bulk_plan cfg s = Inr (es_getIndex cfg (time_parse (elv_Timestamp (el_Value s))), docID_of s)"

definition mongo_getIndex :: "EventLogSchema \<Rightarrow> string" where
  "mongo_getIndex s = elk_Service (el_Key s) @ ''.'' @ elk_ID (el_Key s)"

definition mongo_plan :: plan where
  "mongo_plan s = Inr (mongo_getIndex s, docID_of s)"

definition fluentd_getIndex :: "string \<Rightarrow> EventLogSchema \<Rightarrow> string" where
  "fluentd_getIndex tag s = (if tag = [] then el_Topic s else tag)"

definition fluentd_plan :: "string \<Rightarrow> plan" where
  "fluentd_plan tag s = Inr (fluentd_getIndex tag s, docID_of s @ ''.json'')"

definition isNiiLog :: "EventLogSchema \<Rightarrow> bool" where
  "isNiiLog s = (elk_Service (el_Key s) = ''DLGaaS'' \<and> elv_Source (el_Value s) = ''NIIEventLogger'')"

definition neap_plan :: plan where
  "neap_plan s =
     (if isNiiLog s then Inr (elk_ID (el_Key s), docID_of s) else Inl ''event log ignored: not an nii event log'')"

definition mlp_plan :: plan where
  "mlp_plan s = Inr (elk_ID (el_Key s), docID_of s)"

section \<open>Storages that queue jobs\<close>

text \<open>
  \<open>Write\<close> of the storages with a worker pool: the job is sent to the pool, a worker passes it to the
  commit handler. With one worker the jobs arrive in the order they were written; the state is the
  list of the jobs that arrived. \<open>Write\<close> itself never reports an error.
\<close>

definition job_put :: "Job list storage_write" where
  "job_put jobs index path data =
     do { r \<leftarrow> storageHandler (NewJob WRITE index path (Some data));
          Some (case r of Some job \<Rightarrow> jobs @ [job] | None \<Rightarrow> jobs, None) }"

definition es_jobHandler :: "BulkConfig \<Rightarrow> (Job list \<Rightarrow> Job list) \<Rightarrow> Job list \<Rightarrow> writer_event \<Rightarrow> (Job list \<times> metric list) option" where
  "es_jobHandler cfg shutdown = writer_turn job_put shutdown (bulk_plan cfg)"

definition os_jobHandler :: "BulkConfig \<Rightarrow> (Job list \<Rightarrow> Job list) \<Rightarrow> Job list \<Rightarrow> writer_event \<Rightarrow> (Job list \<times> metric list) option" where
  "os_jobHandler cfg shutdown = writer_turn job_put shutdown (bulk_plan cfg)"

definition mongo_jobHandler :: "(Job list \<Rightarrow> Job list) \<Rightarrow> Job list \<Rightarrow> writer_event \<Rightarrow> (Job list \<times> metric list) option" where
  "mongo_jobHandler shutdown = writer_turn job_put shutdown mongo_plan"

definition neap_jobHandler :: "(Job list \<Rightarrow> Job list) \<Rightarrow> Job list \<Rightarrow> writer_event \<Rightarrow> (Job list \<times> metric list) option" where
  "neap_jobHandler shutdown = writer_turn job_put shutdown neap_plan"

definition mlp_jobHandler :: "(Job list \<Rightarrow> Job list) \<Rightarrow> Job list \<Rightarrow> writer_event \<Rightarrow> (Job list \<times> metric list) option" where
  "mlp_jobHandler shutdown = writer_turn job_put shutdown mlp_plan"

section \<open>Fluentd\<close>

text \<open>The client library posts a record under a tag, or fails. The metrics of the storage are kept with
  the posts that succeeded.\<close>

record 'n FluentClient =
  fc_endpoint :: string
  fc_net :: 'n
  fc_posted :: "(string \<times> string \<times> string) list"
  fc_metrics :: "metric list"

definition fluentd_Write :: "('n \<Rightarrow> string \<Rightarrow> string \<Rightarrow> 'n \<times> string option) \<Rightarrow> 'n FluentClient storage_write" where
  "fluentd_Write post f key path data =
     (let (n, err) = post (fc_net f) key data;
          done = f\<lparr>fc_net := n\<rparr>;
          tag = fc_endpoint f @ '':'' @ key
      in Some (case err of
           Some e \<Rightarrow> (done\<lparr>fc_metrics := fc_metrics f @
               [Gauge ''WriteDurationGauge'' [key], Counter ''WritesTotalCounter'' [''fluentd'', ''NotWritten'', e],
                Counter ''CommitTotalCounter'' [tag, e]]\<rparr>, Some e)
         | None \<Rightarrow> (done\<lparr>fc_posted := fc_posted f @ [(key, path, data)],
               fc_metrics := fc_metrics f @
               [Gauge ''WriteDurationGauge'' [key], Counter ''WritesTotalCounter'' [''fluentd'', ''Written'', []],
                Counter ''CommitTotalCounter'' [tag, ''success'']]\<rparr>, None)))"

definition fluentd_jobHandler ::
  "string \<Rightarrow> ('n \<Rightarrow> string \<Rightarrow> string \<Rightarrow> 'n \<times> string option) \<Rightarrow> ('n FluentClient \<Rightarrow> 'n FluentClient) \<Rightarrow>
   'n FluentClient \<Rightarrow> writer_event \<Rightarrow> ('n FluentClient \<times> metric list) option" where
  "fluentd_jobHandler tag post shutdown = writer_turn (fluentd_Write post) shutdown (fluentd_plan tag)"

section \<open>MongoDB\<close>

text \<open>A record is decoded again and stored under its index, which replaces the document that is there.\<close>

record mongo_doc =
  md_ID :: string
  md_Schema :: EventLogSchema

datatype upsert = Inserted | Updated | UpsertFailed string

definition mongo_commitHandler :: "Job \<Rightarrow> mongo_doc option" where
  "mongo_commitHandler job =
     (let (s, err) = unmarshal_schema (jo_Body job) el_zero
      in if err \<noteq> None then None else Some \<lparr>md_ID = jo_Index job, md_Schema = s\<rparr>)"

definition upsertMongoDBDoc :: "('n \<Rightarrow> mongo_doc \<Rightarrow> 'n \<times> upsert) \<Rightarrow> 'n \<Rightarrow> mongo_doc \<Rightarrow> 'n \<times> string option" where
  "upsertMongoDBDoc replace n doc =
     (let (n', r) = replace n doc in (n', case r of Inserted \<Rightarrow> None | Updated \<Rightarrow> None | UpsertFailed e \<Rightarrow> Some e))"

definition mongo_processNetworkFailure :: "int \<Rightarrow> int \<Rightarrow> bool" where
  "mongo_processNetworkFailure maxRetries retry = (0 \<le> maxRetries \<and> maxRetries < retry)"

text \<open>The loop of \<open>commit\<close> with fuel: the final state, the number of attempts and the error.\<close>

fun mongo_commit_loop ::
  "nat \<Rightarrow> ('n \<Rightarrow> mongo_doc \<Rightarrow> 'n \<times> upsert) \<Rightarrow> int \<Rightarrow> 'n \<Rightarrow> mongo_doc \<Rightarrow> nat \<Rightarrow> ('n \<times> nat \<times> string option) option" where
  "mongo_commit_loop 0 replace maxRetries n doc retry = None"
| "mongo_commit_loop (Suc k) replace maxRetries n doc retry =
     (let (n', err) = upsertMongoDBDoc replace n doc
      in if err = None then Some (n', retry, None)
         else if mongo_processNetworkFailure maxRetries (int (Suc retry)) then Some (n', Suc retry, err)
         else mongo_commit_loop k replace maxRetries n' doc (Suc retry))"

definition mongo_monitorCommitResults :: "string \<Rightarrow> string option \<Rightarrow> metric list" where
  "mongo_monitorCommitResults coll err =
     Gauge ''WriteDurationGauge'' [coll] #
     (case err of
        Some e \<Rightarrow> [Counter ''WritesTotalCounter'' [''mongodb'', ''NotWritten'', e], Counter ''CommitTotalCounter'' [coll, e]]
      | None \<Rightarrow> [Counter ''WritesTotalCounter'' [''mongodb'', ''Written'', []], Counter ''CommitTotalCounter'' [coll, ''success'']])"

section \<open>The interface of a storage\<close>

text \<open>The four ways the handler can treat a record.\<close>

lemma writer_handle_cases:
  assumes "writer_handle put plan st record = Some (st', ms)"
  obtains (undecodable) s e where "unmarshal_schema record el_zero = (s, Some e)" "st' = st"
      "ms = writer_monitor (Some ''json'') ''unknown''"
    | (refused) s e where "unmarshal_schema record el_zero = (s, None)" "plan s = Inl e" "st' = st"
      "ms = writer_monitor (Some e) (el_Topic s)"
    | (put) s index path err where "unmarshal_schema record el_zero = (s, None)" "plan s = Inr (index, path)"
      "put st index path record = Some (st', err)" "ms = incoming_metrics (el_Topic s) @ writer_monitor err (el_Topic s)"
proof -
  obtain s err where u: "unmarshal_schema record el_zero = (s, err)" by (cases "unmarshal_schema record el_zero")
  show thesis
  proof (cases err)
    case (Some e)
    then show thesis using assms u undecodable by (simp add: writer_handle_def)
  next
    case None
    then show thesis using assms u refused put
      by (cases "plan s") (auto simp: writer_handle_def split: Option.bind_splits prod.splits)
  qed
qed

definition tallied :: "string \<Rightarrow> metric list \<Rightarrow> nat" where
  "tallied name ms = length (filter (\<lambda>m. case m of Counter n l \<Rightarrow> n = name | Gauge n l \<Rightarrow> False) ms)"

lemma counted_append [simp]: "tallied name (ms @ ns) = tallied name ms + tallied name ns"
  by (simp add: tallied_def)

lemma writer_monitor_counts:
  "tallied ''ElcProcessingTotal'' (writer_monitor err topic) = 1"
  "tallied ''ElcNumRecordsOutCounter'' (writer_monitor err topic) = (if err = None then 1 else 0)"
  "tallied ''ElcErrors'' (writer_monitor err topic) = (if err = None then 0 else 1)"
  "tallied ''ElcProcessingTotal'' (incoming_metrics topic) = 0"
  "tallied ''ElcNumRecordsOutCounter'' (incoming_metrics topic) = 0"
  "tallied ''ElcErrors'' (incoming_metrics topic) = 0"
  by (simp_all add: writer_monitor_def incoming_metrics_def tallied_def split: option.split)

text \<open>
  What the writers rely on: a write under nonempty names does not panic, a write without an error
  adds the data to what is stored, a write with an error does not.
\<close>

locale log_storage =
  fixes put :: "'s storage_write" and content :: "'s \<Rightarrow> (string \<times> string \<times> string) list"
  assumes put_total: "index \<noteq> [] \<Longrightarrow> path \<noteq> [] \<Longrightarrow> put st index path data \<noteq> None"
    and put_stores: "put st index path data = Some (st', None) \<Longrightarrow> content st' = content st @ [(index, path, data)]"
    and put_refuses: "put st index path data = Some (st', Some e) \<Longrightarrow> content st' = content st"
begin

lemma handle_total:
  assumes "\<And>s index path. plan s = Inr (index, path) \<Longrightarrow> index \<noteq> [] \<and> path \<noteq> []"
  shows "\<exists>st' ms. writer_handle put plan st record = Some (st', ms)"
  using put_total assms
  by (auto simp: writer_handle_def Let_def split: prod.splits sum.splits option.splits Option.bind_splits)

text \<open>Each record is accounted for once, and tallied as written exactly when it is stored.\<close>

lemma handle_accounts:
  assumes "writer_handle put plan st record = Some (st', ms)"
  shows "tallied ''ElcProcessingTotal'' ms = 1"
    and "tallied ''ElcNumRecordsOutCounter'' ms + tallied ''ElcErrors'' ms = 1"
    and "length (content st') = length (content st) + tallied ''ElcNumRecordsOutCounter'' ms"
proof -
  show "tallied ''ElcProcessingTotal'' ms = 1" "tallied ''ElcNumRecordsOutCounter'' ms + tallied ''ElcErrors'' ms = 1"
    using assms by (cases rule: writer_handle_cases; simp add: writer_monitor_counts)+
  show "length (content st') = length (content st) + tallied ''ElcNumRecordsOutCounter'' ms"
    using assms
  proof (cases rule: writer_handle_cases)
    case (put s index path err)
    then show ?thesis using put_stores put_refuses by (cases err) (simp_all add: writer_monitor_counts)
  qed (simp_all add: writer_monitor_counts)
qed

lemma handle_content:
  assumes "writer_handle put plan st record = Some (st', ms)"
  shows "content st' = content st \<or>
    (\<exists>s index path. unmarshal_schema record el_zero = (s, None) \<and> plan s = Inr (index, path) \<and>
       content st' = content st @ [(index, path, record)])"
  using assms
proof (cases rule: writer_handle_cases)
  case (put s index path err)
  then show ?thesis using put_stores put_refuses by (cases err) auto
qed auto

end

lemma job_put_eval:
  "index \<noteq> [] \<Longrightarrow> path \<noteq> [] \<Longrightarrow>
   job_put jobs index path data = Some (jobs @ [\<lparr>jo_Index = index, jo_DocID = path, jo_Body = data, jo_Action = WRITE\<rparr>], None)"
  by (simp add: job_put_def NewJob_def storageHandler_def)

lemma job_put_nil: "index = [] \<or> path = [] \<Longrightarrow> job_put jobs index path data = None"
  by (auto simp: job_put_def NewJob_def storageHandler_def)

definition jobs_content :: "Job list \<Rightarrow> (string \<times> string \<times> string) list" where
  "jobs_content jobs = map (\<lambda>j. (jo_Index j, jo_DocID j, jo_Body j)) jobs"

interpretation jobs: log_storage job_put jobs_content
proof unfold_locales
  fix index path data :: string and jobs jobs' :: "Job list" and e
  show "index \<noteq> [] \<Longrightarrow> path \<noteq> [] \<Longrightarrow> job_put jobs index path data \<noteq> None" by (simp add: job_put_eval)
  show "job_put jobs index path data = Some (jobs', None) \<Longrightarrow> jobs_content jobs' = jobs_content jobs @ [(index, path, data)]"
    by (cases "index = [] \<or> path = []") (auto simp: job_put_eval job_put_nil jobs_content_def)
  show "job_put jobs index path data = Some (jobs', Some e) \<Longrightarrow> jobs_content jobs' = jobs_content jobs"
    by (cases "index = [] \<or> path = []") (auto simp: job_put_eval job_put_nil)
qed

interpretation fluentd: log_storage "fluentd_Write post" fc_posted for post
  by unfold_locales (auto simp: fluentd_Write_def Let_def split: prod.splits option.splits)

section \<open>Properties of the writers\<close>

lemma docID_of_neq_Nil [simp]: "docID_of s \<noteq> []"
  by (simp add: docID_of_def)

lemma length_nat_str: "n < 10 ^ Suc k \<Longrightarrow> length (nat_str n) \<le> Suc k"
proof (induction k arbitrary: n)
  case 0
  then show ?case by (simp add: nat_str.simps)
next
  case (Suc k)
  then have "n div 10 < 10 ^ Suc k" by (simp add: div_less_iff_less_mult)
  from Suc.IH [OF this] show ?case by (simp add: nat_str.simps [of n])
qed

definition plain_log :: "EventLogSchema \<Rightarrow> bool" where
  "plain_log s =
     (CHR ''.'' \<notin> set (elv_ID (el_Value s)) \<and> CHR ''.'' \<notin> set (el_Topic s) \<and>
      scale (el_Partition s) = 0 \<and> 0 \<le> mant (el_Partition s) \<and> mant (el_Partition s) < 10 ^ 21 \<and>
      scale (el_Offset s) = 0 \<and> 0 \<le> mant (el_Offset s))"

lemma fmt_float_plain:
  assumes "scale d = 0" "0 \<le> mant d" "mant d < 10 ^ 21"
  shows "fmt_float d = nat_str (nat (mant d))"
proof -
  have "nat (mant d) < 10 ^ Suc 20" using assms(2,3) by (simp add: nat_less_iff)
  from length_nat_str [OF this] have "length (nat_str (nat \<bar>mant d\<bar>)) \<le> 21" using assms(2) by simp
  moreover have "1 \<le> length (nat_str (nat \<bar>mant d\<bar>))" by (simp add: Suc_le_eq)
  ultimately show ?thesis using assms(1,2) by (simp add: fmt_float_def plain_str_def Let_def)
qed

lemma fmt_f0_plain: "scale d = 0 \<Longrightarrow> 0 \<le> mant d \<Longrightarrow> fmt_f0 d = nat_str (nat (mant d))"
  by (simp add: fmt_f0_def round_half_even_def)

lemma dot_nat_str: "CHR ''.'' \<notin> set (nat_str n)"
  using nat_str_digits [of "CHR ''.''" n] by (auto simp: is_digit_def)

lemma split_docID:
  assumes "plain_log s"
  shows "split_on (CHR ''.'') (docID_of s) =
    [elv_ID (el_Value s), el_Topic s, nat_str (nat (mant (el_Partition s))), nat_str (nat (mant (el_Offset s)))]"
  using assms dot_nat_str
  by (simp add: plain_log_def docID_of_def fmt_float_plain fmt_f0_plain split_on_append split_on_no_sep)

lemma docID_inj:
  assumes "plain_log s" "plain_log s'" "docID_of s = docID_of s'"
  shows "elv_ID (el_Value s) = elv_ID (el_Value s') \<and> el_Topic s = el_Topic s' \<and>
         el_Partition s = el_Partition s' \<and> el_Offset s = el_Offset s'"
  using split_docID [OF assms(1)] split_docID [OF assms(2)] assms
  by (auto simp: plain_log_def nat_eq_iff dec.expand intro!: dec.expand)

text \<open>Document ids tell records apart: for records whose id and topic have no dot and whose partition
  and offset are whole numbers, the partition below \<open>1e21\<close>, equal document ids mean that id, topic,
  partition and offset are all equal.\<close>

lemma docID_unique:
  assumes "plain_log s" "plain_log s'" "docID_of s = docID_of s'"
  shows "elv_ID (el_Value s) = elv_ID (el_Value s') \<and> el_Topic s = el_Topic s' \<and>
         el_Partition s = el_Partition s' \<and> el_Offset s = el_Offset s'"
  by (rule docID_inj [OF assms])

definition ex_log :: "int \<Rightarrow> EventLogSchema" where
  "ex_log offset = el_zero\<lparr>el_Topic := ''t'', el_Offset := Dec offset 0\<rparr>"

lemma docID_unique_example: "docID_of (ex_log 1) \<noteq> docID_of (ex_log 11)"
proof
  assume "docID_of (ex_log 1) = docID_of (ex_log 11)"
  moreover have "plain_log (ex_log 1)" "plain_log (ex_log 11)" by (simp_all add: plain_log_def ex_log_def el_zero_def elv_zero_def)
  ultimately show False using docID_unique [of "ex_log 1" "ex_log 11"] by (simp add: ex_log_def)
qed

section \<open>The retries of MongoDB\<close>

text \<open>With a limit the loop of \<open>commit\<close> ends after one attempt more than there are retries; without one
  it never ends while the database fails.\<close>

lemma mongo_commit_returns:
  assumes "0 \<le> m"
  shows "retry \<le> nat m \<Longrightarrow> nat m < k + retry \<Longrightarrow>
    \<exists>n' attempts err. mongo_commit_loop k replace m n doc retry = Some (n', attempts, err) \<and> attempts \<le> Suc (nat m)"
proof (induction k arbitrary: n retry)
  case (Suc k)
  obtain n' err where u: "upsertMongoDBDoc replace n doc = (n', err)" by (cases "upsertMongoDBDoc replace n doc")
  show ?case
  proof (cases "err = None \<or> m < int (Suc retry)")
    case True
    then show ?thesis using assms Suc.prems u by (auto simp: mongo_processNetworkFailure_def)
  next
    case False
    then have "Suc retry \<le> nat m" by linarith
    from Suc.IH [OF this, of n'] show ?thesis using False Suc.prems u assms by (simp add: mongo_processNetworkFailure_def)
  qed
qed simp

lemma mongo_commit_without_limit:
  "m < 0 \<Longrightarrow> (\<And>n. \<exists>n' e. replace n doc = (n', UpsertFailed e)) \<Longrightarrow> mongo_commit_loop k replace m n doc retry = None"
proof (induction k arbitrary: n retry)
  case (Suc k)
  obtain n' e where "replace n doc = (n', UpsertFailed e)" using Suc.prems(2) by blast
  then show ?case using Suc by (simp add: upsertMongoDBDoc_def mongo_processNetworkFailure_def)
qed simp

section \<open>The Elasticsearch and OpenSearch writers\<close>

text \<open>The specification of the Elasticsearch writer: a record that decodes goes to the index of its day,
  under its document id.\<close>

definition bulk_spec :: "BulkConfig \<Rightarrow> string \<Rightarrow> Job list" where
  "bulk_spec cfg record =
     (let (s, err) = unmarshal_schema record el_zero
      in if err \<noteq> None then []
         else [\<lparr>jo_Index = es_getIndex cfg (time_parse (elv_Timestamp (el_Value s))), jo_DocID = docID_of s,
                jo_Body = record, jo_Action = WRITE\<rparr>])"

fun handle_all :: "('s \<Rightarrow> writer_event \<Rightarrow> ('s \<times> metric list) option) \<Rightarrow> 's \<Rightarrow> writer_event list \<Rightarrow> 's option" where
  "handle_all turn st [] = Some st"
| "handle_all turn st (ev # evs) = do { (st', ms) \<leftarrow> turn st ev; handle_all turn st' evs }"

lemma es_getIndex_neq_Nil: "bf_AppendDateToIndex cfg \<or> bf_IndexPrefix cfg \<noteq> [] \<Longrightarrow> es_getIndex cfg t \<noteq> []"
  by (auto simp: es_getIndex_def)


definition ex_bulk_cfg :: BulkConfig where
  "ex_bulk_cfg = \<lparr>bf_NumWorkers = 1, bf_Limit = Dec 10 0, bf_Burst = 1, bf_DocType = [], bf_IndexPrefix = ''mix3-logs-v2'',
     bf_AppendDateToIndex = True, bf_Refresh = True, bf_MaxRetries = 10, bf_Delay = 10, bf_Pipeline = None\<rparr>"

lemma ex_bulk_spec:
  "bulk_spec ex_bulk_cfg ''{\"topic\":\"t\",\"offset\":7,\"value\":{\"id\":\"a\",\"timestamp\":\"2024-03-01T10:00:00Z\"}}'' =
     [\<lparr>jo_Index = ''mix3-logs-v2-03-01-2024'', jo_DocID = ''a.t.0.7'',
       jo_Body = ''{\"topic\":\"t\",\"offset\":7,\"value\":{\"id\":\"a\",\"timestamp\":\"2024-03-01T10:00:00Z\"}}'', jo_Action = WRITE\<rparr>]"
  by code_simp



text \<open>A record of the dialog service without a key id kills the NEAP writer: its index is empty, the
  job is nil, and the worker that takes it dereferences it. The writer for the log producer API dies
  in the same way on any record without a key id.\<close>

lemma empty_key_id_panics:
  assumes "unmarshal_schema record el_zero = (s, None)" "elk_ID (el_Key s) = []"
  shows "(isNiiLog s \<longrightarrow> neap_jobHandler shutdown jobs (Incoming record) = None) \<and>
         mlp_jobHandler shutdown jobs (Incoming record) = None"
  using assms
  by (simp add: neap_jobHandler_def mlp_jobHandler_def writer_turn_def writer_handle_def neap_plan_def mlp_plan_def job_put_nil)

definition ex_nii :: string where
  "ex_nii = ''{\"key\":{\"service\":\"DLGaaS\"},\"value\":{\"source\":\"NIIEventLogger\"}}''"

definition ex_nii_ok :: bool where
  "ex_nii_ok = (let (s, err) = unmarshal_schema ex_nii el_zero in err = None \<and> elk_ID (el_Key s) = [] \<and> isNiiLog s)"

lemma ex_nii_dec: "ex_nii_ok"
  by code_simp

lemma empty_key_id_panics_example: "neap_jobHandler id [] (Incoming ex_nii) = None"
proof -
  obtain s where "unmarshal_schema ex_nii el_zero = (s, None)" "elk_ID (el_Key s) = []" "isNiiLog s"
    using ex_nii_dec by (auto simp: ex_nii_ok_def split: prod.splits)
  then show ?thesis using empty_key_id_panics [of ex_nii s id "[]"] by simp
qed

end
