(* ===== verification/Audio_Fetcher.thy ===== *)
theory Audio_Fetcher
  imports Oauth
begin

text \<open>
  The audio fetcher of the file system writer (\<open>pkg/log_writers/filesystem/audio_fetcher.go\<close>): it
  downloads the audio of a recognition and stores it as a WAV file. The encoder of the library
  \<open>go-audio/wav\<close> is modelled as far as it is used, for one channel of 16 bits and one buffer.
  \<open>mkdir\<close> tells which directories can be made.
\<close>

section \<open>Paths\<close>

text \<open>\<open>filepath.Clean\<close>: empty elements and dots go away, an element with two dots removes the one before
  it.\<close>

fun clean_step :: "bool \<Rightarrow> string list \<Rightarrow> string \<Rightarrow> string list" where
  "clean_step rooted out e =
     (if e = [] \<or> e = ''.'' then out
      else if e = ''..'' then
        (case out of
           [] \<Rightarrow> if rooted then [] else [''..'']
         | x # xs \<Rightarrow> if x = ''..'' then ''..'' # x # xs else xs)
      else e # out)"

definition path_clean :: "string \<Rightarrow> string" where
  "path_clean p =
     (let rooted = has_prefix p ''/'';
          out = rev (foldl (clean_step rooted) [] (split_on (CHR ''/'') p))
      in if rooted then ''/'' @ join_with (CHR ''/'') out
         else if out = [] then ''.'' else join_with (CHR ''/'') out)"

text \<open>\<open>filepath.Join\<close> of two elements, and \<open>filepath.Dir\<close>.\<close>

definition path_join :: "string \<Rightarrow> string \<Rightarrow> string" where
  "path_join a b = (if a = [] \<and> b = [] then [] else if a = [] then path_clean b else if b = [] then path_clean a else path_clean (a @ ''/'' @ b))"

definition path_dir :: "string \<Rightarrow> string" where
  "path_dir p = path_clean (rev (dropWhile (\<lambda>c. c \<noteq> CHR ''/'') (rev p)))"

section \<open>Samples\<close>

definition le16 :: "int \<Rightarrow> string" where
  "le16 i = (let n = nat (i mod 2 ^ 16) in [char_of (n mod 256), char_of (n div 256)])"

definition le32 :: "int \<Rightarrow> string" where
  "le32 i = (let n = nat (i mod 2 ^ 32)
     in [char_of (n mod 256), char_of (n div 256 mod 256), char_of (n div 65536 mod 256), char_of (n div 16777216)])"

text \<open>Signed samples of two bytes, little endian. A single byte at the end is an error.\<close>

definition sample :: "char \<Rightarrow> char \<Rightarrow> int" where
  "sample a b = (let n = int (of_char a) + 256 * int (of_char b) in if n < 2 ^ 15 then n else n - 2 ^ 16)"

fun newAudioIntBuffer :: "string \<Rightarrow> int list option" where
  "newAudioIntBuffer [] = Some []"
| "newAudioIntBuffer [a] = None"
| "newAudioIntBuffer (a # b # r) = map_option (\<lambda>xs. sample a b # xs) (newAudioIntBuffer r)"

section \<open>WAV\<close>

text \<open>The file after \<open>Write\<close> and \<open>Close\<close>: the two sizes are filled in at the end.\<close>

definition wav_encode :: "int \<Rightarrow> int list \<Rightarrow> string" where
  "wav_encode rate samples =
     (let data = concat (map le16 samples); written = 44 + int (length data)
      in ''RIFF'' @ le32 (written - 8) @ ''WAVE'' @ ''fmt '' @ le32 16 @ le16 1 @ le16 1 @ le32 rate @ le32 (rate * 2) @
         le16 2 @ le16 16 @ ''data'' @ le32 (2 * int (length samples)) @ data)"

section \<open>Operations\<close>

datatype audio_error =
    AuthFailed auth_error | RequestFailed | UrnNotFound string | ServerReply string | NoDirectory | NoFile | OddAudio

type_synonym ('c, 'n, 'a) audio_prog = "('c Authenticator \<times> 'n sys, audio_error, 'a) prog"

definition af_header :: "Token \<Rightarrow> (string \<times> string) list" where
  "af_header token =
     [(''Authorization'', tk_TokenType token @ '' '' @ tk_AccessToken token), (''Content-Type'', ''application/json'')]"

text \<open>\<open>os.Create\<close> truncates the file before the samples are decoded: when they cannot be, an empty file
  stays.\<close>

definition saveAsWav :: "string \<Rightarrow> string \<Rightarrow> int \<Rightarrow> ('c, 'n, unit) audio_prog" where
  "saveAsWav pcm dst rate =
     andThen (gets snd) (\<lambda>y.
       (let (y1, ok) = os_WriteFile y (path_clean dst) []
        in if \<not> ok then fail NoFile
           else (case newAudioIntBuffer pcm of
                   None \<Rightarrow> andThen (modify (apsnd (\<lambda>_. y1))) (\<lambda>_. fail OddAudio)
                 | Some buf \<Rightarrow> modify (apsnd (\<lambda>_. fst (os_WriteFile y1 (path_clean dst) (wav_encode rate buf)))))))"

definition saveAudioToFile :: "(string \<Rightarrow> bool) \<Rightarrow> string \<Rightarrow> string \<Rightarrow> int \<Rightarrow> ('c, 'n, unit) audio_prog" where
  "saveAudioToFile mkdir audio dst rate = (if \<not> mkdir (path_dir dst) then fail NoDirectory else saveAsWav audio dst rate)"

definition af_fetchAudio :: "'n http_client \<Rightarrow> string \<Rightarrow> Token \<Rightarrow> string \<Rightarrow> ('c, 'n, string) audio_prog" where
  "af_fetchAudio hc afssURL token urn =
     andThen (zoom snd (\<lambda>y (a, _). (a, y)) (http_Get hc (afssURL @ ''?urn='' @ query_escape urn) (af_header token))) (\<lambda>r.
       if hr_err r then fail RequestFailed
       else if hr_code r = 200 then ret (hr_body r)
       else if hr_code r = 404 then fail (UrnNotFound urn)
       else fail (ServerReply (hr_body r)))"

definition Download :: "'n http_client \<Rightarrow> (string \<Rightarrow> bool) \<Rightarrow> string \<Rightarrow> string \<Rightarrow> string \<Rightarrow> int \<Rightarrow> ('c, 'n, unit) audio_prog" where
  "Download hc mkdir afssURL urn dst rate =
     andThen (map_err AuthFailed (Authenticate hc)) (\<lambda>token.
     andThen (af_fetchAudio hc afssURL token urn) (\<lambda>pcm. saveAudioToFile mkdir pcm dst rate))"

section \<open>What is stored is what was sent\<close>

lemma le16_sample: "le16 (sample a b) = [a, b]"
proof -
  define n where "n = int (of_char a) + 256 * int (of_char b)"
  have "of_char a < (256 :: nat)" "of_char b < (256 :: nat)" by simp_all
  then have "of_char a + 256 * of_char b < (65536 :: nat)" by linarith
  then have "int (of_char a + 256 * of_char b) < 65536" by linarith
  then have n: "0 \<le> n" "n < 65536" by (simp_all add: n_def)
  have "(n - 65536) mod 65536 = n mod 65536" by (simp add: mod_diff_eq [symmetric, of n 65536])
  then have "sample a b mod 2 ^ 16 = n" using n by (auto simp: sample_def n_def [symmetric] Let_def)
  moreover have "nat n = of_char a + 256 * of_char b" by (simp add: n_def nat_add_distrib nat_mult_distrib)
  ultimately show ?thesis by (simp add: le16_def Let_def char_of_eq_iff take_bit_eq_mod)
qed

lemma buffer_data: "newAudioIntBuffer pcm = Some xs \<Longrightarrow> concat (map le16 xs) = pcm \<and> length pcm = 2 * length xs"
proof (induction pcm arbitrary: xs rule: newAudioIntBuffer.induct)
  case (3 a b r)
  then show ?case by (auto simp: le16_sample)
qed auto

lemma newAudioIntBuffer_even: "newAudioIntBuffer pcm \<noteq> None \<longleftrightarrow> even (length pcm)"
  by (induction pcm rule: newAudioIntBuffer.induct) auto

lemma length_le [simp]: "length (le16 i) = 2" "length (le32 i) = 4"
  by (simp_all add: le16_def le32_def Let_def)

text \<open>A reader of such files: the sample rate and the samples' bytes.\<close>

definition un_le32 :: "string \<Rightarrow> int" where
  "un_le32 s = (case s of [a, b, c, d] \<Rightarrow> int (of_char a) + 256 * int (of_char b) + 65536 * int (of_char c) + 16777216 * int (of_char d) | _ \<Rightarrow> 0)"

definition wav_read :: "string \<Rightarrow> (int \<times> string) option" where
  "wav_read f =
     (if take 4 f = ''RIFF'' \<and> un_le32 (take 4 (drop 4 f)) = int (length f) - 8 \<and> take 8 (drop 8 f) = ''WAVEfmt '' \<and>
         take 4 (drop 36 f) = ''data''
      then Some (un_le32 (take 4 (drop 24 f)), take (nat (un_le32 (take 4 (drop 40 f)))) (drop 44 f)) else None)"

lemma un_le32_le32:
  assumes "0 \<le> i" "i < 2 ^ 32"
  shows "un_le32 (le32 i) = i"
proof -
  define n where "n = nat i"
  have n: "int n = i" "n < 4294967296" using assms by (simp_all add: n_def)
  have "n = n mod 256 + 256 * (n div 256)" "n div 256 = n div 256 mod 256 + 256 * (n div 65536)"
    "n div 65536 = n div 65536 mod 256 + 256 * (n div 16777216)"
    using div_mult2_eq [of n 256 256] div_mult2_eq [of n 65536 256] by simp_all
  then have sum: "n = n mod 256 + 256 * (n div 256 mod 256) + 65536 * (n div 65536 mod 256) + 16777216 * (n div 16777216)"
    by linarith
  have "n div 16777216 < 256" using n(2) by (simp add: div_less_iff_less_mult)
  then have "un_le32 (le32 i) = int (n mod 256 + 256 * (n div 256 mod 256) + 65536 * (n div 65536 mod 256) + 16777216 * (n div 16777216))"
    using assms by (simp add: un_le32_def le32_def Let_def n_def [symmetric])
  then show ?thesis using sum n(1) by simp
qed

lemma wav_read_encode:
  assumes "newAudioIntBuffer pcm = Some xs" "0 \<le> rate" "rate < 2 ^ 32" "length pcm < 2 ^ 32 - 44"
  shows "wav_read (wav_encode rate xs) = Some (rate, pcm)"
proof -
  have d: "concat (map le16 xs) = pcm" "length pcm = 2 * length xs" using buffer_data [OF assms(1)] by auto
  have f: "wav_encode rate xs = ''RIFF'' @ le32 (36 + int (length pcm)) @ ''WAVEfmt '' @ le32 16 @ (le16 1 @ le16 1) @ le32 rate @
    (le32 (rate * 2) @ le16 2 @ le16 16) @ ''data'' @ le32 (int (length pcm)) @ pcm"
    using d(2) by (simp add: wav_encode_def d(1) Let_def add.commute)
  have s: "un_le32 (le32 (36 + int (length pcm))) = 36 + int (length pcm)" "un_le32 (le32 (int (length pcm))) = int (length pcm)"
    using assms(4) by (simp_all add: un_le32_le32)
  show ?thesis using assms(2,3) by (simp add: f wav_read_def s un_le32_le32)
qed

lemma saveAsWav_ok:
  assumes "saveAsWav pcm dst rate (a, y) = Some ((a', y'), Inr ())"
  shows "\<exists>xs. newAudioIntBuffer pcm = Some xs \<and> map_option fst (sy_files y' (path_clean dst)) = Some (wav_encode rate xs)"
proof -
  have w: "sy_writable y (path_clean dst)"
    using assms by (auto simp: saveAsWav_def andThen_def prog_simps os_WriteFile_def split: if_splits)
  obtain xs where xs: "newAudioIntBuffer pcm = Some xs"
    using assms w by (cases "newAudioIntBuffer pcm") (auto simp: saveAsWav_def andThen_def prog_simps os_WriteFile_def)
  then show ?thesis using assms w by (auto simp: saveAsWav_def andThen_def prog_simps os_WriteFile_def)
qed

lemma af_fetchAudio_ok:
  assumes "af_fetchAudio hc url token urn (a, y) = Some (s, Inr pcm)"
  shows "\<exists>r n' t. hc_send hc (sy_net y) r = (n', t, Some (200, pcm)) \<and> rq_URL r = url @ ''?urn='' @ query_escape urn"
  using assms
  by (fastforce simp: af_fetchAudio_def andThen_def zoom_def http_Get_def http_method_cases http_Do_def prog_simps Let_def
      split: option.splits prod.splits if_splits)

text \<open>C32. A download that reports success leaves a file from which the audio can be read back: the service
  answered the request for this name with status 200, and the file has the sample rate and, byte for
  byte, the samples of the answer, as long as they fit the size field of the format.\<close>

theorem download_keeps_audio:
  assumes "Download hc mkdir url urn dst rate st = Some (st', Inr ())" "0 \<le> rate" "rate < 2 ^ 32"
  shows "\<exists>n r n' t pcm file. hc_send hc n r = (n', t, Some (200, pcm)) \<and> rq_URL r = url @ ''?urn='' @ query_escape urn \<and>
     map_option fst (sy_files (snd st') (path_clean dst)) = Some file \<and> (length pcm < 2 ^ 32 - 44 \<longrightarrow> wav_read file = Some (rate, pcm))"
proof -
  obtain s1 token s2 pcm where f: "af_fetchAudio hc url token urn s1 = Some (s2, Inr pcm)" and v: "saveAudioToFile mkdir pcm dst rate s2 = Some (st', Inr ())"
    using assms(1) by (auto simp: Download_def andThen_Inr_iff)
  obtain r n' t where send: "hc_send hc (sy_net (snd s1)) r = (n', t, Some (200, pcm))" "rq_URL r = url @ ''?urn='' @ query_escape urn"
    using af_fetchAudio_ok [of hc url token urn "fst s1" "snd s1"] f by auto
  have "saveAsWav pcm dst rate (fst s2, snd s2) = Some ((fst st', snd st'), Inr ())"
    using v by (auto simp: saveAudioToFile_def fail_def split: if_splits)
  then obtain xs where xs: "newAudioIntBuffer pcm = Some xs" "map_option fst (sy_files (snd st') (path_clean dst)) = Some (wav_encode rate xs)"
    using saveAsWav_ok by blast
  then show ?thesis using send wav_read_encode [OF xs(1) assms(2,3)] by blast
qed

definition ex_afss :: "nat http_client" where
  "ex_afss = \<lparr>hc_send = (\<lambda>n r. (Suc n, 5, Some (200, ''pcm!''))), hc_url_ok = (\<lambda>_. True), hc_uuid = (\<lambda>_. ''u''), hc_rand = (\<lambda>_ _. 0)\<rparr>"

lemma ex_download:
  "\<exists>st'. Download ex_afss (\<lambda>_. True) ''http://afss'' ''urn:a'' ''logs/audio_0.wav'' 8000
     (NewAuthenticator (ex_cred\<lparr>cr_AuthDisabled := True\<rparr>) :: unit Authenticator, ex_sys) = Some (st', Inr ())"
  by (simp add: Download_def map_err_def Authenticate_def af_fetchAudio_def saveAudioToFile_def saveAsWav_def andThen_def prog_simps zoom_def
      http_Get_def http_method_cases http_Do_def ex_afss_def ex_sys_def NewAuthenticator_def NewAuthenticatorWithCache_def os_WriteFile_def)

theorem download_keeps_audio_witness:
  "\<exists>st' file. Download ex_afss (\<lambda>_. True) ''http://afss'' ''urn:a'' ''logs/audio_0.wav'' 8000
     (NewAuthenticator (ex_cred\<lparr>cr_AuthDisabled := True\<rparr>) :: unit Authenticator, ex_sys) = Some (st', Inr ()) \<and>
   map_option fst (sy_files (snd st') (path_clean ''logs/audio_0.wav'')) = Some file \<and> wav_read file = Some (8000, ''pcm!'')"
proof -
  obtain st' where d: "Download ex_afss (\<lambda>_. True) ''http://afss'' ''urn:a'' ''logs/audio_0.wav'' 8000
     (NewAuthenticator (ex_cred\<lparr>cr_AuthDisabled := True\<rparr>) :: unit Authenticator, ex_sys) = Some (st', Inr ())"
    using ex_download by blast
  from download_keeps_audio [OF d] show ?thesis using d by (auto simp: ex_afss_def)
qed

end
