(* ===== verification/File_Writer.thy ===== *)
theory File_Writer
  imports Log_Writer Audio_Fetcher
begin

text \<open>
  The file system writer (\<open>pkg/log_writers/filesystem/writer.go\<close> and \<open>storage.go\<close>): every record
  becomes a file in a directory made of its topic, its day and its sessions, and the audio of call
  summaries is downloaded next to it. \<open>mkdir\<close> tells which directories can be made. Texts of
  errors are abbreviated.
\<close>

section \<open>Storage\<close>

record Filesystem =
  fs_RootDir :: string

record File =
  fi_subDir :: string
  fi_name :: string
  fi_data :: string

definition NewFile :: "string \<Rightarrow> string \<Rightarrow> string \<Rightarrow> File" where
  "NewFile subDir name data = \<lparr>fi_subDir = subDir, fi_name = name, fi_data = data\<rparr>"

definition fs_NewStorage :: "string \<Rightarrow> Filesystem" where
  "fs_NewStorage path = \<lparr>fs_RootDir = path\<rparr>"

definition fs_Read :: "string \<Rightarrow> string \<Rightarrow> string + string" where
  "fs_Read key path = Inl ''not Implemented''"

definition fs_Write ::
  "(string \<Rightarrow> bool) \<Rightarrow> Filesystem \<Rightarrow> string \<Rightarrow> string \<Rightarrow> string \<Rightarrow> 'n sys \<Rightarrow> 'n sys \<times> (string + int) \<times> metric list" where
  "fs_Write mkdir f key path data y =
     (let (y', res) =
        (if \<not> mkdir (fs_RootDir f @ ''/'' @ key) then (y, Inl ''mkdir'')
         else (let (y1, ok) = os_WriteFile y (fs_RootDir f @ ''/'' @ key @ ''/'' @ path) data
               in (y1, if ok then Inr (int (length data)) else Inl ''write'')))
      in (y', res, [Gauge ''WriteDurationGauge'' [key],
                    (case res of Inl e \<Rightarrow> Counter ''WritesTotalCounter'' [''filesystem'', ''NotWritten'', e]
                               | Inr _ \<Rightarrow> Counter ''WritesTotalCounter'' [''filesystem'', ''Written'', []])]))"

text \<open>\<open>Delete\<close> does not look under the root directory, where \<open>Write\<close> puts the files.\<close>

definition fs_Delete :: "string \<Rightarrow> string \<Rightarrow> 'n sys \<Rightarrow> 'n sys \<times> bool" where
  "fs_Delete key path y =
     (let p = key @ ''/'' @ path
      in if sy_files y p = None then (y, False) else (y\<lparr>sy_files := (sy_files y)(p := None)\<rparr>, True))"

section \<open>The directory of a record\<close>

definition dialog_session :: "obj option \<Rightarrow> string option" where
  "dialog_session cd =
     (case cd of
        Some m \<Rightarrow> (case obj_get m ''x-nuance-dialog-session-id'' of Some (JStr sid) \<Rightarrow> Some sid | _ \<Rightarrow> None)
      | None \<Rightarrow> None)"

text \<open>\<^term>\<open>None\<close> is the panic when a record of the dialog or the recognition service has none of the
  fields of its service, so that the embedded pointer is nil.\<close>

definition parseSessionIDAndServicePath :: "EventLogSchema \<Rightarrow> string option" where
  "parseSessionIDAndServicePath s =
     (let v = el_Value s; d = elv_Data v;
          client = (case data_ClientData d of
                      Some m \<Rightarrow> dialog_session (Some m)
                    | None \<Rightarrow> (case data_Request d of Some r \<Rightarrow> dialog_session (req_ClientData r) | None \<Rightarrow> None))
      in do { (dlgSessionID, asrSessionID, service) \<leftarrow>
                (if elv_Service v = ''DLGaaS'' then
                   do { dlg \<leftarrow> data_Dlg d;
                        Some (Some (dlg_SessionID dlg), None, if elv_Source v = ''NIIEventLogger'' then ''nii'' else ''dlg'') }
                 else if elv_Service v = ''ASRaaS'' then
                   do { asr \<leftarrow> data_Asr d; Some (client, Some (asr_AsrSessionID asr), ''asr'') }
                 else if elv_Service v = ''TTSaaS'' then Some (client, None, ''tts'')
                 else if elv_Service v = ''NLUaaS'' then Some (client, None, ''nlu'')
                 else Some (client, None, []));
              Some (case (dlgSessionID, asrSessionID) of
                      (None, None) \<Rightarrow> service
                    | (None, Some a) \<Rightarrow> service @ ''/'' @ a
                    | (Some g, None) \<Rightarrow> g @ ''/'' @ service
                    | (Some g, Some a) \<Rightarrow> g @ ''/'' @ service @ ''/'' @ a) })"

definition fs_getIndex :: "EventLogSchema \<Rightarrow> string option" where
  "fs_getIndex s =
     do { sessionID \<leftarrow> parseSessionIDAndServicePath s;
          Some (el_Topic s @ ''/'' @ format_mdy (time_parse (elv_Timestamp (el_Value s))) @ ''/'' @ sessionID) }"

section \<open>Audio\<close>

text \<open>The entry of a recognition: nothing when it has no audio, else name and sample rate; \<^term>\<open>None\<close>
  is the panic of a type assertion.\<close>

definition audio_entry :: "json \<Rightarrow> (string \<times> int) option option" where
  "audio_entry v =
     (case v of
        JObj m \<Rightarrow>
          (case obj_get m ''audioUrn'' of
             None \<Rightarrow> Some None
           | Some JNull \<Rightarrow> Some None
           | Some (JStr urn) \<Rightarrow>
               (case obj_get m ''recognitionParameters'' of
                  Some (JObj p) \<Rightarrow>
                    (case obj_get p ''audioFormat'' of
                       Some (JStr f) \<Rightarrow> Some (Some (urn, if str_contains f ''16000'' then 16000 else 8000))
                     | _ \<Rightarrow> None)
                | _ \<Rightarrow> None)
           | Some _ \<Rightarrow> None)
      | _ \<Rightarrow> None)"

text \<open>The loop returns at the first recognition without audio. Errors of a download are only logged.\<close>

fun audio_loop ::
  "(string \<Rightarrow> string \<Rightarrow> int \<Rightarrow> ('c, 'n, unit) audio_prog) \<Rightarrow> string \<Rightarrow> nat \<Rightarrow> json list \<Rightarrow> ('c, 'n, unit) audio_prog" where
  "audio_loop download root idx [] = ret ()"
| "audio_loop download root idx (x # xs) =
     (case audio_entry x of
        None \<Rightarrow> die
      | Some None \<Rightarrow> ret ()
      | Some (Some (urn, rate)) \<Rightarrow>
          andThen (attempt (download urn (path_join root (''audio_'' @ nat_str idx @ ''.wav'')) rate)) (\<lambda>_.
            audio_loop download root (Suc idx) xs))"

definition fs_fetchAudio ::
  "(string \<Rightarrow> string \<Rightarrow> int \<Rightarrow> ('c, 'n, unit) audio_prog) \<Rightarrow> EventLogSchema \<Rightarrow> string \<Rightarrow> ('c, 'n, unit) audio_prog" where
  "fs_fetchAudio download s root =
     (case data_Asr (elv_Data (el_Value s)) of
        None \<Rightarrow> die
      | Some asr \<Rightarrow>
          (case asr_CallSummary asr of
             None \<Rightarrow> die
           | Some cs \<Rightarrow> audio_loop download root 0 (case cs_Recognize cs of None \<Rightarrow> [] | Some xs \<Rightarrow> xs)))"

section \<open>The handler\<close>

text \<open>The audio fetcher is there when it is enabled; the state has its authenticator and the machine.\<close>

record 'n fs_writer =
  fw_Path :: string
  fw_filesystem :: Filesystem
  fw_audioFetcher :: "string option"
  fw_hc :: "'n http_client"
  fw_mkdir :: "string \<Rightarrow> bool"

definition fs_handle :: "'n fs_writer \<Rightarrow> 'c Authenticator \<times> 'n sys \<Rightarrow> string \<Rightarrow> (('c Authenticator \<times> 'n sys) \<times> metric list) option" where
  "fs_handle w st record =
     (let (s, err) = unmarshal_schema record el_zero
      in if err \<noteq> None then Some (st, writer_monitor (Some ''json'') ''unknown'')
         else do { index \<leftarrow> fs_getIndex s;
                   let (y, res, ms) = fs_Write (fw_mkdir w) (fw_filesystem w) index (docID_of s @ ''.json'') record (snd st);
                       st1 = (fst st, y);
                       err = (case res of Inl e \<Rightarrow> Some e | Inr _ \<Rightarrow> None)
                   in do { (st2, _) \<leftarrow>
                             (case fw_audioFetcher w of
                                Some url \<Rightarrow>
                                  if elv_Service (el_Value s) = ''ASRaaS'' \<and> str_contains (data_DataContentType (elv_Data (el_Value s))) ''callsummary''
                                  then fs_fetchAudio (Download (fw_hc w) (fw_mkdir w) url) s (path_join (fw_Path w) index) st1
                                  else ret () st1
                              | None \<Rightarrow> ret () st1);
                           Some (st2, incoming_metrics (el_Topic s) @ ms @ writer_monitor err (el_Topic s)) } })"

text \<open>\<open>Shutdown\<close> of this storage does nothing.\<close>

definition fs_jobHandler ::
  "'n fs_writer \<Rightarrow> 'c Authenticator \<times> 'n sys \<Rightarrow> writer_event \<Rightarrow> (('c Authenticator \<times> 'n sys) \<times> metric list) option" where
  "fs_jobHandler w st ev = (case ev of Signal \<Rightarrow> Some (st, []) | Incoming record \<Rightarrow> fs_handle w st record)"

section \<open>Properties\<close>

definition file_of :: "'n fs_writer \<Rightarrow> EventLogSchema \<Rightarrow> string \<Rightarrow> string" where
  "file_of w s index = fs_RootDir (fw_filesystem w) @ ''/'' @ index @ ''/'' @ docID_of s @ ''.json''"

lemma fs_handle_stores:
  assumes "unmarshal_schema record el_zero = (s, None)" "fs_getIndex s = Some index" "fw_audioFetcher w = None"
    and "fw_mkdir w (fs_RootDir (fw_filesystem w) @ ''/'' @ index)" "sy_writable y (file_of w s index)"
  shows "\<exists>ms. fs_jobHandler w (a, y) (Incoming record) =
           Some ((a, y\<lparr>sy_files := (sy_files y)(file_of w s index \<mapsto> (record, sy_now y))\<rparr>), ms) \<and>
         tallied ''ElcNumRecordsOutCounter'' ms = 1 \<and> tallied ''ElcErrors'' ms = 0"
  using assms
  by (simp add: fs_jobHandler_def fs_handle_def fs_Write_def os_WriteFile_def file_of_def ret_def writer_monitor_counts)
    (simp add: tallied_def writer_monitor_def)

text \<open>A name without a slash can be read off the end of a path.\<close>

lemma last_element:
  assumes "CHR ''/'' \<notin> set x" "CHR ''/'' \<notin> set y" "p @ ''/'' @ x = q @ ''/'' @ y"
  shows "x = y"
proof -
  have "takeWhile (\<lambda>c. c \<noteq> CHR ''/'') (rev (p @ ''/'' @ x)) = rev x" if "CHR ''/'' \<notin> set x" for p x
    using that by (auto simp: takeWhile_append)
  then show ?thesis using assms by (metis rev_rev_ident)
qed

lemma docID_slash:
  "plain_log s \<Longrightarrow> CHR ''/'' \<notin> set (elv_ID (el_Value s)) \<Longrightarrow> CHR ''/'' \<notin> set (el_Topic s) \<Longrightarrow> CHR ''/'' \<notin> set (docID_of s)"
  using nat_str_digits [of "CHR ''/''"]
  by (auto simp: docID_of_def plain_log_def fmt_float_plain fmt_f0_plain is_digit_def)

text \<open>C31. The file system writer keeps records apart. Take two records that decode, whose directories can
  be made and files written, with whole numbers as partition and offset and neither dots nor slashes
  in id and topic. Unless they agree in id, topic, partition and offset, handling one and then the
  other leaves two different files, each with the bytes of its record, and no error is reported.\<close>

theorem fs_keeps_both_records:
  assumes "unmarshal_schema r1 el_zero = (s1, None)" "fs_getIndex s1 = Some i1" "unmarshal_schema r2 el_zero = (s2, None)" "fs_getIndex s2 = Some i2"
    and "fw_audioFetcher w = None" "\<And>d. fw_mkdir w d" "\<And>p. sy_writable y p"
    and "plain_log s1" "plain_log s2"
    and "\<And>s. s \<in> {s1, s2} \<Longrightarrow> CHR ''/'' \<notin> set (elv_ID (el_Value s)) \<and> CHR ''/'' \<notin> set (el_Topic s)"
    and "\<not> (elv_ID (el_Value s1) = elv_ID (el_Value s2) \<and> el_Topic s1 = el_Topic s2 \<and>
             el_Partition s1 = el_Partition s2 \<and> el_Offset s1 = el_Offset s2)"
  shows "\<exists>st1 ms1 y2 ms2. fs_jobHandler w (a, y) (Incoming r1) = Some (st1, ms1) \<and> fs_jobHandler w st1 (Incoming r2) = Some ((a, y2), ms2) \<and>
     map_option fst (sy_files y2 (file_of w s1 i1)) = Some r1 \<and> map_option fst (sy_files y2 (file_of w s2 i2)) = Some r2 \<and>
     tallied ''ElcErrors'' ms1 = 0 \<and> tallied ''ElcErrors'' ms2 = 0"
proof -
  have "docID_of s1 \<noteq> docID_of s2" using docID_inj assms(8,9,11) by blast
  moreover have "CHR ''/'' \<notin> set (docID_of s1 @ ''.json'')" "CHR ''/'' \<notin> set (docID_of s2 @ ''.json'')"
    using docID_slash [OF assms(8)] docID_slash [OF assms(9)] assms(10) by auto
  ultimately have ne: "file_of w s1 i1 \<noteq> file_of w s2 i2"
    using last_element [of "docID_of s1 @ ''.json''" "docID_of s2 @ ''.json''"
        "fs_RootDir (fw_filesystem w) @ ''/'' @ i1" "fs_RootDir (fw_filesystem w) @ ''/'' @ i2"]
    by (auto simp: file_of_def)
  let ?y1 = "y\<lparr>sy_files := (sy_files y)(file_of w s1 i1 \<mapsto> (r1, sy_now y))\<rparr>"
  let ?y2 = "?y1\<lparr>sy_files := (sy_files ?y1)(file_of w s2 i2 \<mapsto> (r2, sy_now ?y1))\<rparr>"
  obtain ms1 where 1: "fs_jobHandler w (a, y) (Incoming r1) = Some ((a, ?y1), ms1)" "tallied ''ElcErrors'' ms1 = 0"
    using fs_handle_stores [OF assms(1,2,5,6)] assms(7) by blast
  have "sy_writable ?y1 (file_of w s2 i2)" using assms(7) by simp
  then obtain ms2 where 2: "fs_jobHandler w (a, ?y1) (Incoming r2) = Some ((a, ?y2), ms2)" "tallied ''ElcErrors'' ms2 = 0"
    using fs_handle_stores [OF assms(3,4,5,6)] by blast
  show ?thesis using 1 2 ne by (intro exI [of _ "(a, ?y1)"] exI [of _ ms1] exI [of _ ?y2] exI [of _ ms2]) simp
qed

definition ex_fs :: "nat fs_writer" where
  "ex_fs = \<lparr>fw_Path = ''logs'', fw_filesystem = fs_NewStorage ''logs'', fw_audioFetcher = None, fw_hc = ex_hc, fw_mkdir = (\<lambda>_. True)\<rparr>"

definition ex_nlu :: "string \<Rightarrow> string" where
  "ex_nlu n = ''{\"topic\":\"t\",\"offset\":'' @ n @ '',\"value\":{\"service\":\"NLUaaS\",\"timestamp\":\"2024-03-01T10:00:00Z\"}}''"

definition ex_nlu_log :: "string \<Rightarrow> EventLogSchema" where
  "ex_nlu_log n = fst (unmarshal_schema (ex_nlu n) el_zero)"

definition ex_nlu_ok :: "string \<Rightarrow> int \<Rightarrow> bool" where
  "ex_nlu_ok n i =
     (let (s, err) = unmarshal_schema (ex_nlu n) el_zero
      in err = None \<and> fs_getIndex s = Some ''t/03-01-2024/nlu'' \<and> elv_ID (el_Value s) = [] \<and> el_Topic s = ''t'' \<and>
         el_Partition s = Dec 0 0 \<and> el_Offset s = Dec i 0)"

lemma ex_nlu_dec: "ex_nlu_ok ''1'' 1" "ex_nlu_ok ''12'' 12"
  by code_simp+

lemma ex_nlu_facts:
  assumes "ex_nlu_ok n i" "0 \<le> i"
  shows "unmarshal_schema (ex_nlu n) el_zero = (ex_nlu_log n, None)" "fs_getIndex (ex_nlu_log n) = Some ''t/03-01-2024/nlu''"
    "plain_log (ex_nlu_log n)" "el_Topic (ex_nlu_log n) = ''t''" "elv_ID (el_Value (ex_nlu_log n)) = []" "el_Offset (ex_nlu_log n) = Dec i 0"
  using assms by (auto simp: ex_nlu_ok_def plain_log_def ex_nlu_log_def split: prod.splits)

theorem fs_keeps_both_records_witness:
  "\<exists>st1 ms1 y2 ms2. fs_jobHandler ex_fs (ex_auth, ex_sys) (Incoming (ex_nlu ''1'')) = Some (st1, ms1) \<and>
     fs_jobHandler ex_fs st1 (Incoming (ex_nlu ''12'')) = Some ((ex_auth, y2), ms2) \<and>
     map_option fst (sy_files y2 (file_of ex_fs (ex_nlu_log ''1'') ''t/03-01-2024/nlu'')) = Some (ex_nlu ''1'')"
proof -
  have "0 \<le> (1 :: int)" "0 \<le> (12 :: int)" by simp_all
  note f1 = ex_nlu_facts [OF ex_nlu_dec(1) this(1)] and f2 = ex_nlu_facts [OF ex_nlu_dec(2) this(2)]
  have w: "\<And>d. fw_mkdir ex_fs d" "\<And>p. sy_writable ex_sys p" "fw_audioFetcher ex_fs = None" by (simp_all add: ex_fs_def ex_sys_def)
  have slash: "CHR ''/'' \<notin> set (elv_ID (el_Value s)) \<and> CHR ''/'' \<notin> set (el_Topic s)" if "s \<in> {ex_nlu_log ''1'', ex_nlu_log ''12''}" for s
    using that f1(4,5) f2(4,5) by auto
  have "el_Offset (ex_nlu_log ''1'') \<noteq> el_Offset (ex_nlu_log ''12'')" using f1(6) f2(6) by simp
  then have "\<not> (elv_ID (el_Value (ex_nlu_log ''1'')) = elv_ID (el_Value (ex_nlu_log ''12'')) \<and> el_Topic (ex_nlu_log ''1'') = el_Topic (ex_nlu_log ''12'') \<and>
      el_Partition (ex_nlu_log ''1'') = el_Partition (ex_nlu_log ''12'') \<and> el_Offset (ex_nlu_log ''1'') = el_Offset (ex_nlu_log ''12''))" by simp
  from fs_keeps_both_records [OF f1(1,2) f2(1,2) w(3,1,2) f1(3) f2(3) slash this, of ex_auth] show ?thesis by blast
qed

text \<open>A record of the dialog service without any of the fields of a dialog record, and a record of the
  recognition service without any of the fields of a recognition record, kill the file system writer.\<close>

lemma fs_bare_record_panics:
  assumes "unmarshal_schema record el_zero = (s, None)"
    and "elv_Service (el_Value s) = ''DLGaaS'' \<and> data_Dlg (elv_Data (el_Value s)) = None \<or>
         elv_Service (el_Value s) = ''ASRaaS'' \<and> data_Asr (elv_Data (el_Value s)) = None"
  shows "fs_jobHandler w st (Incoming record) = None"
  using assms by (auto simp: fs_jobHandler_def fs_handle_def fs_getIndex_def parseSessionIDAndServicePath_def)

definition ex_bare_ok :: bool where
  "ex_bare_ok = (let (s, err) = unmarshal_schema ''{\"value\":{\"service\":\"DLGaaS\",\"data\":{}}}'' el_zero
     in err = None \<and> elv_Service (el_Value s) = ''DLGaaS'' \<and> data_Dlg (elv_Data (el_Value s)) = None)"

lemma ex_bare_dec: "ex_bare_ok"
  by code_simp

lemma fs_bare_record_panics_example:
  "fs_jobHandler ex_fs (ex_auth, ex_sys) (Incoming ''{\"value\":{\"service\":\"DLGaaS\",\"data\":{}}}'') = None"
proof -
  obtain s where "unmarshal_schema ''{\"value\":{\"service\":\"DLGaaS\",\"data\":{}}}'' el_zero = (s, None)"
    "elv_Service (el_Value s) = ''DLGaaS'' \<and> data_Dlg (elv_Data (el_Value s)) = None"
    using ex_bare_dec by (auto simp: ex_bare_ok_def split: prod.splits)
  then show ?thesis using fs_bare_record_panics by blast
qed

text \<open>One recognition without audio hides the audio of those after it.\<close>

lemma audio_after_gap_is_skipped:
  "audio_entry x = Some None \<Longrightarrow> audio_loop download root i (xs @ x # ys) = audio_loop download root i xs"
  by (induction xs arbitrary: i) (auto split: option.split prod.split)

end
