(* ===== verification/Neap_Storage.thy ===== *)
theory Neap_Storage
  imports Bulk_Storage
begin

text \<open>
  The storage of the NEAP writer (\<open>pkg/log_writers/neap/storage.go\<close>): records are collected line by
  line, cut into batches as in the other storages, and each batch becomes a compressed file whose
  name is made of the time. The two compressors are parameters.
\<close>

section \<open>The buffer\<close>

record NeapRecords =
  nr_data :: string
  nr_numRecords :: int

definition nr_empty :: NeapRecords where
  "nr_empty = \<lparr>nr_data = [], nr_numRecords = 0\<rparr>"

definition nr_Length :: "NeapRecords \<Rightarrow> int" where
  "nr_Length r = nr_numRecords r"

definition nr_SizeInBytes :: "NeapRecords \<Rightarrow> int" where
  "nr_SizeInBytes r = int (length (nr_data r))"

definition nr_Append :: "string \<Rightarrow> NeapRecords \<Rightarrow> NeapRecords" where
  "nr_Append value r = r\<lparr>nr_data := nr_data r @ value @ [CHR 0x0A], nr_numRecords := nr_numRecords r + 1\<rparr>"

text \<open>The copy leaves out the last line break, which stays in the buffer. For an empty buffer the length
  of the copy would be negative, and \<open>make\<close> panics.\<close>

definition nr_Records :: "NeapRecords \<Rightarrow> (string \<times> NeapRecords) option" where
  "nr_Records r =
     (if nr_data r = [] then None else Some (butlast (nr_data r), r\<lparr>nr_data := [last (nr_data r)]\<rparr>))"

definition nr_Clear :: "NeapRecords \<Rightarrow> NeapRecords" where
  "nr_Clear r = r\<lparr>nr_data := [], nr_numRecords := 0\<rparr>"

section \<open>The client\<close>

datatype Compression = GZIP | ZIP

record NeapConfig =
  nf_NumWorkers :: int
  nf_Path :: string
  nf_Compression :: string
  nf_MaxRecords :: int

record NeapClient =
  nc_path :: string
  nc_compression :: Compression
  nc_recordCountThreshold :: int
  nc_records :: NeapRecords

definition neap_NewStorage :: "NeapConfig \<Rightarrow> NeapClient" where
  "neap_NewStorage config =
     \<lparr>nc_path = nf_Path config, nc_compression = (if nf_Compression config = ''zip'' then ZIP else GZIP),
      nc_recordCountThreshold = nf_MaxRecords config, nc_records = nr_empty\<rparr>"

abbreviation neap_NewJob :: "job_action \<Rightarrow> string \<Rightarrow> string \<Rightarrow> string option \<Rightarrow> Job option" where
  "neap_NewJob \<equiv> NewJob"

abbreviation neap_storageHandler :: "Job option \<Rightarrow> Job option option" where
  "neap_storageHandler \<equiv> storageHandler"

definition neap_Write :: "string \<Rightarrow> string \<Rightarrow> string \<Rightarrow> Job option" where
  "neap_Write key path data = NewJob WRITE key path (Some data)"

record neap_handler =
  nh_client :: NeapClient
  nh_lastCommit :: int

definition neap_spawn_commit :: "NeapClient \<Rightarrow> (NeapClient \<times> batch) option" where
  "neap_spawn_commit n =
     map_option (\<lambda>(data, r). (n\<lparr>nc_records := nr_Clear r\<rparr>, (data, nr_Length r))) (nr_Records (nc_records n))"

definition neap_commitHandler :: "int \<Rightarrow> handler_event \<Rightarrow> neap_handler \<Rightarrow> (neap_handler \<times> batch list) option" where
  "neap_commitHandler now ev h =
     (case ev of
        GotRecord job \<Rightarrow>
          (let n = (nh_client h)\<lparr>nc_records := nr_Append (jo_Body job) (nc_records (nh_client h))\<rparr>
           in if nc_recordCountThreshold n \<le> nr_Length (nc_records n)
              then map_option (\<lambda>(n', b). (h\<lparr>nh_client := n', nh_lastCommit := now\<rparr>, [b])) (neap_spawn_commit n)
              else Some (h\<lparr>nh_client := n\<rparr>, []))
      | Tick \<Rightarrow>
          if nr_Length (nc_records (nh_client h)) = 0 then Some (h, [])
          else if TICKER_TIMEOUT_MS \<le> now - nh_lastCommit h
          then map_option (\<lambda>(n', b). (h\<lparr>nh_client := n', nh_lastCommit := now\<rparr>, [b])) (neap_spawn_commit (nh_client h))
          else Some (h, [])
      | Stop \<Rightarrow>
          if 0 < nr_Length (nc_records (nh_client h))
          then map_option (\<lambda>(n', b). (h\<lparr>nh_client := n'\<rparr>, [b])) (neap_spawn_commit (nh_client h))
          else Some (h, []))"

section \<open>Files\<close>

text \<open>\<open>%0wv\<close> of an integer.\<close>

definition pad_int :: "nat \<Rightarrow> int \<Rightarrow> string" where
  "pad_int w i =
     (if i < 0 then (let ds = nat_str (nat (- i)) in CHR ''-'' # replicate (w - 1 - length ds) (CHR ''0'') @ ds)
      else (let ds = nat_str (nat i) in replicate (w - length ds) (CHR ''0'') @ ds))"

text \<open>The time in UTC as a part of a file name: date, time of day, milliseconds since 1970.\<close>

definition neap_tfmt :: "go_time \<Rightarrow> string" where
  "neap_tfmt t =
     (let s = t_unix t mod 86400
      in two_digits (t_month t) @ two_digits (t_day t) @ two_digits (t_year t div 100) @ two_digits (t_year t mod 100) @ ''_'' @
         pad_int 2 (s div 3600) @ pad_int 2 (s mod 3600 div 60) @ pad_int 2 (s mod 60) @ ''_'' @
         pad_int 3 (t_unix t * 1000 + t_nsec t div 1000000))"

text \<open>The compressors: \<open>compress/gzip\<close> on data, \<open>archive/zip\<close> on one named file.\<close>

record compressors =
  cp_gzip :: "string \<Rightarrow> string"
  cp_zip :: "string \<Rightarrow> string \<Rightarrow> string"

definition createZipFile :: "compressors \<Rightarrow> go_time \<Rightarrow> string \<Rightarrow> string \<Rightarrow> 'n sys \<Rightarrow> 'n sys \<times> bool" where
  "createZipFile cp t path records y =
     os_WriteFile y (path @ ''/records_'' @ neap_tfmt t @ ''.zip'') (cp_zip cp (''records_'' @ neap_tfmt t @ ''.json'') records)"

definition createGzipFile :: "compressors \<Rightarrow> go_time \<Rightarrow> string \<Rightarrow> string \<Rightarrow> 'n sys \<Rightarrow> 'n sys \<times> bool" where
  "createGzipFile cp t path records y =
     os_WriteFile y (path @ ''/records_'' @ neap_tfmt t @ ''.gz'') (cp_gzip cp records)"

definition neap_processError :: "int \<Rightarrow> bulk_metric list" where
  "neap_processError numErrors =
     [Add ''WritesTotalCounter'' numErrors ''NotWritten'', Add ''CommitTotalCounter'' numErrors ''error'']"

definition neap_processSuccess :: "int \<Rightarrow> bulk_metric list" where
  "neap_processSuccess n = [Add ''WritesTotalCounter'' n ''Written'', Add ''CommitTotalCounter'' n ''200'']"

text \<open>A commit: \<open>mkdir\<close> tells which directories can be made; \<open>t1\<close> and \<open>t2\<close> are the times at which the
  directory and the file get their names. The result has the number of records saved and the number
  lost.\<close>

definition neap_commit ::
  "compressors \<Rightarrow> (string \<Rightarrow> bool) \<Rightarrow> go_time \<Rightarrow> go_time \<Rightarrow> NeapClient \<Rightarrow> batch \<Rightarrow> 'n sys \<Rightarrow> 'n sys \<times> int \<times> int \<times> bulk_metric list" where
  "neap_commit cp mkdir t1 t2 n b y =
     (let path = nc_path n @ ''/'' @ format_mdy t1; (records, cnt) = b
      in if \<not> mkdir path then (y, 0, cnt, neap_processError cnt)
         else (let (y', ok) = (case nc_compression n of
                                 ZIP \<Rightarrow> createZipFile cp t2 path records y
                               | GZIP \<Rightarrow> createGzipFile cp t2 path records y)
               in if ok then (y', cnt, 0, neap_processSuccess cnt) else (y', 0, cnt, neap_processError cnt)))"

section \<open>Batches\<close>

text \<open>A run of the handler; \<^term>\<open>None\<close> is a panic.\<close>

fun neap_run :: "(int \<times> handler_event) list \<Rightarrow> neap_handler \<Rightarrow> (neap_handler \<times> batch list) option" where
  "neap_run [] h = Some (h, [])"
| "neap_run ((now, ev) # evs) h =
     do { (h1, bs) \<leftarrow> neap_commitHandler now ev h; (h2, bs') \<leftarrow> neap_run evs h1; Some (h2, bs @ bs') }"

definition neap_item :: "handler_event \<Rightarrow> string list" where
  "neap_item ev = (case ev of GotRecord job \<Rightarrow> [jo_Body job] | Tick \<Rightarrow> [] | Stop \<Rightarrow> [])"

definition neap_batch :: "string list \<Rightarrow> batch" where
  "neap_batch ds = (join_with (CHR 0x0A) ds, int (length ds))"

definition neap_lines :: "string list \<Rightarrow> string" where
  "neap_lines ds = concat (map (\<lambda>d. d @ [CHR 0x0A]) ds)"

definition neap_pending :: "neap_handler \<Rightarrow> string list \<Rightarrow> bool" where
  "neap_pending h ds =
     (nc_records (nh_client h) = \<lparr>nr_data = neap_lines ds, nr_numRecords = int (length ds)\<rparr> \<and>
      int (length ds) < max 1 (nc_recordCountThreshold (nh_client h)))"

definition neap_turn :: "int \<Rightarrow> handler_event \<Rightarrow> neap_handler \<Rightarrow> neap_handler \<times> batch list" where
  "neap_turn now ev h = (case neap_commitHandler now ev h of None \<Rightarrow> (h, []) | Some r \<Rightarrow> r)"

lemma butlast_lines: "ds \<noteq> [] \<Longrightarrow> butlast (neap_lines ds) = join_with (CHR 0x0A) ds"
proof (induction "CHR 0x0A" ds rule: join_with.induct)
  case (3 w v ws)
  have "neap_lines (v # ws) \<noteq> []" by (simp add: neap_lines_def)
  then show ?case using 3 by (simp add: neap_lines_def butlast_append)
qed (simp_all add: neap_lines_def)

lemma neap_spawn_eval:
  "ds \<noteq> [] \<Longrightarrow> nc_records n = \<lparr>nr_data = neap_lines ds, nr_numRecords = int (length ds)\<rparr> \<Longrightarrow>
   neap_spawn_commit n = Some (n\<lparr>nc_records := nr_empty\<rparr>, neap_batch ds)"
  using butlast_lines [of ds]
  by (auto simp: neap_spawn_commit_def nr_Records_def nr_Clear_def nr_Length_def nr_empty_def neap_batch_def neap_lines_def)

lemma neap_lines_Nil [simp]: "neap_lines [] = []"
  by (simp add: neap_lines_def)

text \<open>One event never panics; the buffer grows by the record, or leaves as one batch.\<close>

lemma neap_commitHandler_spec:
  assumes "neap_pending h ds"
  shows "\<exists>h' out rest. neap_commitHandler now ev h = Some (h', map neap_batch out) \<and> [] \<notin> set out \<and> neap_pending h' rest \<and>
           concat out @ rest = ds @ neap_item ev \<and> (ev = Stop \<longrightarrow> rest = [])"
proof (cases ev)
  case (GotRecord job)
  let ?ds = "ds @ [jo_Body job]"
  let ?n = "(nh_client h)\<lparr>nc_records := nr_Append (jo_Body job) (nc_records (nh_client h))\<rparr>"
  have b: "nc_records ?n = \<lparr>nr_data = neap_lines ?ds, nr_numRecords = int (length ?ds)\<rparr>"
    using assms by (simp add: neap_pending_def nr_Append_def neap_lines_def)
  show ?thesis
  proof (cases "nc_recordCountThreshold ?n \<le> nr_Length (nc_records ?n)")
    case True
    then show ?thesis using GotRecord neap_spawn_eval [OF _ b]
      by (intro exI [of _ "h\<lparr>nh_client := ?n\<lparr>nc_records := nr_empty\<rparr>, nh_lastCommit := now\<rparr>"] exI [of _ "[?ds]"] exI [of _ "[]"])
        (simp add: neap_commitHandler_def neap_item_def neap_pending_def nr_empty_def)
  next
    case False
    then show ?thesis using GotRecord b
      by (intro exI [of _ "h\<lparr>nh_client := ?n\<rparr>"] exI [of _ "[]"] exI [of _ ?ds])
        (auto simp: neap_commitHandler_def neap_item_def neap_pending_def nr_Length_def)
  qed
next
  case Tick
  show ?thesis
  proof (cases "ds = [] \<or> now - nh_lastCommit h < TICKER_TIMEOUT_MS")
    case True
    then show ?thesis using Tick assms
      by (intro exI [of _ h] exI [of _ "[]"] exI [of _ ds])
        (auto simp: neap_commitHandler_def neap_item_def neap_pending_def nr_Length_def)
  next
    case False
    then show ?thesis using Tick assms neap_spawn_eval [of ds "nh_client h"]
      by (intro exI [of _ "h\<lparr>nh_client := (nh_client h)\<lparr>nc_records := nr_empty\<rparr>, nh_lastCommit := now\<rparr>"] exI [of _ "[ds]"] exI [of _ "[]"])
        (auto simp: neap_commitHandler_def neap_item_def neap_pending_def nr_Length_def nr_empty_def)
  qed
next
  case Stop
  show ?thesis
  proof (cases "ds = []")
    case True
    then show ?thesis using Stop assms
      by (intro exI [of _ h] exI [of _ "[]"] exI [of _ "[]"])
        (auto simp: neap_commitHandler_def neap_item_def neap_pending_def nr_Length_def)
  next
    case False
    then show ?thesis using Stop assms neap_spawn_eval [of ds "nh_client h"]
      by (intro exI [of _ "h\<lparr>nh_client := (nh_client h)\<lparr>nc_records := nr_empty\<rparr>\<rparr>"] exI [of _ "[ds]"] exI [of _ "[]"])
        (auto simp: neap_commitHandler_def neap_item_def neap_pending_def nr_Length_def nr_empty_def)
  qed
qed

interpretation neap: batch_handler neap_turn "\<lambda>ev. ev = Stop" neap_item neap_batch neap_pending
proof unfold_locales
  fix h h' ds now ev bs
  assume p: "neap_pending h ds" and t: "neap_turn now ev h = (h', bs)"
  obtain k out rest where s: "neap_commitHandler now ev h = Some (k, map neap_batch out)" "[] \<notin> set out" "neap_pending k rest"
    "concat out @ rest = ds @ neap_item ev" "ev = Stop \<longrightarrow> rest = []"
    using neap_commitHandler_spec [OF p] by blast
  then have "k = h'" "bs = map neap_batch out" using t by (simp_all add: neap_turn_def)
  then show "\<exists>out rest. bs = map neap_batch out \<and> [] \<notin> set out \<and> neap_pending h' rest \<and>
      concat out @ rest = ds @ neap_item ev \<and> (ev = Stop \<longrightarrow> rest = [])"
    using s by blast
qed (simp add: neap_item_def)

lemma neap_run_turns:
  "neap_pending h ds \<Longrightarrow> neap_run evs h = Some (handler_run neap_turn evs h)"
proof (induction evs arbitrary: h ds)
  case (Cons e evs)
  obtain now ev where e: "e = (now, ev)" by (cases e)
  obtain h' out rest where t: "neap_commitHandler now ev h = Some (h', map neap_batch out)" "neap_pending h' rest"
    using neap_commitHandler_spec [OF Cons.prems, of now ev] by blast
  then show ?case using Cons.IH [OF t(2)] by (simp add: e neap_turn_def split: prod.splits)
qed simp

definition neap_fresh :: "NeapConfig \<Rightarrow> neap_handler" where
  "neap_fresh config = \<lparr>nh_client = neap_NewStorage config, nh_lastCommit = 0\<rparr>"

lemma neap_fresh_pending: "neap_pending (neap_fresh config) []"
  by (simp add: neap_fresh_def neap_NewStorage_def neap_pending_def nr_empty_def)



section \<open>File names\<close>

text \<open>File names only tell milliseconds apart: two batches that are committed on the same day with
  file names made in the same millisecond get the same file. Both commits report all their records
  as saved, and only the second batch is on disk.\<close>

lemma neap_same_millisecond_overwrites:
  assumes "neap_commit cp mkdir t1 t2 n (data1, c1) y = (y1, i1, 0, ms1)" "0 < c1"
    and "neap_commit cp mkdir t1' t2' n (data2, c2) y1 = (y2, i2, 0, ms2)" "0 < c2"
    and "format_mdy t1' = format_mdy t1" "neap_tfmt t2' = neap_tfmt t2"
  shows "i1 = c1 \<and> i2 = c2 \<and>
     (\<exists>file content. (\<forall>other. other \<noteq> file \<longrightarrow> sy_files y2 other = sy_files y other) \<and> map_option fst (sy_files y2 file) = Some content \<and>
        (case nc_compression n of GZIP \<Rightarrow> content = cp_gzip cp data2 | ZIP \<Rightarrow> (\<exists>name. content = cp_zip cp name data2)))"
proof -
  let ?file = "nc_path n @ ''/'' @ format_mdy t1 @ ''/records_'' @ neap_tfmt t2 @ (case nc_compression n of GZIP \<Rightarrow> ''.gz'' | ZIP \<Rightarrow> ''.zip'')"
  let ?content = "case nc_compression n of GZIP \<Rightarrow> cp_gzip cp data2 | ZIP \<Rightarrow> cp_zip cp (''records_'' @ neap_tfmt t2 @ ''.json'') data2"
  have "i1 = c1" "\<forall>other. other \<noteq> ?file \<longrightarrow> sy_files y1 other = sy_files y other"
    using assms(1,2)
    by (auto simp: neap_commit_def createZipFile_def createGzipFile_def os_WriteFile_def Let_def split: if_splits Compression.splits)
  moreover have "i2 = c2" "\<forall>other. other \<noteq> ?file \<longrightarrow> sy_files y2 other = sy_files y1 other" "map_option fst (sy_files y2 ?file) = Some ?content"
    using assms(3-6)
    by (auto simp: neap_commit_def createZipFile_def createGzipFile_def os_WriteFile_def Let_def split: if_splits Compression.splits)
  ultimately show ?thesis by (intro conjI exI [of _ ?file] exI [of _ ?content]) (auto split: Compression.split)
qed

definition ex_neap :: NeapClient where
  "ex_neap = neap_NewStorage \<lparr>nf_NumWorkers = 1, nf_Path = ''p'', nf_Compression = ''gzip'', nf_MaxRecords = 5\<rparr>"

definition ex_disk :: "unit sys" where
  "ex_disk = \<lparr>sy_net = (), sy_files = (\<lambda>_. None), sy_writable = (\<lambda>_. True), sy_now = 0, sy_uuids = 0, sy_rands = 0\<rparr>"

lemma neap_same_millisecond_overwrites_example:
  "\<exists>y1 y2. neap_commit \<lparr>cp_gzip = id, cp_zip = (\<lambda>_. id)\<rparr> (\<lambda>_. True) time_zero time_zero ex_neap (''a'', 1) ex_disk =
      (y1, 1, 0, neap_processSuccess 1) \<and>
    neap_commit \<lparr>cp_gzip = id, cp_zip = (\<lambda>_. id)\<rparr> (\<lambda>_. True) time_zero time_zero ex_neap (''b'', 1) y1 =
      (y2, 1, 0, neap_processSuccess 1) \<and>
    (\<exists>file. \<forall>other. other \<noteq> file \<longrightarrow> sy_files y2 other = None)"
proof -
  let ?cp = "\<lparr>cp_gzip = id, cp_zip = (\<lambda>_. id)\<rparr>"
  have "\<exists>y'. neap_commit ?cp (\<lambda>_. True) time_zero time_zero ex_neap (d, 1) y = (y', 1, 0, neap_processSuccess 1) \<and> (\<forall>p. sy_writable y' p)"
    if "\<forall>p. sy_writable y p" for d and y :: "unit sys"
    using that by (simp add: neap_commit_def ex_neap_def neap_NewStorage_def createGzipFile_def os_WriteFile_def Let_def)
  moreover have "\<forall>p. sy_writable ex_disk p" by (simp add: ex_disk_def)
  ultimately obtain y1 y2 where
    c: "neap_commit ?cp (\<lambda>_. True) time_zero time_zero ex_neap (''a'', 1) ex_disk = (y1, 1, 0, neap_processSuccess 1)"
       "neap_commit ?cp (\<lambda>_. True) time_zero time_zero ex_neap (''b'', 1) y1 = (y2, 1, 0, neap_processSuccess 1)"
    by metis
  from neap_same_millisecond_overwrites [OF c(1) _ c(2)] show ?thesis using c by (auto simp: ex_disk_def)
qed

end
