(* ===== verification/Producer_Storage.thy ===== *)
theory Producer_Storage
  imports Bulk_Storage
begin

text \<open>
  The storage of the log producer API writer (\<open>pkg/log_writers/mix_log_producer_api/storage.go\<close>):
  keys and values of event logs are collected until they are large enough for a request, and each
  batch is posted, with retries and new tokens, by a goroutine of its own.
\<close>

section \<open>Requests and responses\<close>

record MixLogProducerApiRequestRecord =
  pr_Key :: EventLogKey
  pr_Value :: EventLogValue

definition pr_fields :: "MixLogProducerApiRequestRecord fields" where
  "pr_fields = [struct_field ''key'' elk_fields pr_Key pr_Key_update, struct_field ''value'' elv_fields pr_Value pr_Value_update]"

record MixLogProducerApiRequestRecords =
  rr_records :: "MixLogProducerApiRequestRecord list"
  rr_numBytes :: int

definition rr_empty :: MixLogProducerApiRequestRecords where
  "rr_empty = \<lparr>rr_records = [], rr_numBytes = 0\<rparr>"

definition rr_Length :: "MixLogProducerApiRequestRecords \<Rightarrow> int" where
  "rr_Length r = int (length (rr_records r))"

definition rr_SizeInBytes :: "MixLogProducerApiRequestRecords \<Rightarrow> int" where
  "rr_SizeInBytes r = rr_numBytes r"

definition pr_size :: "MixLogProducerApiRequestRecord \<Rightarrow> int" where
  "pr_size item = int (length (json_str (enc_struct pr_fields item)))"

definition rr_Append :: "MixLogProducerApiRequestRecord \<Rightarrow> MixLogProducerApiRequestRecords \<Rightarrow> MixLogProducerApiRequestRecords" where
  "rr_Append item r = r\<lparr>rr_numBytes := rr_numBytes r + pr_size item, rr_records := rr_records r @ [item]\<rparr>"

definition rr_Records :: "MixLogProducerApiRequestRecords \<Rightarrow> MixLogProducerApiRequestRecord list" where
  "rr_Records r = rr_records r"

definition rr_Clear :: "MixLogProducerApiRequestRecords \<Rightarrow> MixLogProducerApiRequestRecords" where
  "rr_Clear r = r\<lparr>rr_records := [], rr_numBytes := 0\<rparr>"

text \<open>The body of a request; an empty list would be left out.\<close>

definition request_body :: "MixLogProducerApiRequestRecord list \<Rightarrow> string" where
  "request_body records =
     json_str (JObj (if records = [] then [] else [(''records'', JArr (map (enc_struct pr_fields) records))]))"

record MixLogProducerApiResponseRecord =
  po_Partition :: int
  po_Offset :: int
  po_ErrorCode :: int
  po_Error :: string

definition po_zero :: MixLogProducerApiResponseRecord where
  "po_zero = \<lparr>po_Partition = 0, po_Offset = 0, po_ErrorCode = 0, po_Error = []\<rparr>"

definition po_fields :: "MixLogProducerApiResponseRecord fields" where
  "po_fields =
     [int_field ''partition'' po_Partition po_Partition_update, int_field ''offset'' po_Offset po_Offset_update,
      int_field ''error_code'' po_ErrorCode po_ErrorCode_update, str_field ''error'' po_Error po_Error_update]"

text \<open>The response is a list of offsets. It is only decoded; a missing list is empty.\<close>

definition response_fields :: "MixLogProducerApiResponseRecord list fields" where
  "response_fields =
     [list_always ''offsets'' (enc_struct po_fields) (\<lambda>v. dec_struct po_fields v po_zero) id id]"

section \<open>The client\<close>

record ProducerConfig =
  pc_ApiUrl :: string
  pc_Credentials :: Credentials
  pc_MaxRetries :: int
  pc_Delay :: int

record MixLogProducerApiClient =
  ps_apiUrl :: string
  ps_maxRetries :: int
  ps_delay :: int
  ps_records :: MixLogProducerApiRequestRecords

text \<open>The authenticator of the client is kept next to it, with the machine it runs on.\<close>

definition mlp_createHeader :: "'n http_client \<Rightarrow> ('c, 'n, (string \<times> string) list option) auth_prog" where
  "mlp_createHeader hc =
     andThen (attempt (Authenticate hc)) (\<lambda>r.
       case r of
         Inl e \<Rightarrow> ret None
       | Inr token \<Rightarrow> ret (Some [(''Authorization'', ''Bearer '' @ tk_AccessToken token), (''Content-Type'', ''application/json'')]))"

definition mlp_NewStorage ::
  "'n http_client \<Rightarrow> ProducerConfig \<Rightarrow> 'n sys \<Rightarrow> (MixLogProducerApiClient \<times> 'c Authenticator \<times> 'n sys) option" where
  "mlp_NewStorage hc config y =
     (if \<not> hc_url_ok hc (pc_ApiUrl config) then None
      else (case Authenticate hc (NewAuthenticator (pc_Credentials config), y) of
              Some ((a, y'), Inr token) \<Rightarrow>
                Some (\<lparr>ps_apiUrl = pc_ApiUrl config, ps_maxRetries = pc_MaxRetries config, ps_delay = pc_Delay config, ps_records = rr_empty\<rparr>, a, y')
            | _ \<Rightarrow> None))"

text \<open>Without a header no request is sent, and neither a status nor an error is returned.\<close>

definition writeToLogProducerApi :: "'n http_client \<Rightarrow> MixLogProducerApiClient \<Rightarrow> string \<Rightarrow> ('c, 'n, http_result) auth_prog" where
  "writeToLogProducerApi hc s records =
     andThen (mlp_createHeader hc) (\<lambda>header.
       case header of
         None \<Rightarrow> ret \<lparr>hr_code = 0, hr_body = [], hr_err = False\<rparr>
       | Some h \<Rightarrow> zoom snd (\<lambda>y (a, _). (a, y)) (http_Post hc (ps_apiUrl s) h records))"

definition mlp_randomSleep :: "'n http_client \<Rightarrow> ('c, 'n, unit) auth_prog" where
  "mlp_randomSleep hc =
     modify (apsnd (\<lambda>y. (let (y', delay) = rand_Int hc y 60 in time_Sleep ((delay + 1) * second) y')))"

definition count_offsets :: "MixLogProducerApiResponseRecord list \<Rightarrow> bulk_metric list \<times> int \<times> int" where
  "count_offsets offsets =
     (concat (map (\<lambda>x. [Add ''WritesTotalCounter'' 1 (if po_ErrorCode x \<noteq> 0 then ''NotWritten'' else ''Written''),
                        Add ''CommitTotalCounter'' 1 (itoa (po_ErrorCode x))]) offsets),
      int (length (filter (\<lambda>x. po_ErrorCode x = 0) offsets)), int (length (filter (\<lambda>x. po_ErrorCode x \<noteq> 0) offsets)))"

definition processSuccessfulResponse :: "string \<Rightarrow> bulk_metric list \<times> int \<times> int" where
  "processSuccessfulResponse responseBody =
     (case json_parse responseBody of
        None \<Rightarrow> ([], 0, 0)
      | Some v \<Rightarrow> (let (offsets, ok) = dec_struct response_fields v [] in if ok then count_offsets offsets else ([], 0, 0)))"

definition retries_exceeded :: "MixLogProducerApiClient \<Rightarrow> nat \<Rightarrow> bool" where
  "retries_exceeded s retry = (0 \<le> ps_maxRetries s \<and> ps_maxRetries s < int retry)"

text \<open>\<open>processedFailedResponse\<close> and \<open>processAuthorizationError\<close> return whether to give up. When it gives
  up, the first reads the text of an error that is nil if the server answered.\<close>

definition processedFailedResponse ::
  "'n http_client \<Rightarrow> MixLogProducerApiClient \<Rightarrow> nat \<Rightarrow> http_result \<Rightarrow> ('c, 'n, bulk_metric list option) auth_prog" where
  "processedFailedResponse hc s retry r =
     (if retries_exceeded s retry
      then if hr_err r then ret (Some [Add ''WritesTotalCounter'' 1 ''NotWritten'', Add ''CommitTotalCounter'' 1 (itoa (hr_code r))])
           else die
      else andThen (mlp_randomSleep hc) (\<lambda>_. ret None))"

definition processAuthorizationError ::
  "'n http_client \<Rightarrow> MixLogProducerApiClient \<Rightarrow> nat \<Rightarrow> ('c, 'n, bulk_metric list option) auth_prog" where
  "processAuthorizationError hc s retry =
     (if retries_exceeded s retry
      then ret (Some [Add ''WritesTotalCounter'' 1 ''NotWritten'', Add ''CommitTotalCounter'' 1 ''401''])
      else andThen (mlp_randomSleep hc) (\<lambda>_. andThen (attempt (GenerateToken hc)) (\<lambda>_. ret None)))"

text \<open>The loop of \<open>commit\<close>, with fuel: \<^term>\<open>None\<close> means that it ran out. A commit that returns has the
  number of records stored, the number of errors, and the metrics.\<close>

datatype ('c, 'n) mlp_outcome =
    MlpPanicked
  | MlpFinished (mo_indexed: int) (mo_errors: int) (mo_metrics: "bulk_metric list") (mo_state: "'c Authenticator \<times> 'n sys")

fun mlp_commit_loop ::
  "nat \<Rightarrow> 'n http_client \<Rightarrow> MixLogProducerApiClient \<Rightarrow> 'c Authenticator \<times> 'n sys \<Rightarrow> int \<Rightarrow> string \<Rightarrow> nat \<Rightarrow> ('c, 'n) mlp_outcome option" where
  "mlp_commit_loop 0 hc s st len data retry = None"
| "mlp_commit_loop (Suc k) hc s st len data retry =
     (case writeToLogProducerApi hc s data st of
        None \<Rightarrow> Some MlpPanicked
      | Some (st1, Inl _) \<Rightarrow> Some MlpPanicked
      | Some (st1, Inr r) \<Rightarrow>
          if 200 \<le> hr_code r \<and> hr_code r < 300 then
            (let (ms, i, e) = processSuccessfulResponse (hr_body r) in Some (MlpFinished i e ms st1))
          else if hr_code r = 401 then
            (case processAuthorizationError hc s (Suc retry) st1 of
               Some (st2, Inr (Some ms)) \<Rightarrow> Some (MlpFinished 0 len ms st2)
             | Some (st2, Inr None) \<Rightarrow> mlp_commit_loop k hc s st2 len data (Suc retry)
             | _ \<Rightarrow> Some MlpPanicked)
          else if hr_err r \<or> 300 \<le> hr_code r then
            (case processedFailedResponse hc s (Suc retry) r st1 of
               Some (st2, Inr (Some ms)) \<Rightarrow> Some (MlpFinished 0 len ms st2)
             | Some (st2, Inr None) \<Rightarrow> mlp_commit_loop k hc s st2 len data (Suc retry)
             | _ \<Rightarrow> Some MlpPanicked)
          else mlp_commit_loop k hc s st1 len data retry)"

definition mlp_commit ::
  "nat \<Rightarrow> 'n http_client \<Rightarrow> MixLogProducerApiClient \<Rightarrow> 'c Authenticator \<times> 'n sys \<Rightarrow> MixLogProducerApiRequestRecord list \<Rightarrow> ('c, 'n) mlp_outcome option" where
  "mlp_commit k hc s st records = mlp_commit_loop k hc s st (int (length records)) (request_body records) 0"

section \<open>The handler\<close>

abbreviation mlp_NewJob :: "job_action \<Rightarrow> string \<Rightarrow> string \<Rightarrow> string option \<Rightarrow> Job option" where
  "mlp_NewJob \<equiv> NewJob"

abbreviation mlp_storageHandler :: "Job option \<Rightarrow> Job option option" where
  "mlp_storageHandler \<equiv> storageHandler"

definition mlp_Write :: "string \<Rightarrow> string \<Rightarrow> string \<Rightarrow> Job option" where
  "mlp_Write key path data = NewJob WRITE key path (Some data)"

definition PAYLOAD_MAX_BYTES_THRESHOLD :: int where
  "PAYLOAD_MAX_BYTES_THRESHOLD = 9000000"

record mlp_handler =
  mh_client :: MixLogProducerApiClient
  mh_lastCommit :: int

text \<open>The error of decoding a job is dropped: what could be decoded is sent.\<close>

definition mlp_record :: "Job \<Rightarrow> MixLogProducerApiRequestRecord" where
  "mlp_record job = (let s = fst (unmarshal_schema (jo_Body job) el_zero) in \<lparr>pr_Key = el_Key s, pr_Value = el_Value s\<rparr>)"

definition mlp_spawn_commit :: "MixLogProducerApiClient \<Rightarrow> MixLogProducerApiClient \<times> MixLogProducerApiRequestRecord list" where
  "mlp_spawn_commit s = (s\<lparr>ps_records := rr_Clear (ps_records s)\<rparr>, rr_Records (ps_records s))"

definition mlp_commitHandler ::
  "int \<Rightarrow> handler_event \<Rightarrow> mlp_handler \<Rightarrow> mlp_handler \<times> MixLogProducerApiRequestRecord list list" where
  "mlp_commitHandler now ev h =
     (case ev of
        GotRecord job \<Rightarrow>
          (let s = (mh_client h)\<lparr>ps_records := rr_Append (mlp_record job) (ps_records (mh_client h))\<rparr>
           in if PAYLOAD_MAX_BYTES_THRESHOLD \<le> rr_SizeInBytes (ps_records s)
              then (let (s', b) = mlp_spawn_commit s in (h\<lparr>mh_client := s', mh_lastCommit := now\<rparr>, [b]))
              else (h\<lparr>mh_client := s\<rparr>, []))
      | Tick \<Rightarrow>
          if rr_Length (ps_records (mh_client h)) = 0 then (h, [])
          else if TICKER_TIMEOUT_MS \<le> now - mh_lastCommit h
          then (let (s', b) = mlp_spawn_commit (mh_client h) in (h\<lparr>mh_client := s', mh_lastCommit := now\<rparr>, [b]))
          else (h, [])
      | Stop \<Rightarrow>
          if 0 < rr_Length (ps_records (mh_client h))
          then (let (s', b) = mlp_spawn_commit (mh_client h) in (h\<lparr>mh_client := s'\<rparr>, [b]))
          else (h, []))"

section \<open>Batches\<close>

definition mlp_item :: "handler_event \<Rightarrow> MixLogProducerApiRequestRecord list" where
  "mlp_item ev = (case ev of GotRecord job \<Rightarrow> [mlp_record job] | Tick \<Rightarrow> [] | Stop \<Rightarrow> [])"

definition mlp_size :: "MixLogProducerApiRequestRecord list \<Rightarrow> int" where
  "mlp_size ds = sum_list (map pr_size ds)"

definition mlp_pending :: "mlp_handler \<Rightarrow> MixLogProducerApiRequestRecord list \<Rightarrow> bool" where
  "mlp_pending h ds =
     (ps_records (mh_client h) = \<lparr>rr_records = ds, rr_numBytes = mlp_size ds\<rparr> \<and> mlp_size ds < PAYLOAD_MAX_BYTES_THRESHOLD)"

lemmas mlp_handler_defs = mlp_commitHandler_def mlp_item_def mlp_pending_def mlp_spawn_commit_def rr_Append_def rr_Records_def
  rr_Clear_def rr_Length_def rr_SizeInBytes_def

text \<open>One event: the buffer grows by the record, or leaves as one batch, all of whose records but the last
  fit under the threshold.\<close>

lemma pr_size_nonneg [simp]: "0 \<le> pr_size d"
  by (simp add: pr_size_def)

lemma mlp_size_simps [simp]: "mlp_size [] = 0" "mlp_size (ds @ [d]) = mlp_size ds + pr_size d"
  by (simp_all add: mlp_size_def)

lemma mlp_size_butlast: "mlp_size (butlast ds) \<le> mlp_size ds"
  by (cases ds rule: rev_cases) simp_all

lemma mlp_commitHandler_spec:
  assumes "mlp_pending h ds" "mlp_commitHandler now ev h = (h', bs)"
  shows "\<exists>rest. [] \<notin> set bs \<and> mlp_pending h' rest \<and> concat bs @ rest = ds @ mlp_item ev \<and> (ev = Stop \<longrightarrow> rest = [])"
    and "b \<in> set bs \<Longrightarrow> mlp_size (butlast b) < PAYLOAD_MAX_BYTES_THRESHOLD"
proof -
  have t: "0 < PAYLOAD_MAX_BYTES_THRESHOLD" by (simp add: PAYLOAD_MAX_BYTES_THRESHOLD_def)
  show "\<exists>rest. [] \<notin> set bs \<and> mlp_pending h' rest \<and> concat bs @ rest = ds @ mlp_item ev \<and> (ev = Stop \<longrightarrow> rest = [])"
    using assms t by (cases ev) (auto simp: mlp_handler_defs Let_def split: if_splits)
  show "b \<in> set bs \<Longrightarrow> mlp_size (butlast b) < PAYLOAD_MAX_BYTES_THRESHOLD"
    using assms mlp_size_butlast [of ds] by (cases ev) (auto simp: mlp_handler_defs Let_def split: if_splits)
qed

interpretation mlp: batch_handler mlp_commitHandler "\<lambda>ev. ev = Stop" mlp_item id mlp_pending
proof unfold_locales
  fix h h' ds now ev bs
  assume "mlp_pending h ds" "mlp_commitHandler now ev h = (h', bs)"
  then show "\<exists>out rest. bs = map id out \<and> [] \<notin> set out \<and> mlp_pending h' rest \<and> concat out @ rest = ds @ mlp_item ev \<and> (ev = Stop \<longrightarrow> rest = [])"
    using mlp_commitHandler_spec(1) by (intro exI [of _ bs]) simp
qed (simp add: mlp_item_def)

definition mlp_fresh :: "MixLogProducerApiClient \<Rightarrow> mlp_handler" where
  "mlp_fresh s = \<lparr>mh_client = s\<lparr>ps_records := rr_empty\<rparr>, mh_lastCommit = 0\<rparr>"

lemma mlp_fresh_pending: "mlp_pending (mlp_fresh s) []"
  by (simp add: mlp_fresh_def mlp_pending_def rr_empty_def PAYLOAD_MAX_BYTES_THRESHOLD_def)

text \<open>C34. The batches of the log producer API storage are the records it received, in order, each once,
  up to those still buffered, of which there are none after a stop request. No batch is empty, and
  without its last record every batch is below the threshold of nine megabytes.\<close>

theorem mlp_batches:
  assumes "handler_run mlp_commitHandler evs (mlp_fresh s) = (h', bs)"
  shows "\<exists>rest. concat bs @ rest = concat (map (\<lambda>e. mlp_item (snd e)) evs) \<and> [] \<notin> set bs \<and>
           (\<forall>b \<in> set bs. mlp_size (butlast b) < 9000000) \<and> (evs \<noteq> [] \<and> snd (last evs) = Stop \<longrightarrow> rest = [])"
proof -
  have "mlp_size (butlast b) < 9000000" if "b \<in> set bs" for b
    using mlp.run_batches [OF mlp_commitHandler_spec(2) mlp_fresh_pending assms that]
    by (simp add: PAYLOAD_MAX_BYTES_THRESHOLD_def)
  then show ?thesis using mlp.run_splits [OF mlp_fresh_pending assms] by auto
qed

definition ex_producer :: MixLogProducerApiClient where
  "ex_producer = \<lparr>ps_apiUrl = ''http://log/producers'', ps_maxRetries = 2, ps_delay = 1, ps_records = rr_empty\<rparr>"

theorem mlp_batches_witness:
  "\<exists>h' bs. handler_run mlp_commitHandler [(0, GotRecord ex_job), (1, Stop)] (mlp_fresh ex_producer) = (h', bs) \<and>
     concat bs = [mlp_record ex_job] \<and> (\<forall>b \<in> set bs. mlp_size (butlast b) < 9000000)"
proof -
  let ?evs = "[(0, GotRecord ex_job), (1, Stop)]"
  obtain h' bs where run: "handler_run mlp_commitHandler ?evs (mlp_fresh ex_producer) = (h', bs)"
    by (cases "handler_run mlp_commitHandler ?evs (mlp_fresh ex_producer)")
  then show ?thesis using mlp_batches [OF run] by (auto simp: mlp_item_def)
qed

section \<open>Commits\<close>

lemma write_disabled:
  assumes "cr_AuthDisabled (au_config a)" "hc_url_ok hc (ps_apiUrl s)"
  shows "\<exists>y' r. writeToLogProducerApi hc s data (a, y) = Some ((a, y'), Inr r) \<and>
     (\<exists>req. http_Do hc req y = (y', r))"
  using assms
  by (simp add: writeToLogProducerApi_def mlp_createHeader_def Authenticate_def andThen_def attempt_def prog_simps zoom_def
      http_Post_def http_method_cases) (metis prod.collapse)

lemma GenerateToken_config: "GenerateToken hc (a, y) = Some ((a', y'), r) \<Longrightarrow> au_config a' = au_config a"
  by (auto simp: GenerateToken_eval Let_def split: prod.splits if_splits)

lemma processAuthorizationError_config:
  assumes "processAuthorizationError hc s n (a, y) = Some (st, Inr None)"
  shows "\<not> retries_exceeded s n \<and> au_config (fst st) = au_config a"
proof -
  have n: "\<not> retries_exceeded s n" using assms by (auto simp: processAuthorizationError_def ret_def)
  obtain y1 where "processAuthorizationError hc s n (a, y) = andThen (attempt (GenerateToken hc)) (\<lambda>_. ret None) (a, y1)"
    using n by (simp add: processAuthorizationError_def andThen_def mlp_randomSleep_def modify_def)
  then obtain r where "GenerateToken hc (a, y1) = Some (st, r)"
    using assms by (auto simp: andThen_def attempt_def ret_def split: option.splits prod.splits)
  then show ?thesis using n GenerateToken_config [of hc a y1 "fst st" "snd st" r] by simp
qed

lemma processedFailedResponse_config:
  "processedFailedResponse hc s n r (a, y) = Some (st, Inr None) \<Longrightarrow> \<not> retries_exceeded s n \<and> fst st = a"
  by (auto simp: processedFailedResponse_def andThen_def mlp_randomSleep_def prog_simps split: if_splits)

lemma mlp_commit_loop_returns:
  fixes st :: "'c Authenticator \<times> 'n sys"
  assumes url: "hc_url_ok hc (ps_apiUrl s)" and codes: "\<And>n r n' t c b. hc_send hc n r = (n', t, Some (c, b)) \<Longrightarrow> 200 \<le> c"
    and m: "0 \<le> ps_maxRetries s"
  shows "cr_AuthDisabled (au_config (fst st)) \<Longrightarrow> ps_maxRetries s < int (k + retry) \<Longrightarrow> 0 < k \<Longrightarrow>
    mlp_commit_loop k hc s st len data retry \<noteq> None"
proof (induction k arbitrary: st retry)
  case (Suc k)
  obtain a y where st: "st = (a, y)" by (cases st)
  obtain y' r req where w: "writeToLogProducerApi hc s data (a, y) = Some ((a, y'), Inr r)" "http_Do hc req y = (y', r)"
    using write_disabled [OF _ url] Suc.prems(1) st by fastforce
  have code: "200 \<le> hr_code r \<or> hr_err r"
    using w(2) codes by (auto simp: http_Do_def Let_def split: prod.splits option.splits)
  have again: "mlp_commit_loop k hc s st2 len data (Suc retry) \<noteq> None"
    if "cr_AuthDisabled (au_config (fst st2))" "\<not> retries_exceeded s (Suc retry)" for st2 :: "'c Authenticator \<times> 'n sys"
    using Suc.IH [of st2 "Suc retry"] Suc.prems(2) that m by (auto simp: retries_exceeded_def)
  have "cr_AuthDisabled (au_config (fst st2))" "\<not> retries_exceeded s (Suc retry)"
    if "processAuthorizationError hc s (Suc retry) (a, y') = Some (st2, Inr None)" for st2
    using processAuthorizationError_config [OF that] Suc.prems(1) st by auto
  moreover have "cr_AuthDisabled (au_config (fst st2))" "\<not> retries_exceeded s (Suc retry)"
    if "processedFailedResponse hc s (Suc retry) r (a, y') = Some (st2, Inr None)" for st2
    using processedFailedResponse_config [OF that] Suc.prems(1) st by auto
  ultimately show ?case
    using again code by (auto simp: st w(1) Let_def split: option.splits sum.splits prod.splits)
qed simp

text \<open>With a limit on the retries and authentication switched off, a commit to the log producer API
  ends whatever the service answers, as long as no answer has a status below 200: one more turn than
  there are retries is enough.\<close>

lemma mlp_commit_returns:
  assumes "cr_AuthDisabled (au_config a)" "hc_url_ok hc (ps_apiUrl s)" "0 \<le> ps_maxRetries s" "nat (ps_maxRetries s) < k"
    and "\<And>n r n' t c b. hc_send hc n r = (n', t, Some (c, b)) \<Longrightarrow> 200 \<le> c"
  shows "mlp_commit k hc s (a, y) records \<noteq> None"
  using mlp_commit_loop_returns [of hc s "(a, y)" k 0] assms by (simp add: mlp_commit_def)

definition ex_broken :: "nat http_client" where
  "ex_broken = \<lparr>hc_send = (\<lambda>n r. (Suc n, 5, None)), hc_url_ok = (\<lambda>_. True), hc_uuid = (\<lambda>_. ''u''), hc_rand = (\<lambda>_ _. 0)\<rparr>"

lemma mlp_commit_returns_example:
  "mlp_commit 3 ex_broken ex_producer (NewAuthenticator (ex_cred\<lparr>cr_AuthDisabled := True\<rparr>) :: unit Authenticator, ex_sys) [] \<noteq> None"
  using mlp_commit_returns [of "NewAuthenticator (ex_cred\<lparr>cr_AuthDisabled := True\<rparr>)" ex_broken ex_producer 3 ex_sys "[]"]
  by (simp add: NewAuthenticator_def NewAuthenticatorWithCache_def ex_broken_def ex_producer_def)

lemma write_without_token:
  assumes "\<not> cr_AuthDisabled (au_config a)" "au_Cache a = None" "sy_files y (TokenCacheKey a) = None"
    and "hc_url_ok hc (cr_TokenURL (au_config a))" "\<And>n r. snd (snd (hc_send hc n r)) = None"
  shows "\<exists>a' y'. writeToLogProducerApi hc s data (a, y) = Some ((a', y'), Inr \<lparr>hr_code = 0, hr_body = [], hr_err = False\<rparr>) \<and>
     au_config a' = au_config a \<and> au_Cache a' = None \<and> TokenCacheKey a' = TokenCacheKey a \<and> sy_files y' = sy_files y"
proof -
  obtain y1 resp where d: "http_Do hc (token_request (au_config a)) y = (y1, resp)" by (metis surj_pair)
  have "hr_err resp" using d assms(5) by (auto simp: http_Do_def Let_def split: prod.splits option.splits) (metis snd_conv option.distinct(1))
  moreover have "sy_files y1 = sy_files y" using http_Do_frame(1) [of hc "token_request (au_config a)" y] d by simp
  moreover have "token_on_disk y (TokenCacheKey a) = None" using assms(3) by (simp add: token_on_disk_def)
  ultimately show ?thesis
    using assms(1,2,4) d
    by (simp add: writeToLogProducerApi_def mlp_createHeader_def andThen_def attempt_def prog_simps Authenticate_miss GenerateToken_eval)
qed

text \<open>When no token can be had, a commit never ends, whatever the limit on the retries: with an
  authenticator that has no token on disk, and a network on which every request fails, no number of
  turns is enough. A request without a header has neither a status nor an error, and the loop counts
  no attempt and only waits for the rate limiter.\<close>

lemma mlp_commit_spins:
  assumes "\<not> cr_AuthDisabled (au_config a)" "au_Cache a = None" "sy_files y (TokenCacheKey a) = None"
    and "hc_url_ok hc (cr_TokenURL (au_config a))" "\<And>n r. snd (snd (hc_send hc n r)) = None"
  shows "mlp_commit k hc s (a, y) records = None"
proof -
  have "mlp_commit_loop k hc s (a, y) len data retry = None" for len data retry
    using assms(1-4)
  proof (induction k arbitrary: a y)
    case (Suc k)
    obtain a' y' where w: "writeToLogProducerApi hc s data (a, y) = Some ((a', y'), Inr \<lparr>hr_code = 0, hr_body = [], hr_err = False\<rparr>)"
      "au_config a' = au_config a" "au_Cache a' = None" "TokenCacheKey a' = TokenCacheKey a" "sy_files y' = sy_files y"
      using write_without_token [OF Suc.prems assms(5), of s data] by blast
    then have "mlp_commit_loop k hc s (a', y') len data retry = None" using Suc.IH [of a' y'] Suc.prems by simp
    then show ?case by (simp add: w(1))
  qed simp
  then show ?thesis by (simp add: mlp_commit_def)
qed

lemma mlp_commit_spins_example:
  "mlp_commit 1000 ex_broken ex_producer (ex_auth, ex_sys) [] = None"
  using mlp_commit_spins [of ex_auth ex_sys ex_broken 1000 ex_producer "[]"]
  by (simp add: ex_auth_def NewAuthenticator_def NewAuthenticatorWithCache_def ex_cred_def ex_sys_def ex_broken_def)

end
