(* ===== verification/Monitoring.thy ===== *)
theory Monitoring
  imports File_Writer Log_Fetcher
begin

text \<open>
  Metrics (\<open>pkg/monitoring\<close> and the \<open>metrics.go\<close> of the packages): the collectors with their labels,
  their registration when the program starts, and the functions that report a value. The Prometheus
  library is modelled as far as its documentation promises: a name is registered once, and
  \<open>WithLabelValues\<close> panics when the number of values is not the number of labels, or when one is not
  valid UTF-8. Values are integers; \<^term>\<open>None\<close> is a panic.
\<close>

section \<open>Collectors\<close>

datatype vec_kind = GaugeVec | CounterVec | HistogramVec

record vec =
  ve_kind :: vec_kind
  ve_name :: string
  ve_labels :: "string list"

definition new_vec :: "vec_kind \<Rightarrow> string \<Rightarrow> string list \<Rightarrow> vec" where
  "new_vec k n ls = \<lparr>ve_kind = k, ve_name = n, ve_labels = ls\<rparr>"

text \<open>By the variable that holds them.\<close>

definition monitoring_vecs :: "(string \<times> vec) list" where
  "monitoring_vecs =
     [(''ElcLagIn'', new_vec GaugeVec ''elc_lag_in'' [''component'', ''topic'']),
      (''ElcLagOut'', new_vec GaugeVec ''elc_lag_out'' [''component'', ''topic'']),
      (''ElcProcessingTotal'', new_vec CounterVec ''elc_processing_total'' [''component'', ''topic'', ''status'', ''code'', ''message'']),
      (''ElcProcessingDuration'', new_vec GaugeVec ''elc_message_processing_duration''
         [''component'', ''topic'', ''status'', ''code'', ''message'']),
      (''ElcErrors'', new_vec CounterVec ''elc_processing_errors'' [''component'', ''topic'', ''code'', ''message'']),
      (''ElcNumRecordsInCounter'', new_vec CounterVec ''elc_num_records_in'' [''component'', ''topic'']),
      (''ElcNumRecordsOutCounter'', new_vec CounterVec ''elc_num_records_out'' [''component'', ''topic''])]"

definition fetcher_vecs :: "(string \<times> vec) list" where
  "fetcher_vecs =
     [(''ConsumerOffsetLowGauge'', new_vec GaugeVec ''elc_fetcher_offset_low'' [''topic'', ''partition'']),
      (''ConsumerOffsetCurrentGauge'', new_vec GaugeVec ''elc_fetcher_offset_current'' [''topic'', ''partition'']),
      (''ConsumerOffsetHighGauge'', new_vec GaugeVec ''elc_fetcher_offset_high'' [''topic'', ''partition'']),
      (''ConsumerOffsetBehindGauge'', new_vec GaugeVec ''elc_fetcher_offset_behind'' [''topic'', ''partition'']),
      (''KafkaCommitTotalCounter'', new_vec CounterVec ''elc_commit_total'' [''remote_service'', ''status'', ''message'']),
      (''PartitionTotalGauge'', new_vec GaugeVec ''elc_partitions_total'' [''remote_service'', ''topic'', ''group'', ''name''])]"

definition writer_vecs :: "(string \<times> vec) list" where
  "writer_vecs =
     [(''RemoteConnectionGauge'', new_vec GaugeVec ''elc_storage_remote_connection'' [''remote_service'']),
      (''WriteDurationGauge'', new_vec GaugeVec ''elc_storage_write_duration_seconds'' [''storage'']),
      (''WritesTotalCounter'', new_vec CounterVec ''elc_log_writes_total'' [''processor'', ''message'', ''status''])]"

definition processor_vecs :: "(string \<times> vec) list" where
  "processor_vecs =
     [(''LogsTotalCounter'', new_vec CounterVec ''elc_logs_total'' [''processor'', ''message'', ''status'']),
      (''LogsProcessingDurationSecondsGauge'', new_vec GaugeVec ''elc_logs_processing_duration_seconds'' [''processor''])]"

definition http_vecs :: "(string \<times> vec) list" where
  "http_vecs =
     [(''HttpRequestsTotalCounter'', new_vec CounterVec ''elc_http_requests_total''
         [''http_url'', ''http_response_code'', ''http_response_status'']),
      (''HttpDurationHistogram'', new_vec HistogramVec ''elc_http_request_duration_seconds'' [''path'']),
      (''HttpDurationGauge'', new_vec GaugeVec ''elc_http_request_duration_seconds_current'' [''path''])]"

text \<open>Each of these storages has a counter and a histogram of its own, under the same variable names.\<close>

definition storage_vecs :: "string \<Rightarrow> string \<Rightarrow> (string \<times> vec) list" where
  "storage_vecs tot dur =
     [(''CommitTotalCounter'', new_vec CounterVec tot [''code'', ''message'']),
      (''CommitDurationHistogram'', new_vec HistogramVec dur [])]"

definition es_vecs :: "(string \<times> vec) list" where
  "es_vecs = storage_vecs ''elc_elasticsearch_commit_total'' ''elc_commit_duration_seconds''"

definition os_vecs :: "(string \<times> vec) list" where
  "os_vecs = storage_vecs ''elc_opensearch_commit_total'' ''elc_opensearch_commit_duration_seconds''"

definition mongo_vecs :: "(string \<times> vec) list" where
  "mongo_vecs = storage_vecs ''elc_mongodb_commit_total'' ''elc_mongodb_commit_duration_seconds''"

definition neap_vecs :: "(string \<times> vec) list" where
  "neap_vecs = storage_vecs ''elc_neap_commit_total'' ''elc_neap_commit_duration_seconds''"

definition fluentd_vecs :: "(string \<times> vec) list" where
  "fluentd_vecs = storage_vecs ''elc_fluentd_commit_total'' ''elc_fluentd_commit_duration_seconds''"

definition mlp_vecs :: "(string \<times> vec) list" where
  "mlp_vecs = storage_vecs ''elc_mix_log_producer_api_commit_total'' ''elc_mix_log_producer_api_commit_duration_seconds''"

section \<open>Registration\<close>

text \<open>\<open>promauto\<close> registers a collector with the default registry and panics when its name is taken.
  The packages are initialised one after the other.\<close>

fun promauto_register :: "vec list \<Rightarrow> vec list \<Rightarrow> vec list option" where
  "promauto_register known [] = Some known"
| "promauto_register known (v # vs) =
     (if ve_name v \<in> set (map ve_name known) then None else promauto_register (known @ [v]) vs)"

definition all_vecs :: "vec list" where
  "all_vecs = map snd (monitoring_vecs @ http_vecs @ fetcher_vecs @ processor_vecs @ writer_vecs @
     es_vecs @ fluentd_vecs @ mlp_vecs @ mongo_vecs @ neap_vecs @ os_vecs)"

text \<open>\<open>Register\<close> adds a collector to the registry that is served; a second one of the same name is an
  error, which is ignored.\<close>

definition Register :: "vec list \<Rightarrow> vec \<Rightarrow> vec list" where
  "Register reg v = (if ve_name v \<in> set (map ve_name reg) then reg else reg @ [v])"

text \<open>The counter of commits of the fetcher is not registered.\<close>

definition registered :: "vec list" where
  "registered = foldl Register [] (filter (\<lambda>v. ve_name v \<noteq> ''elc_commit_total'') all_vecs)"

definition isMonitoringEnabled :: "(string \<Rightarrow> string option) \<Rightarrow> bool" where
  "isMonitoringEnabled env = (env ''KUBERNETES_PORT'' \<noteq> None \<or> env ''ELC_ENABLE_MONITORING'' \<noteq> None)"

section \<open>Reporting\<close>

text \<open>\<open>utf8.ValidString\<close>.\<close>

definition tail_byte :: "nat \<Rightarrow> nat \<Rightarrow> char \<Rightarrow> bool" where
  "tail_byte lo hi c = (lo \<le> of_char c \<and> of_char c \<le> hi)"

fun valid_utf8 :: "string \<Rightarrow> bool" where
  "valid_utf8 [] = True"
| "valid_utf8 (c # cs) =
     (let b = of_char c :: nat
      in if b < 0x80 then valid_utf8 cs
         else if 0xC2 \<le> b \<and> b \<le> 0xDF then
           (case cs of c1 # ds \<Rightarrow> tail_byte 0x80 0xBF c1 \<and> valid_utf8 ds | [] \<Rightarrow> False)
         else if 0xE0 \<le> b \<and> b \<le> 0xEF then
           (case cs of
              c1 # c2 # ds \<Rightarrow> tail_byte (if b = 0xE0 then 0xA0 else 0x80) (if b = 0xED then 0x9F else 0xBF) c1 \<and>
                              tail_byte 0x80 0xBF c2 \<and> valid_utf8 ds
            | _ \<Rightarrow> False)
         else if 0xF0 \<le> b \<and> b \<le> 0xF4 then
           (case cs of
              c1 # c2 # c3 # ds \<Rightarrow> tail_byte (if b = 0xF0 then 0x90 else 0x80) (if b = 0xF4 then 0x8F else 0xBF) c1 \<and>
                                   tail_byte 0x80 0xBF c2 \<and> tail_byte 0x80 0xBF c3 \<and> valid_utf8 ds
            | _ \<Rightarrow> False)
         else False)"

type_synonym store = "string \<times> string list \<Rightarrow> int"

definition WithLabelValues :: "vec \<Rightarrow> string list \<Rightarrow> (string \<times> string list) option" where
  "WithLabelValues v lvs =
     (if length lvs = length (ve_labels v) \<and> list_all valid_utf8 lvs then Some (ve_name v, lvs) else None)"

definition SetGauge :: "vec \<Rightarrow> int \<Rightarrow> string list \<Rightarrow> store \<Rightarrow> store option" where
  "SetGauge v val lvs st = do { k \<leftarrow> WithLabelValues v lvs; Some (st(k := val)) }"

definition IncCounter :: "vec \<Rightarrow> string list \<Rightarrow> store \<Rightarrow> store option" where
  "IncCounter v lvs st = do { k \<leftarrow> WithLabelValues v lvs; Some (st(k := st k + 1)) }"

definition AddCounter :: "vec \<Rightarrow> int \<Rightarrow> string list \<Rightarrow> store \<Rightarrow> store option" where
  "AddCounter v inc lvs st =
     (if 0 < inc then do { k \<leftarrow> WithLabelValues v lvs; Some (st(k := st k + inc)) } else Some st)"

text \<open>The calls a handler makes, with the values of the gauges as a parameter.\<close>

definition report_metric :: "(string \<Rightarrow> vec option) \<Rightarrow> (metric \<Rightarrow> int) \<Rightarrow> metric \<Rightarrow> store \<Rightarrow> store option" where
  "report_metric vecs val m st =
     (case m of
        Gauge n lvs \<Rightarrow> do { v \<leftarrow> vecs n; SetGauge v (val m) lvs st }
      | Counter n lvs \<Rightarrow> do { v \<leftarrow> vecs n; IncCounter v lvs st })"

fun reports :: "(string \<Rightarrow> vec option) \<Rightarrow> (metric \<Rightarrow> int) \<Rightarrow> metric list \<Rightarrow> store \<Rightarrow> store option" where
  "reports vecs val [] st = Some st"
| "reports vecs val (m # ms) st = do { st' \<leftarrow> report_metric vecs val m st; reports vecs val ms st' }"

section \<open>Labels are used as they were declared\<close>

definition well_labelled :: "(string \<Rightarrow> vec option) \<Rightarrow> metric \<Rightarrow> bool" where
  "well_labelled vecs m =
     (case m of
        Gauge n lvs \<Rightarrow> (case vecs n of Some v \<Rightarrow> ve_kind v = GaugeVec \<and> length lvs = length (ve_labels v) | None \<Rightarrow> False)
      | Counter n lvs \<Rightarrow> (case vecs n of Some v \<Rightarrow> ve_kind v = CounterVec \<and> length lvs = length (ve_labels v) | None \<Rightarrow> False))"

fun metric_labels :: "metric \<Rightarrow> string list" where
  "metric_labels (Gauge n lvs) = lvs"
| "metric_labels (Counter n lvs) = lvs"

text \<open>What the handlers of a component can see: the common collectors, those of the writers, and those
  of a storage.\<close>

definition elc_vecs :: "string \<Rightarrow> vec option" where
  "elc_vecs = map_of (monitoring_vecs @ writer_vecs @ fetcher_vecs @ fluentd_vecs)"

lemma elc_vecs_simps [simp]:
  "elc_vecs ''ElcLagIn'' = Some (new_vec GaugeVec ''elc_lag_in'' [''component'', ''topic''])"
  "elc_vecs ''ElcLagOut'' = Some (new_vec GaugeVec ''elc_lag_out'' [''component'', ''topic''])"
  "elc_vecs ''ElcProcessingTotal'' =
     Some (new_vec CounterVec ''elc_processing_total'' [''component'', ''topic'', ''status'', ''code'', ''message''])"
  "elc_vecs ''ElcProcessingDuration'' =
     Some (new_vec GaugeVec ''elc_message_processing_duration'' [''component'', ''topic'', ''status'', ''code'', ''message''])"
  "elc_vecs ''ElcErrors'' = Some (new_vec CounterVec ''elc_processing_errors'' [''component'', ''topic'', ''code'', ''message''])"
  "elc_vecs ''ElcNumRecordsInCounter'' = Some (new_vec CounterVec ''elc_num_records_in'' [''component'', ''topic''])"
  "elc_vecs ''ElcNumRecordsOutCounter'' = Some (new_vec CounterVec ''elc_num_records_out'' [''component'', ''topic''])"
  "elc_vecs ''WriteDurationGauge'' = Some (new_vec GaugeVec ''elc_storage_write_duration_seconds'' [''storage''])"
  "elc_vecs ''WritesTotalCounter'' = Some (new_vec CounterVec ''elc_log_writes_total'' [''processor'', ''message'', ''status''])"
  "elc_vecs ''CommitTotalCounter'' = Some (new_vec CounterVec ''elc_fluentd_commit_total'' [''code'', ''message''])"
  by (code_simp)+

lemma vec_sel [simp]: "ve_kind (new_vec k n ls) = k" "ve_name (new_vec k n ls) = n" "ve_labels (new_vec k n ls) = ls"
  by (simp_all add: new_vec_def)

lemma well_labelled_simps [simp]:
  "well_labelled vecs (Gauge n lvs) \<longleftrightarrow> (\<exists>v. vecs n = Some v \<and> ve_kind v = GaugeVec \<and> length lvs = length (ve_labels v))"
  "well_labelled vecs (Counter n lvs) \<longleftrightarrow> (\<exists>v. vecs n = Some v \<and> ve_kind v = CounterVec \<and> length lvs = length (ve_labels v))"
  by (auto simp: well_labelled_def split: option.splits)

lemma writer_monitor_labelled: "list_all (well_labelled elc_vecs) (writer_monitor err topic)"
  by (cases err) (simp_all add: writer_monitor_def)

lemma incoming_labelled: "list_all (well_labelled elc_vecs) (incoming_metrics topic)"
  by (simp add: incoming_metrics_def)

lemma job_metrics_labelled: "job_metrics w = Some ms \<Longrightarrow> list_all (well_labelled elc_vecs) ms"
  by (auto simp: job_metrics_def Let_def split: if_splits option.splits)

lemma writer_handle_labelled: "writer_handle put plan st record = Some (st', ms) \<Longrightarrow> list_all (well_labelled elc_vecs) ms"
  by (erule writer_handle_cases) (simp_all add: writer_monitor_labelled incoming_labelled)

lemma fs_Write_labelled: "fs_Write mkdir f key path data y = (y', res, ms) \<Longrightarrow> list_all (well_labelled elc_vecs) ms"
  by (auto simp: fs_Write_def Let_def split: sum.splits if_splits prod.splits)

lemma fs_handle_labelled: "fs_handle w st record = Some (st', ms) \<Longrightarrow> list_all (well_labelled elc_vecs) ms"
proof -
  assume h: "fs_handle w st record = Some (st', ms)"
  obtain s e where u: "unmarshal_schema record el_zero = (s, e)" by (cases "unmarshal_schema record el_zero")
  show ?thesis
  proof (cases e)
    case (Some err)
    then show ?thesis using h writer_monitor_labelled [of "Some ''json''" "''unknown''"] by (auto simp: fs_handle_def u)
  next
    case None
    then obtain index where index: "fs_getIndex s = Some index" using h by (cases "fs_getIndex s") (auto simp: fs_handle_def u)
    obtain y res ms' where w: "fs_Write (fw_mkdir w) (fw_filesystem w) index (docID_of s @ ''.json'') record (snd st) = (y, res, ms')"
      by (cases "fs_Write (fw_mkdir w) (fw_filesystem w) index (docID_of s @ ''.json'') record (snd st)")
    obtain err where "ms = incoming_metrics (el_Topic s) @ ms' @ writer_monitor err (el_Topic s)"
      using h None by (auto simp: fs_handle_def u index w Let_def bind_eq_Some_conv)
    then show ?thesis using fs_Write_labelled [OF w] by (simp add: writer_monitor_labelled incoming_labelled)
  qed
qed

lemma mongo_monitor_labelled: "list_all (well_labelled elc_vecs) (mongo_monitorCommitResults coll err)"
  by (cases err) (simp_all add: mongo_monitorCommitResults_def)

lemma fluentd_Write_labelled:
  "fluentd_Write post f key path data = Some (f', err) \<Longrightarrow> list_all (well_labelled elc_vecs) (fc_metrics f) \<Longrightarrow>
     list_all (well_labelled elc_vecs) (fc_metrics f')"
  by (auto simp: fluentd_Write_def Let_def split: prod.splits option.splits)

text \<open>For well-labelled metrics the only way to fail is a label value that is not text.\<close>

lemma WithLabelValues_None: "length lvs = length (ve_labels v) \<Longrightarrow> WithLabelValues v lvs = None \<longleftrightarrow> \<not> list_all valid_utf8 lvs"
  by (simp add: WithLabelValues_def)

lemma report_None: "well_labelled vecs m \<Longrightarrow> report_metric vecs val m st = None \<longleftrightarrow> \<not> list_all valid_utf8 (metric_labels m)"
  by (cases m) (auto simp: report_metric_def SetGauge_def IncCounter_def WithLabelValues_def)

lemma reports_None:
  "list_all (well_labelled vecs) ms \<Longrightarrow>
     reports vecs val ms st = None \<longleftrightarrow> (\<exists>m \<in> set ms. \<not> list_all valid_utf8 (metric_labels m))"
proof (induction ms arbitrary: st)
  case (Cons m ms)
  show ?case
  proof (cases "report_metric vecs val m st")
    case None
    then show ?thesis using report_None [of vecs m val st] Cons.prems by auto
  next
    case (Some st')
    then show ?thesis using report_None [of vecs m val st] Cons by auto
  qed
qed simp

text \<open>Counters only grow.\<close>

lemma report_mono:
  assumes "report_metric vecs val m st = Some st'" "well_labelled vecs m"
    and "\<And>n v. vecs n = Some v \<Longrightarrow> ve_name v = fst k \<Longrightarrow> ve_kind v = CounterVec"
  shows "st k \<le> st' k"
  using assms by (cases m) (auto simp: report_metric_def SetGauge_def IncCounter_def WithLabelValues_def split: if_splits)

lemma reports_mono:
  assumes "\<And>n v. vecs n = Some v \<Longrightarrow> ve_name v = fst k \<Longrightarrow> ve_kind v = CounterVec"
  shows "reports vecs val ms st = Some st' \<Longrightarrow> list_all (well_labelled vecs) ms \<Longrightarrow> st k \<le> st' k"
proof (induction ms arbitrary: st)
  case (Cons m ms)
  obtain s where s: "report_metric vecs val m st = Some s" "reports vecs val ms s = Some st'"
    using Cons.prems(1) by (cases "report_metric vecs val m st") auto
  have "st k \<le> s k" using report_mono [OF s(1)] assms Cons.prems(2) by auto
  then show ?case using Cons.IH [OF s(2)] Cons.prems(2) by auto
qed simp

section \<open>Properties\<close>


text \<open>The program starts: no two collectors have the same name.\<close>

lemma collectors_register: "promauto_register [] all_vecs = Some all_vecs"
  by code_simp

lemma elc_counter_names:
  assumes "name \<in> {''elc_processing_total'', ''elc_processing_errors'', ''elc_num_records_in'', ''elc_num_records_out'', ''elc_log_writes_total''}"
    "elc_vecs n = Some v" "ve_name v = name"
  shows "ve_kind v = CounterVec"
proof -
  have "(n, v) \<in> set (monitoring_vecs @ writer_vecs @ fetcher_vecs @ fluentd_vecs)"
    using assms(2) map_of_SomeD by (fastforce simp: elc_vecs_def)
  moreover have "list_all (\<lambda>(n, v). ve_name v \<in> {''elc_processing_total'', ''elc_processing_errors'', ''elc_num_records_in'',
      ''elc_num_records_out'', ''elc_log_writes_total''} \<longrightarrow> ve_kind v = CounterVec)
      (monitoring_vecs @ writer_vecs @ fetcher_vecs @ fluentd_vecs)" by code_simp
  ultimately show ?thesis using assms(1,3) by (auto simp: list_all_iff)
qed

text \<open>A counter is never lowered by what a worker reports; adding a number that is not positive leaves
  it alone, where the library would panic.\<close>

lemma job_counters_grow:
  assumes "job_metrics w = Some ms" "reports elc_vecs val ms st = Some st'"
    and "name \<in> {''elc_processing_total'', ''elc_processing_errors'', ''elc_num_records_in'', ''elc_num_records_out'', ''elc_log_writes_total''}"
  shows "st (name, lvs) \<le> st' (name, lvs)"
  using reports_mono [OF _ assms(2) job_metrics_labelled [OF assms(1)], of "(name, lvs)"] elc_counter_names [OF assms(3)] by simp

lemma AddCounter_grows: "AddCounter v inc lvs st = Some st' \<Longrightarrow> st k \<le> st' k"
  by (cases k) (auto simp: AddCounter_def WithLabelValues_def split: if_splits)

lemma AddCounter_not_positive: "inc \<le> 0 \<Longrightarrow> AddCounter v inc lvs st = Some st"
  by (simp add: AddCounter_def)

text \<open>The value under a label.\<close>

definition label_value :: "vec \<Rightarrow> string list \<Rightarrow> string \<Rightarrow> string option" where
  "label_value v lvs label = map_of (zip (ve_labels v) lvs) label"

text \<open>The counter of writes is declared with the labels \<open>processor\<close>, \<open>message\<close> and \<open>status\<close> and used with
  processor, status and message: the outcome appears as \<open>message\<close>, the text of an error as \<open>status\<close>.\<close>

lemma writes_total_labels_swapped:
  assumes "fs_Write mkdir f key path data y = (y', res, ms)" "Counter ''WritesTotalCounter'' lvs \<in> set ms"
  shows "label_value (the (elc_vecs ''WritesTotalCounter'')) lvs ''message'' = Some (case res of Inl _ \<Rightarrow> ''NotWritten'' | Inr _ \<Rightarrow> ''Written'')"
    and "label_value (the (elc_vecs ''WritesTotalCounter'')) lvs ''status'' = Some (case res of Inl e \<Rightarrow> e | Inr _ \<Rightarrow> [])"
  using assms by (auto simp: fs_Write_def label_value_def Let_def split: sum.splits if_splits prod.splits)

text \<open>A worker that failed to write, and a label value that is not text.\<close>

definition ex_failed_worker :: worker where
  "ex_failed_worker = (NewWorker ex_noop_fc)\<lparr>w_Failed := True, w_Err := Some (WriteErr [CHR 0xFF])\<rparr>"


end
