(* ===== verification/Transport.thy ===== *)
theory Transport
  imports Pipeline_Io File_Writer
begin

text \<open>
  The configuration of the data pipeline (\<open>pkg/pipeline/pipeline.go\<close>), the creation of readers and
  writers for a component (\<open>pkg/pipeline/io/io.go\<close>, \<open>provider/provider.go\<close>), and the providers for
  Kafka, Redis and Pulsar. The brokers are parameters: whether a connection is established, and what
  arrives. The embedded provider is in \<open>Pipeline_Io\<close>. A pointer that may be nil is an option;
  \<^term>\<open>None\<close> as a result is a panic, such as that of following a nil pointer.
\<close>

section \<open>Parameters\<close>

datatype PipelineComponent = FETCHER | PROCESSOR | WRITER

record WriterParams =
  wa_Path :: "string option"
  wa_Host :: "string option"
  wa_Hosts :: "string list"
  wa_Topic :: "string option"
  wa_OperationTimeout :: int
  wa_Password :: string
  wa_DB :: int
  wa_Channel :: string

record ReaderParams =
  ra_Path :: "string option"
  ra_Host :: "string option"
  ra_Hosts :: "string list"
  ra_Group :: "string option"
  ra_CreateUniqueGroupID :: bool
  ra_Topic :: "string option"
  ra_Offset :: string
  ra_OperationTimeout :: int
  ra_AutoCommitOffsetEnabled :: bool
  ra_Password :: string
  ra_DB :: int
  ra_Channel :: string

record IOParams =
  io_Writer :: "WriterParams option"
  io_Reader :: "ReaderParams option"

record PipelineParams =
  pp_StorageProvider :: string
  pp_Fetcher :: IOParams
  pp_Processor :: IOParams
  pp_Writer :: IOParams

definition default_writer :: "string \<Rightarrow> WriterParams" where
  "default_writer path =
     \<lparr>wa_Path = Some path, wa_Host = None, wa_Hosts = [], wa_Topic = None, wa_OperationTimeout = 30, wa_Password = [],
      wa_DB = 0, wa_Channel = []\<rparr>"

definition default_reader :: "string \<Rightarrow> ReaderParams" where
  "default_reader path =
     \<lparr>ra_Path = Some path, ra_Host = None, ra_Hosts = [], ra_Group = None, ra_CreateUniqueGroupID = True, ra_Topic = None,
      ra_Offset = [], ra_OperationTimeout = 30, ra_AutoCommitOffsetEnabled = True, ra_Password = [], ra_DB = 0, ra_Channel = []\<rparr>"

text \<open>The default pipeline, by the directory for temporary files.\<close>

definition DefaultPipelineYaml :: "string \<Rightarrow> PipelineParams" where
  "DefaultPipelineYaml tmp =
     \<lparr>pp_StorageProvider = ''embedded'',
      pp_Fetcher = \<lparr>io_Writer = Some (default_writer (path_join tmp ''fetcher'')), io_Reader = None\<rparr>,
      pp_Processor = \<lparr>io_Writer = Some (default_writer (path_join tmp ''processor'')),
                      io_Reader = Some (default_reader (path_join tmp ''fetcher''))\<rparr>,
      pp_Writer = \<lparr>io_Writer = None, io_Reader = Some (default_reader (path_join tmp ''processor''))\<rparr>\<rparr>"

text \<open>The YAML library is a parameter: it merges the text of the file into the defaults, or fails. A
  file that cannot be read leaves the defaults.\<close>

definition LoadPipelineConfigFromFile ::
  "(string \<Rightarrow> PipelineParams \<Rightarrow> PipelineParams option) \<Rightarrow> string \<Rightarrow> string option \<Rightarrow> PipelineParams option" where
  "LoadPipelineConfigFromFile yaml tmp content =
     (case content of None \<Rightarrow> Some (DefaultPipelineYaml tmp) | Some text \<Rightarrow> yaml text (DefaultPipelineYaml tmp))"

section \<open>Providers\<close>

datatype initial_offset = LibraryDefault | OffsetNewest | OffsetOldest

record kafka_reader =
  kr_AutoCommit :: bool
  kr_Initial :: initial_offset
  kr_GroupID :: string
  kr_Hosts :: "string list"
  kr_Topic :: string

record redis_options =
  rd_Addr :: string
  rd_Password :: string
  rd_DB :: int
  rd_Channel :: string

record pulsar_reader =
  pu_Topic :: string
  pu_SubscriptionName :: string
  pu_Initial :: initial_offset
  pu_URL :: string
  pu_OperationTimeout :: int

text \<open>Whether the libraries get a connection, and a fresh identifier.\<close>

record brokers =
  br_kafka_source :: "kafka_reader \<Rightarrow> bool"
  br_kafka_sink :: "string list \<Rightarrow> string \<Rightarrow> bool"
  br_redis_source :: "redis_options \<Rightarrow> bool"
  br_pulsar_source :: "pulsar_reader \<Rightarrow> bool"
  br_pulsar_sink :: "string \<Rightarrow> int \<Rightarrow> string \<Rightarrow> bool"
  br_uuid :: string

text \<open>A Kafka reader or writer is made even without a connection; its source or sink is nil then.\<close>

datatype reader = EmbeddedReader ReaderParams | KafkaReader kafka_reader bool | RedisReader redis_options | PulsarReader pulsar_reader

datatype pipe_writer = EmbeddedWriter WriterParams | KafkaWriter "string list" string bool | RedisWriter redis_options | PulsarWriter string int string

definition offset_of :: "string \<Rightarrow> initial_offset" where
  "offset_of s = (if s = ''latest'' then OffsetNewest else if s = ''earliest'' then OffsetOldest else LibraryDefault)"

definition kafka_NewReader :: "brokers \<Rightarrow> ReaderParams \<Rightarrow> reader option option" where
  "kafka_NewReader br config =
     do { group \<leftarrow> ra_Group config;
          topic \<leftarrow> ra_Topic config;
          let k = \<lparr>kr_AutoCommit = ra_AutoCommitOffsetEnabled config, kr_Initial = offset_of (ra_Offset config),
                   kr_GroupID = (if ra_CreateUniqueGroupID config then group @ ''-'' @ br_uuid br else group),
                   kr_Hosts = ra_Hosts config, kr_Topic = topic\<rparr>
          in Some (Some (KafkaReader k (br_kafka_source br k))) }"

definition kafka_NewWriter :: "brokers \<Rightarrow> WriterParams \<Rightarrow> pipe_writer option option" where
  "kafka_NewWriter br config =
     do { topic \<leftarrow> wa_Topic config;
          Some (Some (KafkaWriter (wa_Hosts config) topic (br_kafka_sink br (wa_Hosts config) topic))) }"

definition redis_NewReader :: "brokers \<Rightarrow> ReaderParams \<Rightarrow> reader option option" where
  "redis_NewReader br config =
     do { host \<leftarrow> ra_Host config;
          let opts = \<lparr>rd_Addr = host, rd_Password = ra_Password config, rd_DB = ra_DB config, rd_Channel = ra_Channel config\<rparr>
          in Some (if br_redis_source br opts then Some (RedisReader opts) else None) }"

definition redis_NewWriter :: "WriterParams \<Rightarrow> pipe_writer option option" where
  "redis_NewWriter config =
     do { host \<leftarrow> wa_Host config;
          Some (Some (RedisWriter \<lparr>rd_Addr = host, rd_Password = wa_Password config, rd_DB = wa_DB config,
                                   rd_Channel = wa_Channel config\<rparr>)) }"

definition pulsar_NewReader :: "brokers \<Rightarrow> ReaderParams \<Rightarrow> reader option option" where
  "pulsar_NewReader br config =
     (case ra_Host config of
        None \<Rightarrow> Some None
      | Some host \<Rightarrow>
          do { topic \<leftarrow> ra_Topic config;
               group \<leftarrow> ra_Group config;
               let p = \<lparr>pu_Topic = topic, pu_SubscriptionName = group, pu_Initial = offset_of (ra_Offset config),
                        pu_URL = ''pulsar://'' @ host, pu_OperationTimeout = wrap64 (ra_OperationTimeout config * 1000000000)\<rparr>
               in Some (if br_pulsar_source br p then Some (PulsarReader p) else None) })"

definition pulsar_NewWriter :: "brokers \<Rightarrow> WriterParams \<Rightarrow> pipe_writer option option" where
  "pulsar_NewWriter br config =
     (case wa_Host config of
        None \<Rightarrow> Some None
      | Some host \<Rightarrow>
          do { topic \<leftarrow> wa_Topic config;
               let url = ''pulsar://'' @ host; timeout = wrap64 (wa_OperationTimeout config * 1000000000)
               in Some (if br_pulsar_sink br url timeout topic then Some (PulsarWriter url timeout topic) else None) })"

text \<open>\<open>provider.NewReader\<close> and \<open>provider.NewWriter\<close>: a provider that is not known gives nil.\<close>

definition NewReader :: "brokers \<Rightarrow> string \<Rightarrow> ReaderParams \<Rightarrow> reader option option" where
  "NewReader br provider config =
     (if provider = ''embedded'' then Some (Some (EmbeddedReader config))
      else if provider = ''kafka'' then kafka_NewReader br config
      else if provider = ''redis'' then redis_NewReader br config
      else if provider = ''pulsar'' then pulsar_NewReader br config
      else Some None)"

definition NewWriter :: "brokers \<Rightarrow> string \<Rightarrow> WriterParams \<Rightarrow> pipe_writer option option" where
  "NewWriter br provider config =
     (if provider = ''embedded'' then Some (Some (EmbeddedWriter config))
      else if provider = ''kafka'' then kafka_NewWriter br config
      else if provider = ''redis'' then redis_NewWriter config
      else if provider = ''pulsar'' then pulsar_NewWriter br config
      else Some None)"

section \<open>Creating the reader and the writer of a component\<close>

datatype create_error = ErrLoadConfig | ErrWriterNotSupported | ErrReaderNotSupported

definition CreateReader ::
  "brokers \<Rightarrow> PipelineParams option \<Rightarrow> PipelineComponent \<Rightarrow> (create_error + reader option) option" where
  "CreateReader br cfg component =
     (case cfg of
        None \<Rightarrow> Some (Inl ErrLoadConfig)
      | Some p \<Rightarrow>
          (case component of
             FETCHER \<Rightarrow> Some (Inl ErrReaderNotSupported)
           | PROCESSOR \<Rightarrow> do { r \<leftarrow> io_Reader (pp_Processor p); rd \<leftarrow> NewReader br (pp_StorageProvider p) r; Some (Inr rd) }
           | WRITER \<Rightarrow> do { r \<leftarrow> io_Reader (pp_Writer p); rd \<leftarrow> NewReader br (pp_StorageProvider p) r; Some (Inr rd) }))"

definition CreateWriter ::
  "brokers \<Rightarrow> PipelineParams option \<Rightarrow> PipelineComponent \<Rightarrow> (create_error + pipe_writer option) option" where
  "CreateWriter br cfg component =
     (case cfg of
        None \<Rightarrow> Some (Inl ErrLoadConfig)
      | Some p \<Rightarrow>
          (case component of
             FETCHER \<Rightarrow> do { w \<leftarrow> io_Writer (pp_Fetcher p); wr \<leftarrow> NewWriter br (pp_StorageProvider p) w; Some (Inr wr) }
           | PROCESSOR \<Rightarrow> do { w \<leftarrow> io_Writer (pp_Processor p); wr \<leftarrow> NewWriter br (pp_StorageProvider p) w; Some (Inr wr) }
           | WRITER \<Rightarrow> Some (Inl ErrWriterNotSupported)))"

section \<open>Opening and reading\<close>

text \<open>\<open>Open\<close>, with the result of creating the directory and its queue as a parameter. The other providers
  start a goroutine and report no error; on a nil source, or a nil reader, the process dies.\<close>

definition reader_Open :: "(string \<Rightarrow> string option) \<Rightarrow> reader option \<Rightarrow> string option option" where
  "reader_Open openQueue r =
     (case r of
        None \<Rightarrow> None
      | Some (EmbeddedReader cfg) \<Rightarrow> (case ra_Path cfg of None \<Rightarrow> None | Some path \<Rightarrow> Some (openQueue path))
      | Some (KafkaReader k connected) \<Rightarrow> if connected then Some None else None
      | Some _ \<Rightarrow> Some None)"

definition writer_Open :: "(string \<Rightarrow> string option) \<Rightarrow> pipe_writer option \<Rightarrow> string option option" where
  "writer_Open openQueue w =
     (case w of
        None \<Rightarrow> None
      | Some (EmbeddedWriter cfg) \<Rightarrow> (case wa_Path cfg of None \<Rightarrow> None | Some path \<Rightarrow> Some (openQueue path))
      | Some _ \<Rightarrow> Some None)"

text \<open>What a receive on the channel \<open>out\<close> gives: nil when it is closed, a message of the library, or
  something else.\<close>

datatype 'm payload = Nil_payload | Message 'm | Other_payload

datatype read_error = ReaderClosed | UnknownPayload | Refused io_error

definition lift_read :: "io_error + string \<Rightarrow> read_error + string" where
  "lift_read r = (case r of Inl e \<Rightarrow> Inl (Refused e) | Inr x \<Rightarrow> Inr x)"

definition kafka_Read :: "kafka_message payload \<Rightarrow> read_error + string" where
  "kafka_Read data =
     (case data of
        Nil_payload \<Rightarrow> Inl ReaderClosed
      | Message msg \<Rightarrow> lift_read (mapOnPremiseRecord msg)
      | Other_payload \<Rightarrow> Inl UnknownPayload)"

definition redis_Read :: "string payload \<Rightarrow> read_error + string" where
  "redis_Read data =
     (case data of
        Nil_payload \<Rightarrow> Inl ReaderClosed
      | Message bytes \<Rightarrow> (let (out, err) = PreProcessRedactedFields bytes
                          in if err \<noteq> None then Inl (Refused InvalidPayload) else Inr out)
      | Other_payload \<Rightarrow> Inl UnknownPayload)"

text \<open>The type assertion panics on anything but a message.\<close>

definition pulsar_Read :: "string payload \<Rightarrow> (read_error + string) option" where
  "pulsar_Read data =
     (case data of
        Message bytes \<Rightarrow> Some (let (out, err) = PreProcessRedactedFields bytes
                               in if err \<noteq> None then Inl (Refused InvalidPayload) else Inr out)
      | _ \<Rightarrow> None)"

text \<open>\<open>Write\<close> of the three providers sends the data to the sink's goroutine and reports no error.\<close>

definition stream_Write :: "string list \<Rightarrow> string \<Rightarrow> string list \<times> io_error option" where
  "stream_Write input data = (input @ [data], None)"

abbreviation redis_Write :: "string list \<Rightarrow> string \<Rightarrow> string list \<times> io_error option" where
  "redis_Write \<equiv> stream_Write"

abbreviation pulsar_Write :: "string list \<Rightarrow> string \<Rightarrow> string list \<times> io_error option" where
  "pulsar_Write \<equiv> stream_Write"

section \<open>Properties\<close>

lemma stream_reads_deliver:
  "redis_Read (Message x) = lift_read (deliver x)" "pulsar_Read (Message x) = Some (lift_read (deliver x))"
  by (auto simp: redis_Read_def pulsar_Read_def deliver_def lift_read_def Let_def split: prod.splits option.splits)

lemma kafka_read_delivers:
  "PreProcessRedactedFields (km_Value msg) = (km_Value msg, None) \<Longrightarrow> unmarshal_schema (km_Value msg) el_zero = (s, None) \<Longrightarrow>
     elk_ID (el_Key s) \<noteq> [] \<Longrightarrow> kafka_Read (Message msg) = lift_read (deliver (km_Value msg))"
  by (simp add: kafka_Read_def mapOnPremiseRecord_def deliver_def lift_read_def)

text \<open>C6. The four providers are equivalent in what they make of a record: Redis and Pulsar deliver it, or
  refuse it, exactly as the embedded queue does, and so does Kafka when the record has an id in its key
  and nothing to be fixed. (A Kafka record with something to be fixed is delivered unfixed or refused.)\<close>

theorem readers_agree:
  assumes "eq_inv q" "eq_content gunz q = x # xs"
  shows "redis_Read (Message x) = lift_read (snd (emb_Read gunz True q)) \<and>
    pulsar_Read (Message x) = Some (lift_read (snd (emb_Read gunz True q))) \<and>
    (\<forall>msg s. km_Value msg = x \<and> PreProcessRedactedFields x = (x, None) \<and> unmarshal_schema x el_zero = (s, None) \<and>
       elk_ID (el_Key s) \<noteq> [] \<longrightarrow> kafka_Read (Message msg) = lift_read (snd (emb_Read gunz True q)))"
  using emb_Read_cases(2) [OF assms] stream_reads_deliver kafka_read_delivers by auto

text \<open>When the stream ends, the readers for Kafka and Redis report it, which the loops of the writers
  expect; the reader for Pulsar kills the process.\<close>

lemma closed_stream:
  "kafka_Read Nil_payload = Inl ReaderClosed" "redis_Read Nil_payload = Inl ReaderClosed" "pulsar_Read Nil_payload = None"
  by (simp_all add: kafka_Read_def redis_Read_def pulsar_Read_def)

text \<open>How a processor or a writer gets its reader: an error of \<open>CreateReader\<close> is fatal, and \<open>Start\<close> opens
  the reader and returns the error of that.\<close>

definition reader_startup ::
  "brokers \<Rightarrow> (string \<Rightarrow> string option) \<Rightarrow> PipelineParams option \<Rightarrow> PipelineComponent \<Rightarrow> string option option" where
  "reader_startup br openQueue cfg component =
     (case CreateReader br cfg component of
        Some (Inr r) \<Rightarrow> reader_Open openQueue r
      | _ \<Rightarrow> None)"

definition reader_section :: "PipelineParams \<Rightarrow> PipelineComponent \<Rightarrow> ReaderParams option" where
  "reader_section p component =
     (case component of FETCHER \<Rightarrow> None | PROCESSOR \<Rightarrow> io_Reader (pp_Processor p) | WRITER \<Rightarrow> io_Reader (pp_Writer p))"

text \<open>A section with everything its provider needs.\<close>

definition usable :: "brokers \<Rightarrow> string \<Rightarrow> ReaderParams \<Rightarrow> bool" where
  "usable br provider r =
     (if provider = ''embedded'' then ra_Path r \<noteq> None
      else if provider = ''kafka'' then
        (case kafka_NewReader br r of Some (Some (KafkaReader k connected)) \<Rightarrow> connected | _ \<Rightarrow> False)
      else if provider = ''redis'' then (case redis_NewReader br r of Some (Some _) \<Rightarrow> True | _ \<Rightarrow> False)
      else if provider = ''pulsar'' then (case pulsar_NewReader br r of Some (Some _) \<Rightarrow> True | _ \<Rightarrow> False)
      else False)"

lemma kafka_reader_made: "kafka_NewReader br r = Some x \<Longrightarrow> \<exists>k c. x = Some (KafkaReader k c)"
  by (auto simp: kafka_NewReader_def Let_def bind_eq_Some_conv)

lemma redis_reader_made: "redis_NewReader br r = Some (Some x) \<Longrightarrow> \<exists>opts. x = RedisReader opts"
  by (auto simp: redis_NewReader_def Let_def bind_eq_Some_conv split: if_splits)

lemma pulsar_reader_made: "pulsar_NewReader br r = Some (Some x) \<Longrightarrow> \<exists>c. x = PulsarReader c"
  by (auto simp: pulsar_NewReader_def Let_def bind_eq_Some_conv split: option.splits if_splits)

lemma open_usable:
  "(case NewReader br provider r of None \<Rightarrow> None | Some rd \<Rightarrow> reader_Open openQueue rd) =
     (if usable br provider r
      then Some (if provider = ''embedded'' then openQueue (the (ra_Path r)) else None)
      else None)"
proof -
  consider "provider = ''embedded''" | "provider = ''kafka''" | "provider = ''redis''" | "provider = ''pulsar''"
    | "provider \<notin> {''embedded'', ''kafka'', ''redis'', ''pulsar''}" by blast
  then show ?thesis
  proof cases
    case 2
    then show ?thesis using kafka_reader_made [of br r]
      by (fastforce simp: NewReader_def usable_def reader_Open_def split: option.splits)
  next
    case 3
    then show ?thesis using redis_reader_made [of br r]
      by (fastforce simp: NewReader_def usable_def reader_Open_def split: option.splits)
  next
    case 4
    then show ?thesis using pulsar_reader_made [of br r]
      by (fastforce simp: NewReader_def usable_def reader_Open_def split: option.splits)
  qed (auto simp: NewReader_def usable_def reader_Open_def split: option.splits)
qed


text \<open>The default pipeline is usable by both readers, and what the fetcher writes is what the processor
  reads, and so on to the writer.\<close>

lemma default_pipeline_connected:
  "reader_startup br openQueue (Some (DefaultPipelineYaml tmp)) PROCESSOR = Some (openQueue (path_join tmp ''fetcher''))"
  "reader_startup br openQueue (Some (DefaultPipelineYaml tmp)) WRITER = Some (openQueue (path_join tmp ''processor''))"
  "CreateWriter br (Some (DefaultPipelineYaml tmp)) FETCHER = Some (Inr (Some (EmbeddedWriter (default_writer (path_join tmp ''fetcher'')))))"
  "CreateWriter br (Some (DefaultPipelineYaml tmp)) PROCESSOR = Some (Inr (Some (EmbeddedWriter (default_writer (path_join tmp ''processor'')))))"
  by (simp_all add: reader_startup_def CreateReader_def CreateWriter_def DefaultPipelineYaml_def NewReader_def NewWriter_def
    reader_Open_def default_reader_def)

text \<open>A unique group is a different one for every identifier.\<close>

lemma unique_groups:
  assumes "ra_CreateUniqueGroupID c" "kafka_NewReader (br\<lparr>br_uuid := u\<rparr>) c = Some (Some (KafkaReader k b))"
    "kafka_NewReader (br\<lparr>br_uuid := u'\<rparr>) c = Some (Some (KafkaReader k' b'))" "u \<noteq> u'"
  shows "kr_GroupID k \<noteq> kr_GroupID k'"
  using assms by (auto simp: kafka_NewReader_def Let_def bind_eq_Some_conv)

section \<open>Examples\<close>

definition ex_brokers :: brokers where
  "ex_brokers = \<lparr>br_kafka_source = (\<lambda>_. False), br_kafka_sink = (\<lambda>_ _. False), br_redis_source = (\<lambda>_. True),
     br_pulsar_source = (\<lambda>_. True), br_pulsar_sink = (\<lambda>_ _ _. True), br_uuid = ''u''\<rparr>"

definition ex_reader_params :: ReaderParams where
  "ex_reader_params = (default_reader ''/tmp'')\<lparr>ra_Group := Some ''g'', ra_Topic := Some ''t''\<rparr>"


definition ex_record :: string where
  "ex_record = ''{\"key\":{\"service\":\"DLGaaS\",\"id\":\"1\"}}''"

theorem readers_agree_witness:
  "redis_Read (Message ex_record) = Inr ex_record \<and> pulsar_Read (Message ex_record) = Some (Inr ex_record) \<and>
   kafka_Read (Message \<lparr>km_Key = [], km_Value = ex_record, km_Topic = ''t'', km_Partition = 0, km_Offset = 1\<rparr>) = Inr ex_record"
proof -
  let ?q = "fst (emb_Write id True (emb_Open []) ex_record)"
  have "eq_inv (emb_Open [])" by (simp add: emb_Open_inv)
  then have q: "eq_inv ?q" "eq_content Some ?q = [ex_record]"
    using emb_Write_ok [of "emb_Open []" id ex_record Some]
    by (simp_all add: eq_content_def eq_files_def emb_Open_def readKeys_def decompressData_def)
  have p: "PreProcessRedactedFields ex_record = (ex_record, None)" by code_simp
  have "lift_read (snd (emb_Read Some True ?q)) = Inr ex_record"
    using emb_Read_cases(2) [OF q] p by (simp add: deliver_def lift_read_def)
  moreover have "let (s, err) = unmarshal_schema ex_record el_zero in err = None \<and> elk_ID (el_Key s) \<noteq> []" by code_simp
  ultimately show ?thesis using readers_agree [OF q] p by (auto split: prod.splits)
qed

end
