(* ===== verification/Transition.thy ===== *)
theory Transition
  imports Main
begin

text \<open>
  Executions of a labelled step relation, and the two arguments the lifecycles of the worker pool,
  the log processor and the log writers share: an invariant that relates the state to the labels
  seen so far, and a rank that every step lowers from some moment on, so that the system comes to
  its final state on every schedule.
\<close>

section \<open>Executions\<close>

text \<open>\<open>execs step n s es t\<close>: \<open>n\<close> steps lead from \<open>s\<close> to \<open>t\<close> and carry the labels \<open>es\<close>.\<close>

inductive execs :: "('s \<Rightarrow> 'e list \<Rightarrow> 's \<Rightarrow> bool) \<Rightarrow> nat \<Rightarrow> 's \<Rightarrow> 'e list \<Rightarrow> 's \<Rightarrow> bool" for step where
  execs_refl: "execs step 0 s [] s"
| execs_step: "execs step n s es t \<Longrightarrow> step t fs u \<Longrightarrow> execs step (Suc n) s (es @ fs) u"

declare execs_refl [simp, intro]

lemma execs_one: "step s es t \<Longrightarrow> execs step 1 s es t"
  using execs_step [OF execs_refl, of step s es t] by simp

lemma execs_trans: "execs step m t fs u \<Longrightarrow> execs step n s es t \<Longrightarrow> execs step (n + m) s (es @ fs) u"
proof (induction rule: execs.induct)
  case (execs_step m t fs u gs v)
  then show ?case using execs.execs_step [of step "n + m" s "es @ fs" u gs v] by simp
qed simp

text \<open>A silent step in front, for schedules given step by step.\<close>

lemma execs_front: "step s [] t \<Longrightarrow> execs step n t es u \<Longrightarrow> execs step (Suc n) s es u"
  using execs_trans [OF _ execs_one, of step n t es u s "[]"] by simp

lemma execs_front_label: "step s [e] t \<Longrightarrow> execs step n t es u \<Longrightarrow> execs step (Suc n) s (e # es) u"
  using execs_trans [OF _ execs_one, of step n t es u s "[e]"] by simp

section \<open>Invariants over the history\<close>

locale history_invariant =
  fixes step :: "'s \<Rightarrow> 'e list \<Rightarrow> 's \<Rightarrow> bool" and hinv :: "'e list \<Rightarrow> 's \<Rightarrow> bool"
  assumes preserved: "hinv hs s \<Longrightarrow> step s es t \<Longrightarrow> hinv (hs @ es) t"
begin

lemma execs_hinv: "execs step n s es t \<Longrightarrow> hinv hs s \<Longrightarrow> hinv (hs @ es) t"
proof (induction rule: execs.induct)
  case (execs_step n s es t fs u)
  then show ?case using preserved [of "hs @ es" t fs u] by simp
qed simp

lemma reachable: "execs step n s es t \<Longrightarrow> hinv [] s \<Longrightarrow> hinv es t"
  using execs_hinv [of n s es t "[]"] by simp

end

section \<open>Coming to an end\<close>

text \<open>\<open>draining\<close> holds from some moment on; the rank falls with every step from there, and a state
  that is not final has a step.\<close>

locale quiescing = history_invariant step hinv
  for step :: "'s \<Rightarrow> 'e list \<Rightarrow> 's \<Rightarrow> bool" and hinv :: "'e list \<Rightarrow> 's \<Rightarrow> bool" +
  fixes draining :: "'s \<Rightarrow> bool" and final :: "'s \<Rightarrow> bool" and rank :: "'s \<Rightarrow> nat"
  assumes falls: "hinv hs s \<Longrightarrow> draining s \<Longrightarrow> step s es t \<Longrightarrow> draining t \<and> rank t < rank s"
    and moves: "hinv hs s \<Longrightarrow> draining s \<Longrightarrow> \<not> final s \<Longrightarrow> \<exists>es t. step s es t"
begin

lemma rank_bounds: "execs step n s es t \<Longrightarrow> hinv hs s \<Longrightarrow> draining s \<Longrightarrow> draining t \<and> rank t + n \<le> rank s"
proof (induction rule: execs.induct)
  case (execs_step n s es t fs u)
  then have "draining t" "rank t + n \<le> rank s" by simp_all
  moreover have "hinv (hs @ es) t" using execs_hinv execs_step by blast
  ultimately show ?case using falls [OF _ _ execs_step.hyps(2)] by fastforce
qed simp

lemma stuck_is_final:
  assumes "execs step n s es t" "hinv hs s" "draining s" "\<nexists>fs u. step t fs u"
  shows "final t"
  using moves [OF execs_hinv [OF assms(1,2)]] rank_bounds [OF assms(1-3)] assms(4) by blast

lemma reaches_final: "hinv hs s \<Longrightarrow> draining s \<Longrightarrow> \<exists>n es t. n \<le> rank s \<and> execs step n s es t \<and> final t"
proof (induction "rank s" arbitrary: s hs rule: less_induct)
  case less
  show ?case
  proof (cases "final s")
    case True
    then show ?thesis by (meson execs_refl le0)
  next
    case False
    then obtain es t where st: "step s es t" using moves less.prems by blast
    have f: "draining t" "rank t < rank s" using falls [OF less.prems st] by auto
    obtain n fs u where "n \<le> rank t" "execs step n t fs u" "final u"
      using less.hyps [OF f(2) preserved [OF less.prems(1) st] f(1)] by blast
    then show ?thesis using execs_trans [OF _ execs_one [of step s es t], OF _ st] f(2)
      by (intro exI [of _ "1 + n"] exI [of _ "es @ fs"] exI [of _ u]) auto
  qed
qed

end

end
