(* ===== verification/Worker_Pool.thy ===== *)
theory Worker_Pool
  imports Transition "HOL-Library.Multiset"
begin

text \<open>
  The worker pool (\<open>pkg/workerpool/pool.go\<close>): goroutines that take jobs from an unbuffered channel,
  and a shutdown that sends every goroutine a signal and waits until all have left. The handler is
  a parameter of the pool; here a job is taken, is being handled, and has been handled. The model
  of what the log processor's handler does with a record is in \<open>Base_Worker\<close>.
\<close>

section \<open>State\<close>

text \<open>Where a goroutine of \<open>runHandler\<close> is: at the \<open>select\<close>, in the handler, between the shutdown
  signal and \<open>awaitShutdown.Done\<close>, or returned.\<close>

datatype 'j goroutine = Idle | Busy 'j | Leaving | Gone

text \<open>Where the caller of \<open>Stop\<close> is: before the call, in the loop that sends the signals, in
  \<open>awaitShutdown.Wait\<close>, or returned.\<close>

datatype stop_pc = NoStop | Signalling int | Awaiting | Stopped

record 'j pool =
  wp_size :: int
  wp_started :: bool
  wp_gors :: "'j goroutine list"
  wp_await :: int
  wp_stop :: stop_pc
  wp_finished :: "'j list"

definition NewWorkerPool :: "int \<Rightarrow> 'j pool" where
  "NewWorkerPool sz =
     \<lparr>wp_size = sz, wp_started = False, wp_gors = [], wp_await = 0, wp_stop = NoStop, wp_finished = []\<rparr>"

text \<open>The loop \<open>for i := 0; i < size; i++\<close> does nothing for a size that is not positive.\<close>

definition pool_Start :: "'j pool \<Rightarrow> 'j pool" where
  "pool_Start w =
     (if wp_started w then w
      else w\<lparr>wp_gors := wp_gors w @ replicate (nat (wp_size w)) Idle,
             wp_await := wp_await w + int (nat (wp_size w)), wp_started := True\<rparr>)"

definition pool_Stop :: "'j pool \<Rightarrow> 'j pool" where
  "pool_Stop w = w\<lparr>wp_stop := (if wp_started w then Signalling 0 else Stopped)\<rparr>"

section \<open>Steps\<close>

text \<open>A goroutine at its \<open>select\<close> may take a job a client sends (the label) or a shutdown signal;
  which one, when both are there, is not determined.\<close>

inductive runHandler_step :: "'j pool \<Rightarrow> 'j list \<Rightarrow> 'j pool \<Rightarrow> bool" where
  take_job: "wp_gors w = xs @ Idle # ys \<Longrightarrow> runHandler_step w [j] (w\<lparr>wp_gors := xs @ Busy j # ys\<rparr>)"
| finish_job: "wp_gors w = xs @ Busy j # ys \<Longrightarrow>
    runHandler_step w [] (w\<lparr>wp_gors := xs @ Idle # ys, wp_finished := wp_finished w @ [j]\<rparr>)"
| take_signal: "wp_stop w = Signalling i \<Longrightarrow> i < wp_size w \<Longrightarrow> wp_gors w = xs @ Idle # ys \<Longrightarrow>
    runHandler_step w [] (w\<lparr>wp_gors := xs @ Leaving # ys, wp_stop := Signalling (i + 1)\<rparr>)"
| leave: "wp_gors w = xs @ Leaving # ys \<Longrightarrow>
    runHandler_step w [] (w\<lparr>wp_gors := xs @ Gone # ys, wp_await := wp_await w - 1\<rparr>)"

text \<open>The rest of \<open>Stop\<close>: the end of its loop, and its return.\<close>

inductive pool_step :: "'j pool \<Rightarrow> 'j list \<Rightarrow> 'j pool \<Rightarrow> bool" where
  goroutine: "runHandler_step w js w' \<Longrightarrow> pool_step w js w'"
| signalled: "wp_stop w = Signalling i \<Longrightarrow> \<not> i < wp_size w \<Longrightarrow> pool_step w [] (w\<lparr>wp_stop := Awaiting\<rparr>)"
| return: "wp_stop w = Awaiting \<Longrightarrow> wp_await w = 0 \<Longrightarrow>
    pool_step w [] (w\<lparr>wp_stop := Stopped, wp_started := False\<rparr>)"

inductive_cases pool_stepE: "pool_step w js w'"
inductive_cases runHandler_stepE: "runHandler_step w js w'"

lemma pool_step_cases [consumes 1, case_names take_job finish_job take_signal leave signalled return]:
  assumes "pool_step w js w'"
    and "\<And>xs ys j. js = [j] \<Longrightarrow> wp_gors w = xs @ Idle # ys \<Longrightarrow> w' = w\<lparr>wp_gors := xs @ Busy j # ys\<rparr> \<Longrightarrow> P"
    and "\<And>xs ys j. js = [] \<Longrightarrow> wp_gors w = xs @ Busy j # ys \<Longrightarrow>
          w' = w\<lparr>wp_gors := xs @ Idle # ys, wp_finished := wp_finished w @ [j]\<rparr> \<Longrightarrow> P"
    and "\<And>i xs ys. js = [] \<Longrightarrow> wp_stop w = Signalling i \<Longrightarrow> i < wp_size w \<Longrightarrow> wp_gors w = xs @ Idle # ys \<Longrightarrow>
          w' = w\<lparr>wp_gors := xs @ Leaving # ys, wp_stop := Signalling (i + 1)\<rparr> \<Longrightarrow> P"
    and "\<And>xs ys. js = [] \<Longrightarrow> wp_gors w = xs @ Leaving # ys \<Longrightarrow>
          w' = w\<lparr>wp_gors := xs @ Gone # ys, wp_await := wp_await w - 1\<rparr> \<Longrightarrow> P"
    and "\<And>i. js = [] \<Longrightarrow> wp_stop w = Signalling i \<Longrightarrow> \<not> i < wp_size w \<Longrightarrow> w' = w\<lparr>wp_stop := Awaiting\<rparr> \<Longrightarrow> P"
    and "js = [] \<Longrightarrow> wp_stop w = Awaiting \<Longrightarrow> wp_await w = 0 \<Longrightarrow>
          w' = w\<lparr>wp_stop := Stopped, wp_started := False\<rparr> \<Longrightarrow> P"
  shows P
  using assms(1)
proof (rule pool_stepE)
  assume "runHandler_step w js w'"
  then show P by (rule runHandler_stepE) (use assms(2-5) in blast)+
qed (use assms(6,7) in blast)+

section \<open>Invariant\<close>

fun in_hand :: "'j goroutine list \<Rightarrow> 'j list" where
  "in_hand [] = []"
| "in_hand (Busy j # gs) = j # in_hand gs"
| "in_hand (_ # gs) = in_hand gs"

fun working :: "'j goroutine \<Rightarrow> bool" where
  "working Idle = True"
| "working (Busy _) = True"
| "working _ = False"

definition n_working :: "'j goroutine list \<Rightarrow> int" where
  "n_working gs = int (length (filter working gs))"

definition n_alive :: "'j goroutine list \<Rightarrow> int" where
  "n_alive gs = int (length (filter (\<lambda>g. g \<noteq> Gone) gs))"

text \<open>How many goroutines have a signal, by where \<open>Stop\<close> is.\<close>

fun stop_ok :: "stop_pc \<Rightarrow> int \<Rightarrow> 'j goroutine list \<Rightarrow> bool" where
  "stop_ok NoStop sz gs = (n_working gs = int (length gs))"
| "stop_ok (Signalling i) sz gs = (0 \<le> i \<and> i + n_working gs = int (length gs))"
| "stop_ok Awaiting sz gs = (n_working gs = 0)"
| "stop_ok Stopped sz gs = (n_alive gs = 0)"

definition pool_inv :: "'j list \<Rightarrow> 'j pool \<Rightarrow> bool" where
  "pool_inv js w = (mset js = mset (in_hand (wp_gors w) @ wp_finished w) \<and>
     length (wp_gors w) = nat (wp_size w) \<and> wp_await w = n_alive (wp_gors w) \<and>
     stop_ok (wp_stop w) (wp_size w) (wp_gors w))"

lemma in_hand_append [simp]: "in_hand (xs @ ys) = in_hand xs @ in_hand ys"
  by (induction xs rule: in_hand.induct) auto

lemma n_append [simp]:
  "n_working (xs @ ys) = n_working xs + n_working ys" "n_alive (xs @ ys) = n_alive xs + n_alive ys"
  by (simp_all add: n_working_def n_alive_def)

lemma n_Cons [simp]:
  "n_working (g # gs) = (if working g then 1 else 0) + n_working gs"
  "n_alive (g # gs) = (if g = Gone then 0 else 1) + n_alive gs"
  "n_working [] = 0" "n_alive [] = 0"
  by (simp_all add: n_working_def n_alive_def)

lemma n_bounds [simp]: "0 \<le> n_working gs" "n_working gs \<le> n_alive gs" "0 \<le> n_alive gs"
proof -
  show "n_working gs \<le> n_alive gs"
  proof (induction gs)
    case (Cons g gs)
    then show ?case by (cases g) auto
  qed simp
qed (simp_all add: n_working_def n_alive_def)

lemma n_alive_0: "n_alive gs = 0 \<longleftrightarrow> set gs \<subseteq> {Gone}"
  by (auto simp: n_alive_def filter_empty_conv)

lemma in_hand_Gone: "set gs \<subseteq> {Gone} \<Longrightarrow> in_hand gs = []"
  by (induction gs rule: in_hand.induct) auto

lemma in_hand_not_working: "n_working gs = 0 \<Longrightarrow> in_hand gs = []"
proof (induction gs)
  case (Cons g gs)
  then show ?case using n_bounds(1) [of gs] by (cases g) auto
qed simp

lemma stop_ok_signalled: "stop_ok (Signalling i) sz gs \<Longrightarrow> length gs = nat sz \<Longrightarrow> \<not> i < sz \<Longrightarrow> n_working gs = 0"
  using n_bounds(1) [of gs] by (simp del: n_bounds split: if_splits)

text \<open>What a step does to each part of the invariant.\<close>

lemma step_jobs: "pool_step w js w' \<Longrightarrow>
    mset (in_hand (wp_gors w') @ wp_finished w') = mset (in_hand (wp_gors w) @ wp_finished w) + mset js"
  by (erule pool_step_cases) simp_all

lemma step_shape: "pool_step w js w' \<Longrightarrow> wp_size w' = wp_size w \<and> length (wp_gors w') = length (wp_gors w) \<and>
    wp_await w' - n_alive (wp_gors w') = wp_await w - n_alive (wp_gors w)"
  by (erule pool_step_cases) simp_all

lemma stop_ok_working:
  "stop_ok p sz (xs @ g # ys) \<Longrightarrow> working g \<Longrightarrow> working g' \<Longrightarrow> stop_ok p sz (xs @ g' # ys)"
  "stop_ok p sz (xs @ Leaving # ys) \<Longrightarrow> stop_ok p sz (xs @ Gone # ys)"
  using n_bounds(3) [of xs] n_bounds(3) [of ys]
  by (cases p; cases g; auto simp del: n_bounds)+

lemma step_stop_ok:
  assumes "pool_step w js w'" "stop_ok (wp_stop w) (wp_size w) (wp_gors w)" "length (wp_gors w) = nat (wp_size w)"
    "wp_await w = n_alive (wp_gors w)"
  shows "stop_ok (wp_stop w') (wp_size w') (wp_gors w')"
  using assms(1)
proof (cases rule: pool_step_cases)
  case (signalled i)
  then show ?thesis using stop_ok_signalled [of i "wp_size w" "wp_gors w"] assms(2,3) by simp
qed (use assms(2-4) in \<open>auto intro: stop_ok_working\<close>)

lemma pool_inv_preserved: "pool_inv hs w \<Longrightarrow> pool_step w js w' \<Longrightarrow> pool_inv (hs @ js) w'"
  using step_jobs [of w js w'] step_shape [of w js w'] step_stop_ok [of w js w'] by (simp add: pool_inv_def)

interpretation pool: history_invariant "pool_step :: 'j pool \<Rightarrow> _" pool_inv
  by unfold_locales (rule pool_inv_preserved)

lemma n_working_replicate [simp]: "n_working (replicate n Idle) = int n" "n_alive (replicate n Idle) = int n"
  "in_hand (replicate n Idle) = []"
  by (induction n) simp_all

lemma pool_inv_Start: "pool_inv [] (pool_Start (NewWorkerPool sz))"
  by (simp add: pool_inv_def pool_Start_def NewWorkerPool_def)

lemma Start_finished [simp]: "wp_finished (pool_Start (NewWorkerPool sz)) = []"
  by (simp add: pool_Start_def NewWorkerPool_def)

lemma pool_inv_Stop: "pool_inv js w \<Longrightarrow> wp_started w \<Longrightarrow> wp_stop w = NoStop \<Longrightarrow> pool_inv js (pool_Stop w)"
  by (simp add: pool_inv_def pool_Stop_def)

text \<open>\<open>started\<close> is reset by the return of \<open>Stop\<close> alone.\<close>

lemma started_kept: "pool_step w js w' \<Longrightarrow> wp_stop w' \<noteq> Stopped \<Longrightarrow> wp_started w' = wp_started w"
  by (erule pool_step_cases) auto

lemma NoStop_kept: "pool_step w js w' \<Longrightarrow> wp_stop w' = NoStop \<longleftrightarrow> wp_stop w = NoStop"
  by (erule pool_step_cases) auto

lemma Start_runs:
  "execs pool_step n w js w' \<Longrightarrow> wp_stop w = NoStop \<Longrightarrow> wp_started w \<Longrightarrow> wp_stop w' = NoStop \<and> wp_started w'"
proof (induction rule: execs.induct)
  case (execs_step n s es t fs u)
  then show ?case using started_kept [of t fs u] NoStop_kept [of t fs u] by simp
qed simp

lemma Stopped_all_done:
  assumes "pool_inv js w" "wp_stop w = Stopped"
  shows "mset (wp_finished w) = mset js" "set (wp_gors w) \<subseteq> {Gone}" "wp_await w = 0"
  using assms in_hand_Gone [of "wp_gors w"] by (auto simp: pool_inv_def n_alive_0)

text \<open>A pool that has stopped does nothing any more.\<close>

lemma Stopped_no_step:
  assumes "pool_inv js w" "wp_stop w = Stopped"
  shows "\<not> pool_step w ks w'"
proof
  assume "pool_step w ks w'"
  then show False using Stopped_all_done(2) [OF assms] assms(2) by (cases rule: pool_step_cases) auto
qed

section \<open>Shutdown comes to an end\<close>

fun gor_rank :: "'j goroutine \<Rightarrow> nat" where
  "gor_rank Gone = 0"
| "gor_rank Leaving = 1"
| "gor_rank Idle = 2"
| "gor_rank (Busy _) = 3"

fun stop_rank :: "stop_pc \<Rightarrow> nat" where
  "stop_rank Stopped = 0"
| "stop_rank Awaiting = 1"
| "stop_rank (Signalling _) = 2"
| "stop_rank NoStop = 3"

definition pool_rank :: "'j pool \<Rightarrow> nat" where
  "pool_rank w = sum_list (map gor_rank (wp_gors w)) + stop_rank (wp_stop w)"

text \<open>Every step but taking a job lowers the rank; taking one adds one to it.\<close>

lemma pool_rank_falls: "pool_step w js w' \<Longrightarrow> pool_rank w' + (if js = [] then 1 else 0) \<le> pool_rank w + length js"
  by (erule pool_step_cases) (simp_all add: pool_rank_def)

lemma working_or_not:
  "n_working gs \<noteq> 0 \<Longrightarrow> \<exists>xs g ys. gs = xs @ g # ys \<and> working g"
  "n_alive gs \<noteq> 0 \<Longrightarrow> \<exists>xs g ys. gs = xs @ g # ys \<and> g \<noteq> Gone"
  by (auto simp: n_working_def n_alive_def filter_empty_conv dest!: split_list)

lemma pool_moves:
  assumes "pool_inv js w" "wp_stop w \<noteq> NoStop" "wp_stop w \<noteq> Stopped"
  shows "\<exists>w'. pool_step w [] w'"
proof (cases "n_alive (wp_gors w) = 0")
  case True
  then have "n_working (wp_gors w) = 0" using n_bounds [of "wp_gors w"] by (simp del: n_bounds)
  then show ?thesis using assms True pool_step.signalled [of w] pool_step.return [of w]
    by (cases "wp_stop w") (fastforce simp: pool_inv_def split: if_splits)+
next
  case alive: False
  show ?thesis
  proof (cases "n_working (wp_gors w) = 0")
    case True
    then obtain xs g ys where g: "wp_gors w = xs @ g # ys" "g \<noteq> Gone" using working_or_not(2) [OF alive] by blast
    then have "g = Leaving" using True n_bounds(1) [of xs] n_bounds(1) [of ys] by (cases g) (auto simp del: n_bounds)
    then show ?thesis using g(1) by (blast intro: goroutine leave)
  next
    case False
    then obtain xs g ys where g: "wp_gors w = xs @ g # ys" "working g" using working_or_not(1) by blast
    show ?thesis
    proof (cases g)
      case Idle
      obtain i where "wp_stop w = Signalling i" using assms False g by (cases "wp_stop w") (auto simp: pool_inv_def n_alive_0)
      moreover then have "i < wp_size w" using assms(1) False n_bounds(1) [of "wp_gors w"]
        by (auto simp: pool_inv_def simp del: n_bounds split: if_splits)
      ultimately show ?thesis using g(1) Idle by (blast intro: goroutine take_signal)
    next
      case (Busy j)
      then show ?thesis using g(1) by (blast intro: goroutine finish_job)
    qed (use g in simp_all)
  qed
qed

text \<open>The pool left to itself: no client sends a job.\<close>

definition silent_step :: "'j pool \<Rightarrow> 'j list \<Rightarrow> 'j pool \<Rightarrow> bool" where
  "silent_step w js w' = (js = [] \<and> pool_step w [] w')"

interpretation pool_end: quiescing "silent_step :: 'j pool \<Rightarrow> _" pool_inv
  "\<lambda>w. wp_stop w \<noteq> NoStop" "\<lambda>w. wp_stop w = Stopped" pool_rank
proof unfold_locales
  fix hs js :: "'j list" and w w' :: "'j pool"
  assume inv: "pool_inv hs w"
  show "pool_inv (hs @ js) w'" if "silent_step w js w'"
    using pool_inv_preserved [OF inv, of "[]" w'] that by (auto simp: silent_step_def)
  show "wp_stop w' \<noteq> NoStop \<and> pool_rank w' < pool_rank w" if "wp_stop w \<noteq> NoStop" "silent_step w js w'"
    using that pool_rank_falls [of w "[]" w'] NoStop_kept [of w "[]" w'] by (auto simp: silent_step_def)
  show "\<exists>js w'. silent_step w js w'" if "wp_stop w \<noteq> NoStop" "wp_stop w \<noteq> Stopped"
    using pool_moves [OF inv that] by (auto simp: silent_step_def)
qed

section \<open>Properties\<close>

text \<open>C17. The worker pool handles every job exactly once: whatever the schedule of its goroutines
  and of the clients that send jobs, when \<open>Stop\<close> has returned, the jobs whose handler has finished
  are the jobs that were taken from the channel, each as often as it was taken; no handler is still
  running, every goroutine has returned, and the pool may be started again.\<close>

theorem pool_handles_each_job_once:
  assumes "execs pool_step m (pool_Start (NewWorkerPool sz)) js w"
    and "execs pool_step n (pool_Stop w) ks w'" and "wp_stop w' = Stopped"
  shows "mset (wp_finished w') = mset (js @ ks) \<and> set (wp_gors w') \<subseteq> {Gone} \<and> \<not> wp_started w'"
proof (intro conjI)
  have w: "wp_stop w = NoStop" "wp_started w"
    using Start_runs [OF assms(1)] by (simp_all add: pool_Start_def NewWorkerPool_def)
  have i: "pool_inv js (pool_Stop w)" using pool_inv_Stop [OF pool.reachable [OF assms(1) pool_inv_Start] w(2,1)] .
  then have "pool_inv (js @ ks) w'" using pool.execs_hinv [OF assms(2)] by simp
  then show "mset (wp_finished w') = mset (js @ ks)" "set (wp_gors w') \<subseteq> {Gone}"
    using Stopped_all_done assms(3) by blast+
  have "execs pool_step n v ks v' \<Longrightarrow> wp_stop v \<noteq> Stopped \<Longrightarrow> wp_stop v' = Stopped \<longrightarrow> \<not> wp_started v'" for v v' :: "'a pool"
    by (induction rule: execs.induct) (auto elim: pool_step_cases)
  then show "\<not> wp_started w'" using assms(2,3) w(2) by (auto simp: pool_Stop_def)
qed

text \<open>A pool of one goroutine handles one job and is stopped.\<close>

abbreviation ex_pool :: "bool \<Rightarrow> 'j goroutine \<Rightarrow> int \<Rightarrow> stop_pc \<Rightarrow> 'j list \<Rightarrow> 'j pool" where
  "ex_pool started g n st fin \<equiv>
     \<lparr>wp_size = 1, wp_started = started, wp_gors = [g], wp_await = n, wp_stop = st, wp_finished = fin\<rparr>"

lemma ex_pool_steps:
  "pool_step (ex_pool True Idle 1 NoStop []) [r] (ex_pool True (Busy r) 1 NoStop [])"
  "pool_step (ex_pool True (Busy r) 1 (Signalling 0) []) [] (ex_pool True Idle 1 (Signalling 0) [r])"
  "pool_step (ex_pool True Idle 1 (Signalling 0) [r]) [] (ex_pool True Leaving 1 (Signalling 1) [r])"
  "pool_step (ex_pool True Leaving 1 (Signalling 1) [r]) [] (ex_pool True Gone 0 (Signalling 1) [r])"
  "pool_step (ex_pool True Gone 0 (Signalling 1) [r]) [] (ex_pool True Gone 0 Awaiting [r])"
  "pool_step (ex_pool True Gone 0 Awaiting [r]) [] (ex_pool False Gone 0 Stopped [r])"
  using goroutine [OF take_job [of "ex_pool True Idle 1 NoStop []" "[]" "[]" r]]
    goroutine [OF finish_job [of "ex_pool True (Busy r) 1 (Signalling 0) []" "[]" r "[]"]]
    goroutine [OF take_signal [of "ex_pool True Idle 1 (Signalling 0) [r]" 0 "[]" "[]"]]
    goroutine [OF leave [of "ex_pool True Leaving 1 (Signalling 1) [r]" "[]" "[]"]]
    signalled [of "ex_pool True Gone 0 (Signalling 1) [r]" 1]
    pool_step.return [of "ex_pool True Gone 0 Awaiting [r]"]
  by simp_all

lemma ex_pool_runs:
  "execs pool_step 1 (pool_Start (NewWorkerPool 1)) [r] (ex_pool True (Busy r) 1 NoStop [])"
  "execs pool_step 5 (pool_Stop (ex_pool True (Busy r) 1 NoStop [])) [] (ex_pool False Gone 0 Stopped [r])"
proof -
  show "execs pool_step 1 (pool_Start (NewWorkerPool 1)) [r] (ex_pool True (Busy r) 1 NoStop [])"
    using execs_one [of pool_step, OF ex_pool_steps(1)] by (simp add: pool_Start_def NewWorkerPool_def)
  show "execs pool_step 5 (pool_Stop (ex_pool True (Busy r) 1 NoStop [])) [] (ex_pool False Gone 0 Stopped [r])"
    using execs_front [where step = pool_step, OF ex_pool_steps(2) execs_front [where step = pool_step, OF ex_pool_steps(3) execs_front [where step = pool_step, OF ex_pool_steps(4)
      execs_front [where step = pool_step, OF ex_pool_steps(5) execs_front [where step = pool_step, OF ex_pool_steps(6) execs_refl]]]]]
    by (simp add: pool_Stop_def eval_nat_numeral)
qed

theorem pool_handles_each_job_once_witness:
  "execs pool_step 5 (pool_Stop (ex_pool True (Busy ''r'') 1 NoStop [])) [] (ex_pool False Gone 0 Stopped [''r'']) \<and>
   mset (wp_finished (ex_pool False Gone 0 Stopped [''r''])) = mset [''r'']"
  using pool_handles_each_job_once [OF ex_pool_runs [of "''r''"]] ex_pool_runs(2) [of "''r''"] by simp

end
