(* ===== verification/Processor_Lifecycle.thy ===== *)
theory Processor_Lifecycle
  imports Worker_Pool
begin

text \<open>
  The life of a log processor (\<open>pkg/log_processors/types/processor/processor.go\<close>, and \<open>Run\<close> of
  \<open>cmd/event-log-processor\<close>): a goroutine reads records from the pipeline and sends them to the
  worker pool; \<open>Stop\<close> ends the reading, then stops the pool. The reader is the environment: it
  returns a record or an error. Time does not pass explicitly; a goroutine that sleeps may wake up.
\<close>

section \<open>State\<close>

text \<open>Where \<open>fetchRecords\<close> is: not started, at the \<open>select\<close>, in \<open>Reader.Read\<close>, in \<open>time.Sleep\<close>, in
  the send on \<open>Job\<close>, or returned.\<close>

datatype 'r fetch_pc = NotRunning | AtSelect | Reading | Sleeping | Sending 'r | FetchEnded

text \<open>Where \<open>Stop\<close> is: not called, in the send on \<open>Shutdown\<close>, in \<open>Workers.Stop\<close>, or returned.\<close>

datatype proc_stop = StopNotCalled | StopOffers | StopsPool | StopReturned

record 'r processor =
  lp_fetch :: "'r fetch_pc"
  lp_pool :: "'r pool"
  lp_stop :: proc_stop
  lp_wait :: int

text \<open>\<open>Init\<close> creates and starts the pool.\<close>

definition processor_Init :: "int \<Rightarrow> 'r processor" where
  "processor_Init numWorkers =
     \<lparr>lp_fetch = NotRunning, lp_pool = pool_Start (NewWorkerPool numWorkers), lp_stop = StopNotCalled, lp_wait = 1\<rparr>"

text \<open>\<open>Start\<close>, with the results of opening the reader and the writer.\<close>

definition processor_Start :: "'e option \<Rightarrow> 'e option \<Rightarrow> 'r processor \<Rightarrow> 'r processor \<times> 'e option" where
  "processor_Start readerOpen writerOpen p =
     (case readerOpen of
        Some err \<Rightarrow> (p, Some err)
      | None \<Rightarrow> (case writerOpen of
                  Some err \<Rightarrow> (p, Some err)
                | None \<Rightarrow> (p\<lparr>lp_fetch := AtSelect\<rparr>, None)))"

definition processor_Stop :: "'r processor \<Rightarrow> 'r processor" where
  "processor_Stop p = p\<lparr>lp_stop := StopOffers\<rparr>"

section \<open>Steps\<close>

text \<open>The label has the record a read returns. The \<open>default\<close> case of the \<open>select\<close> is taken only when
  nobody sends on \<open>Shutdown\<close>.\<close>

inductive fetchRecords_step :: "'r processor \<Rightarrow> 'r list \<Rightarrow> 'r processor \<Rightarrow> bool" where
  shutdown: "lp_fetch p = AtSelect \<Longrightarrow> lp_stop p = StopOffers \<Longrightarrow>
    fetchRecords_step p [] (p\<lparr>lp_fetch := FetchEnded, lp_wait := lp_wait p - 1, lp_stop := StopsPool,
                             lp_pool := pool_Stop (lp_pool p)\<rparr>)"
| default: "lp_fetch p = AtSelect \<Longrightarrow> lp_stop p \<noteq> StopOffers \<Longrightarrow> fetchRecords_step p [] (p\<lparr>lp_fetch := Reading\<rparr>)"
| read_record: "lp_fetch p = Reading \<Longrightarrow> fetchRecords_step p [r] (p\<lparr>lp_fetch := Sending r\<rparr>)"
| read_error: "lp_fetch p = Reading \<Longrightarrow> fetchRecords_step p [] (p\<lparr>lp_fetch := Sleeping\<rparr>)"
| wake: "lp_fetch p = Sleeping \<Longrightarrow> fetchRecords_step p [] (p\<lparr>lp_fetch := AtSelect\<rparr>)"
| send: "lp_fetch p = Sending r \<Longrightarrow> pool_step (lp_pool p) [r] w \<Longrightarrow>
    fetchRecords_step p [] (p\<lparr>lp_fetch := AtSelect, lp_pool := w\<rparr>)"

inductive processor_step :: "'r processor \<Rightarrow> 'r list \<Rightarrow> 'r processor \<Rightarrow> bool" where
  fetch: "fetchRecords_step p rs p' \<Longrightarrow> processor_step p rs p'"
| workers: "pool_step (lp_pool p) [] w \<Longrightarrow> processor_step p [] (p\<lparr>lp_pool := w\<rparr>)"
| return: "lp_stop p = StopsPool \<Longrightarrow> wp_stop (lp_pool p) = Stopped \<Longrightarrow> processor_step p [] (p\<lparr>lp_stop := StopReturned\<rparr>)"

inductive_cases processor_stepE: "processor_step p rs p'"
inductive_cases fetchRecords_stepE: "fetchRecords_step p rs p'"

lemmas processor_steps = fetch [OF shutdown] fetch [OF default] fetch [OF read_record] fetch [OF read_error]
  fetch [OF wake] fetch [OF send] workers return

section \<open>Invariant\<close>

fun in_transit :: "'r fetch_pc \<Rightarrow> 'r list" where
  "in_transit (Sending r) = [r]"
| "in_transit _ = []"

fun phases_ok :: "'r fetch_pc \<Rightarrow> proc_stop \<Rightarrow> 'r pool \<Rightarrow> bool" where
  "phases_ok f StopsPool w = (f = FetchEnded \<and> wp_stop w \<noteq> NoStop)"
| "phases_ok f StopReturned w = (f = FetchEnded \<and> wp_stop w = Stopped)"
| "phases_ok f _ w = (f \<noteq> FetchEnded \<and> wp_stop w = NoStop \<and> wp_started w)"

definition processor_inv :: "'r list \<Rightarrow> 'r processor \<Rightarrow> bool" where
  "processor_inv rs p = (phases_ok (lp_fetch p) (lp_stop p) (lp_pool p) \<and>
     (\<exists>given. mset rs = mset (in_transit (lp_fetch p) @ given) \<and> pool_inv given (lp_pool p)))"

lemma processor_inv_Start:
  "processor_inv [] (processor_Init n)" "processor_inv [] ((processor_Init n)\<lparr>lp_fetch := AtSelect\<rparr>)"
  using pool_inv_Start [of n] by (auto simp: processor_inv_def processor_Init_def pool_Start_def NewWorkerPool_def)

lemma processor_inv_Stop: "processor_inv rs p \<Longrightarrow> lp_stop p = StopNotCalled \<Longrightarrow> processor_inv rs (processor_Stop p)"
  by (auto simp: processor_inv_def processor_Stop_def)

lemma phases_pool: "phases_ok f st w \<Longrightarrow> pool_step w js w' \<Longrightarrow> st = StopReturned \<longrightarrow> wp_stop w' = Stopped \<Longrightarrow> phases_ok f st w'"
  using NoStop_kept [of w js w'] started_kept [of w js w'] by (cases st) auto

lemma processor_inv_preserved:
  assumes "processor_inv hs p" "processor_step p rs p'"
  shows "processor_inv (hs @ rs) p'"
proof -
  obtain given where i: "phases_ok (lp_fetch p) (lp_stop p) (lp_pool p)"
    "mset hs = mset (in_transit (lp_fetch p) @ given)" "pool_inv given (lp_pool p)"
    using assms(1) by (auto simp: processor_inv_def)
  from assms(2) show ?thesis
  proof (rule processor_stepE)
    assume "fetchRecords_step p rs p'"
    then show ?thesis
    proof cases
      case shutdown
      then have "pool_inv given (pool_Stop (lp_pool p))" using i pool_inv_Stop [OF i(3)] by simp
      then show ?thesis using shutdown i by (auto simp: processor_inv_def pool_Stop_def)
    next
      case (send r w)
      then have "pool_inv (given @ [r]) w" using pool_inv_preserved [OF i(3)] by blast
      moreover have "phases_ok AtSelect (lp_stop p) w"
        using phases_pool [OF _ send(4), of AtSelect "lp_stop p"] i(1) send(3) by (cases "lp_stop p") auto
      ultimately show ?thesis using send i(2) by (auto simp: processor_inv_def intro!: exI [of _ "given @ [r]"])
    qed (use i in \<open>cases "lp_stop p"; auto simp: processor_inv_def intro!: exI [of _ given]\<close>)+
  next
    fix w assume w: "rs = []" "p' = p\<lparr>lp_pool := w\<rparr>" "pool_step (lp_pool p) [] w"
    have "phases_ok (lp_fetch p) (lp_stop p) w"
      using phases_pool [OF i(1) w(3)] Stopped_no_step [OF i(3)] w(3) i(1) by (cases "lp_stop p") auto
    then show ?thesis using w i pool_inv_preserved [OF i(3) w(3)] by (auto simp: processor_inv_def)
  next
    assume "rs = []" "p' = p\<lparr>lp_stop := StopReturned\<rparr>" "lp_stop p = StopsPool" "wp_stop (lp_pool p) = Stopped"
    then show ?thesis using i by (auto simp: processor_inv_def)
  qed
qed

interpretation processor: history_invariant "processor_step :: 'r processor \<Rightarrow> _" processor_inv
  by unfold_locales (rule processor_inv_preserved)

section \<open>Stop comes to an end\<close>

fun fetch_rank :: "'r fetch_pc \<Rightarrow> nat" where
  "fetch_rank Reading = 4"
| "fetch_rank (Sending _) = 3"
| "fetch_rank Sleeping = 2"
| "fetch_rank AtSelect = 1"
| "fetch_rank _ = 0"

fun proc_stop_rank :: "proc_stop \<Rightarrow> nat" where
  "proc_stop_rank StopsPool = 1"
| "proc_stop_rank StopReturned = 0"
| "proc_stop_rank _ = 2"

definition processor_rank :: "'r processor \<Rightarrow> nat" where
  "processor_rank p = fetch_rank (lp_fetch p) + proc_stop_rank (lp_stop p) + pool_rank (lp_pool p)"

text \<open>\<open>Stop\<close> has been called on a processor that was started and has a worker.\<close>

definition stopping :: "'r processor \<Rightarrow> bool" where
  "stopping p = (lp_stop p \<noteq> StopNotCalled \<and> lp_fetch p \<noteq> NotRunning \<and> 0 < wp_size (lp_pool p))"

lemma pool_size_kept: "pool_step w js w' \<Longrightarrow> wp_size w' = wp_size w"
  using step_shape [of w js w'] by simp

lemma stopping_falls:
  assumes "processor_inv hs p" "stopping p" "processor_step p rs p'"
  shows "stopping p' \<and> processor_rank p' < processor_rank p"
  using assms(3)
proof (rule processor_stepE)
  assume "fetchRecords_step p rs p'"
  then show ?thesis
  proof cases
    case shutdown
    have "wp_stop (lp_pool p) = NoStop" using assms(1) shutdown by (auto simp: processor_inv_def)
    then show ?thesis using shutdown assms(2)
      by (auto simp: stopping_def processor_rank_def pool_Stop_def pool_rank_def)
  next
    case default
    then show ?thesis using assms(1,2) by (cases "lp_stop p") (auto simp: processor_inv_def stopping_def)
  next
    case (send r w)
    then show ?thesis using assms(2) pool_rank_falls [OF send(4)] pool_size_kept [OF send(4)]
      by (auto simp: stopping_def processor_rank_def)
  qed (use assms(2) in \<open>auto simp: stopping_def processor_rank_def\<close>)
next
  fix w assume w: "rs = []" "p' = p\<lparr>lp_pool := w\<rparr>" "pool_step (lp_pool p) [] w"
  then show ?thesis using assms(2) pool_rank_falls [OF w(3)] pool_size_kept [OF w(3)]
    by (auto simp: stopping_def processor_rank_def)
qed (use assms(2) in \<open>auto simp: stopping_def processor_rank_def\<close>)

text \<open>A pool that is not being stopped and has a goroutine can take a job or finish one.\<close>

lemma pool_can_work:
  assumes "pool_inv js w" "wp_stop w = NoStop" "0 < wp_size w"
  shows "(\<exists>w'. pool_step w [r] w') \<or> (\<exists>w'. pool_step w [] w')"
proof -
  have "n_working (wp_gors w) \<noteq> 0" using assms by (auto simp: pool_inv_def)
  then obtain xs g ys where "wp_gors w = xs @ g # ys" "working g" using working_or_not(1) by blast
  then show ?thesis by (cases g) (auto intro: goroutine take_job finish_job)
qed

lemma stopping_moves:
  assumes "processor_inv hs p" "stopping p" "lp_stop p \<noteq> StopReturned"
  shows "\<exists>rs p'. processor_step p rs p'"
proof (cases "lp_stop p")
  case StopOffers
  obtain given where i: "pool_inv given (lp_pool p)" "wp_stop (lp_pool p) = NoStop" "lp_fetch p \<noteq> FetchEnded"
    using assms(1) StopOffers by (auto simp: processor_inv_def)
  show ?thesis
  proof (cases "lp_fetch p")
    case (Sending r)
    then show ?thesis using pool_can_work [OF i(1,2), of r] assms(2) by (auto simp: stopping_def intro: processor_steps)
  qed (use assms(2) i(3) StopOffers in \<open>auto simp: stopping_def intro: processor_steps\<close>)
next
  case StopsPool
  then obtain given where "pool_inv given (lp_pool p)" "wp_stop (lp_pool p) \<noteq> NoStop"
    using assms(1) by (auto simp: processor_inv_def)
  then show ?thesis using pool_moves [of given "lp_pool p"] StopsPool
    by (cases "wp_stop (lp_pool p) = Stopped") (auto intro: processor_steps)
qed (use assms in \<open>auto simp: stopping_def\<close>)

interpretation processor_end: quiescing "processor_step :: 'r processor \<Rightarrow> _" processor_inv
  stopping "\<lambda>p. lp_stop p = StopReturned" processor_rank
  by unfold_locales (fact processor_inv_preserved stopping_falls stopping_moves)+

section \<open>Properties\<close>

text \<open>Before \<open>Stop\<close> is called it has not been called, and the goroutine that was started runs.\<close>

lemma step_keeps:
  assumes "processor_step p rs p'"
  shows "lp_stop p' = StopNotCalled \<longleftrightarrow> lp_stop p = StopNotCalled"
    "lp_fetch p' = NotRunning \<longleftrightarrow> lp_fetch p = NotRunning" "wp_size (lp_pool p') = wp_size (lp_pool p)"
  using assms by (auto elim!: processor_stepE fetchRecords_stepE simp: pool_Stop_def dest: pool_size_kept)

lemma execs_keeps:
  "execs processor_step n p rs p' \<Longrightarrow> (lp_stop p' = StopNotCalled \<longleftrightarrow> lp_stop p = StopNotCalled) \<and>
     (lp_fetch p' = NotRunning \<longleftrightarrow> lp_fetch p = NotRunning) \<and> wp_size (lp_pool p') = wp_size (lp_pool p)"
  by (induction rule: execs.induct) (simp_all add: step_keeps)

text \<open>A processor that was created with \<open>n\<close> workers, started, and ran for a while.\<close>

definition running_processor :: "int \<Rightarrow> 'r list \<Rightarrow> 'r processor \<Rightarrow> bool" where
  "running_processor n rs p = (\<exists>m. execs processor_step m
     (fst (processor_Start (None :: string option) None (processor_Init n))) rs p)"

lemma running_processorD:
  assumes "running_processor n rs p"
  shows "processor_inv rs (processor_Stop p)" "lp_stop p = StopNotCalled" "lp_fetch p \<noteq> NotRunning" "wp_size (lp_pool p) = n"
proof -
  obtain m where e: "execs processor_step m ((processor_Init n)\<lparr>lp_fetch := AtSelect\<rparr>) rs p"
    using assms by (auto simp: running_processor_def processor_Start_def)
  show k: "lp_stop p = StopNotCalled" "lp_fetch p \<noteq> NotRunning" "wp_size (lp_pool p) = n"
    using execs_keeps [OF e] by (simp_all add: processor_Init_def pool_Start_def NewWorkerPool_def)
  show "processor_inv rs (processor_Stop p)"
    using processor_inv_Stop [OF processor.reachable [OF e processor_inv_Start(2)] k(1)] .
qed

text \<open>C18. A log processor loses no record when it is stopped: whatever the schedule, when \<open>Stop\<close> has
  returned, the records whose handler has finished are those that were read from the pipeline, each
  as often as it was read, those read while \<open>Stop\<close> was waiting included. Nothing is on its way to the
  pool, and no goroutine is left.\<close>

theorem processor_stop_loses_nothing:
  assumes "running_processor n rs p" and "execs processor_step m (processor_Stop p) rs' p'"
    and "lp_stop p' = StopReturned"
  shows "mset (wp_finished (lp_pool p')) = mset (rs @ rs') \<and> lp_fetch p' = FetchEnded \<and> set (wp_gors (lp_pool p')) \<subseteq> {Gone}"
proof -
  have "processor_inv (rs @ rs') p'"
    using processor.execs_hinv [OF assms(2) running_processorD(1) [OF assms(1)]] .
  then obtain given where i: "mset (rs @ rs') = mset given" "pool_inv given (lp_pool p')"
    "wp_stop (lp_pool p') = Stopped" "lp_fetch p' = FetchEnded"
    using assms(3) by (auto simp: processor_inv_def)
  then show ?thesis using Stopped_all_done [OF i(2,3)] by simp
qed

lemma running_stopping:
  fixes p :: "'r processor"
  assumes "running_processor n rs p" "0 < n"
  shows "stopping (processor_Stop p)" "processor_rank (processor_Stop p) \<le> 3 * nat n + 9"
proof -
  note d = running_processorD [OF assms(1)]
  show "stopping (processor_Stop p)" using d(3,4) assms(2) by (simp add: stopping_def processor_Stop_def)
  have g: "length (wp_gors (lp_pool p)) = nat n" "wp_stop (lp_pool p) = NoStop"
    using d(1,4) by (auto simp: processor_inv_def processor_Stop_def pool_inv_def)
  have "sum_list (map gor_rank gs) \<le> 3 * length gs" for gs :: "'r goroutine list"
  proof (induction gs)
    case (Cons g gs)
    then show ?case by (cases g) auto
  qed simp
  then have "sum_list (map gor_rank (wp_gors (lp_pool p))) \<le> 3 * nat n" using g(1) by metis
  moreover have "fetch_rank (lp_fetch p) \<le> 4" by (cases "lp_fetch p") auto
  ultimately show "processor_rank (processor_Stop p) \<le> 3 * nat n + 9"
    using g(2) by (simp add: processor_rank_def processor_Stop_def pool_rank_def)
qed


text \<open>Without the goroutine of \<open>fetchRecords\<close> nobody receives what \<open>Stop\<close> sends.\<close>

interpretation not_started: history_invariant "processor_step :: 'r processor \<Rightarrow> _"
  "\<lambda>rs p. rs = [] \<and> lp_fetch p = NotRunning \<and> lp_stop p = StopOffers"
  by unfold_locales (auto elim!: processor_stepE fetchRecords_stepE)

text \<open>A processor whose pipeline reader or writer could not be opened cannot be stopped: \<open>Start\<close> reports
  the error, and \<open>Stop\<close> blocks for ever on the send to a goroutine that was never started.\<close>

lemma failed_start_stop_hangs:
  assumes "processor_Start readerOpen writerOpen (processor_Init n :: 'r processor) = (p, Some err)"
    and "execs processor_step m (processor_Stop p) rs p'"
  shows "lp_stop p' = StopOffers \<and> rs = []"
proof -
  have p: "p = processor_Init n" using assms(1) by (auto simp: processor_Start_def split: option.splits)
  then show ?thesis using not_started.reachable [OF assms(2)] by (simp add: p processor_Init_def processor_Stop_def)
qed

section \<open>A run\<close>

text \<open>One worker and one record: it is read and handled, then the processor is stopped.\<close>

abbreviation ex_proc :: "string fetch_pc \<Rightarrow> string pool \<Rightarrow> proc_stop \<Rightarrow> int \<Rightarrow> string processor" where
  "ex_proc f w st n \<equiv> \<lparr>lp_fetch = f, lp_pool = w, lp_stop = st, lp_wait = n\<rparr>"

abbreviation ex_handling :: "string processor" where
  "ex_handling \<equiv> ex_proc AtSelect (ex_pool True (Busy ''r'') 1 NoStop []) StopNotCalled 1"

lemma ex_running: "running_processor 1 [''r''] ex_handling"
proof -
  let ?w = "ex_pool True Idle 1 NoStop []"
  have s: "processor_step (ex_proc AtSelect ?w StopNotCalled 1) [] (ex_proc Reading ?w StopNotCalled 1)"
    "processor_step (ex_proc Reading ?w StopNotCalled 1) [''r''] (ex_proc (Sending ''r'') ?w StopNotCalled 1)"
    "processor_step (ex_proc (Sending ''r'') ?w StopNotCalled 1) [] ex_handling"
    using processor_steps(2) [of "ex_proc AtSelect ?w StopNotCalled 1"]
      processor_steps(3) [of "ex_proc Reading ?w StopNotCalled 1" "''r''"]
      processor_steps(6) [of "ex_proc (Sending ''r'') ?w StopNotCalled 1" "''r''"] ex_pool_steps(1) [of "''r''"]
    by simp_all
  have "execs processor_step 3 (ex_proc AtSelect ?w StopNotCalled 1) [''r''] ex_handling"
    using execs_front [where step = processor_step, OF s(1) execs_front_label [where step = processor_step, OF s(2) execs_one [of processor_step, OF s(3)]]] by (simp add: eval_nat_numeral)
  then show ?thesis
    by (auto simp: running_processor_def processor_Start_def processor_Init_def pool_Start_def NewWorkerPool_def)
qed

abbreviation ex_done :: "string processor" where
  "ex_done \<equiv> ex_proc FetchEnded (ex_pool False Gone 0 Stopped [''r'']) StopReturned 0"

lemma ex_stopping: "execs processor_step 7 (processor_Stop ex_handling) [] ex_done"
proof -
  let ?p = "\<lambda>w. ex_proc FetchEnded w StopsPool 0"
  have p: "execs pool_step n w rs w' \<Longrightarrow> rs = [] \<Longrightarrow> execs processor_step n (?p w) [] (?p w')" for n w rs w'
  proof (induction rule: execs.induct)
    case (execs_step n w rs w' ks w'')
    then show ?case using execs.execs_step [of processor_step n "?p w" "[]" "?p w'" "[]" "?p w''"] workers [of "?p w'" w''] by simp
  qed simp
  have "processor_step (processor_Stop ex_handling) [] (?p (pool_Stop (ex_pool True (Busy ''r'') 1 NoStop [])))"
    using processor_steps(1) [of "processor_Stop ex_handling"] by (simp add: processor_Stop_def)
  moreover have "processor_step (?p (ex_pool False Gone 0 Stopped [''r''])) [] ex_done"
    using processor_steps(8) [of "?p (ex_pool False Gone 0 Stopped [''r''])"] by simp
  ultimately show ?thesis
    using execs_front [where step = processor_step, OF _ execs_step [OF p [OF ex_pool_runs(2)]]] by (simp add: eval_nat_numeral)
qed

theorem processor_stop_loses_nothing_witness:
  "running_processor 1 [''r''] ex_handling \<and> execs processor_step 7 (processor_Stop ex_handling) [] ex_done \<and>
   mset (wp_finished (lp_pool ex_done)) = mset [''r'']"
  using processor_stop_loses_nothing [OF ex_running ex_stopping] ex_running ex_stopping by simp


end
