(* ===== verification/Writer_Lifecycle.thy ===== *)
theory Writer_Lifecycle
  imports Transition
begin

text \<open>
  The life of a log writer (\<open>fetchRecords\<close>, \<open>jobHandler\<close>, \<open>Start\<close> and \<open>Stop\<close> of the seven
  \<open>pkg/log_writers/*/writer.go\<close>): one goroutine reads records from the pipeline into a channel with
  \<open>NumWorkers\<close> places, another takes them out and writes them. \<open>Stop\<close> tells the first one to end; it
  passes the signal on to the second, which shuts the storage down. What \<open>jobHandler\<close> does with one
  record is modelled in \<open>Log_Writer\<close>, \<open>File_Writer\<close>, \<open>Neap_Storage\<close> and \<open>Producer_Storage\<close>; here a
  record is being written, and has been written. The seven writers differ in two ways: \<open>Stop\<close> of the
  file system writer does not wait, and five of them have a case of their own for a closed reader.
\<close>

section \<open>State\<close>

text \<open>Where \<open>fetchRecords\<close> is: not started, at the \<open>select\<close>, in \<open>Read\<close>, in \<open>time.Sleep\<close>, in the send
  on \<open>records\<close>, in the send on \<open>jobHandlerSignal\<close>, or returned.\<close>

datatype 'r wfetch_pc = WNotRunning | WAtSelect | WReading | WSleeping | WSending 'r | WSignals | WEnded

text \<open>Where \<open>jobHandler\<close> is: not started, at the \<open>select\<close>, writing a record, or in \<open>Shutdown\<close> of the
  storage. It never returns.\<close>

datatype 'r handler_pc = HNotRunning | HAtSelect | HWriting 'r | HShutsDown

datatype wstop_pc = WStopNotCalled | WStopOffers | WStopWaits | WStopReturned

text \<open>The two ways in which the writers differ: whether \<open>Stop\<close> adds itself to \<open>awaitShutdown\<close> (and the
  handler removes it), and whether a closed reader is tried again without a pause.\<close>

record writer_kind =
  wk_waits :: bool
  wk_closed_case :: bool

record 'r log_writer =
  lw_kind :: writer_kind
  lw_cap :: nat
  lw_fetch :: "'r wfetch_pc"
  lw_chan :: "'r list"
  lw_handler :: "'r handler_pc"
  lw_written :: "'r list"
  lw_closed :: bool
  lw_await :: int
  lw_stop :: wstop_pc

definition storage_writer :: writer_kind where
  "storage_writer = \<lparr>wk_waits = True, wk_closed_case = True\<rparr>"

definition fluentd_writer :: writer_kind where
  "fluentd_writer = \<lparr>wk_waits = True, wk_closed_case = False\<rparr>"

definition filesystem_writer :: writer_kind where
  "filesystem_writer = \<lparr>wk_waits = False, wk_closed_case = False\<rparr>"

text \<open>The part of \<open>NewLogWriter\<close> that makes the channels; \<open>make\<close> panics for a negative size.\<close>

definition new_channels :: "writer_kind \<Rightarrow> int \<Rightarrow> 'r log_writer option" where
  "new_channels k numWorkers =
     (if numWorkers < 0 then None
      else Some \<lparr>lw_kind = k, lw_cap = nat numWorkers, lw_fetch = WNotRunning, lw_chan = [], lw_handler = HNotRunning,
                 lw_written = [], lw_closed = False, lw_await = 0, lw_stop = WStopNotCalled\<rparr>)"

definition writer_Start :: "'e option \<Rightarrow> 'r log_writer \<Rightarrow> 'r log_writer \<times> 'e option" where
  "writer_Start readerOpen l =
     (case readerOpen of
        Some err \<Rightarrow> (l, Some err)
      | None \<Rightarrow> (l\<lparr>lw_handler := HAtSelect, lw_fetch := WAtSelect\<rparr>, None))"

definition wait_count :: "'r log_writer \<Rightarrow> int" where
  "wait_count l = (if wk_waits (lw_kind l) then 1 else 0)"

definition writer_Stop :: "'r log_writer \<Rightarrow> 'r log_writer" where
  "writer_Stop l = l\<lparr>lw_await := lw_await l + wait_count l, lw_stop := WStopOffers\<rparr>"

section \<open>Steps\<close>

text \<open>The label has the record a read returns. A send on \<open>records\<close> succeeds when there is a free place,
  or when the handler waits at the other end of the empty channel.\<close>

inductive writer_fetch_step :: "'r log_writer \<Rightarrow> 'r list \<Rightarrow> 'r log_writer \<Rightarrow> bool" where
  shutdown: "lw_fetch l = WAtSelect \<Longrightarrow> lw_stop l = WStopOffers \<Longrightarrow>
    writer_fetch_step l [] (l\<lparr>lw_fetch := WSignals, lw_stop := WStopWaits\<rparr>)"
| default: "lw_fetch l = WAtSelect \<Longrightarrow> lw_stop l \<noteq> WStopOffers \<Longrightarrow> writer_fetch_step l [] (l\<lparr>lw_fetch := WReading\<rparr>)"
| read_record: "lw_fetch l = WReading \<Longrightarrow> writer_fetch_step l [r] (l\<lparr>lw_fetch := WSending r\<rparr>)"
| read_error: "lw_fetch l = WReading \<Longrightarrow> writer_fetch_step l [] (l\<lparr>lw_fetch := WSleeping\<rparr>)"
| reader_closed: "lw_fetch l = WReading \<Longrightarrow> wk_closed_case (lw_kind l) \<Longrightarrow> writer_fetch_step l [] (l\<lparr>lw_fetch := WAtSelect\<rparr>)"
| wake: "lw_fetch l = WSleeping \<Longrightarrow> writer_fetch_step l [] (l\<lparr>lw_fetch := WAtSelect\<rparr>)"
| send: "lw_fetch l = WSending r \<Longrightarrow> length (lw_chan l) < lw_cap l \<Longrightarrow>
    writer_fetch_step l [] (l\<lparr>lw_fetch := WAtSelect, lw_chan := lw_chan l @ [r]\<rparr>)"
| hand_over: "lw_fetch l = WSending r \<Longrightarrow> lw_chan l = [] \<Longrightarrow> lw_handler l = HAtSelect \<Longrightarrow>
    writer_fetch_step l [] (l\<lparr>lw_fetch := WAtSelect, lw_handler := HWriting r\<rparr>)"

text \<open>When there are both a record and the signal, the \<open>select\<close> takes either.\<close>

inductive jobHandler_step :: "'r log_writer \<Rightarrow> 'r list \<Rightarrow> 'r log_writer \<Rightarrow> bool" where
  take_record: "lw_handler l = HAtSelect \<Longrightarrow> lw_chan l = r # rs \<Longrightarrow>
    jobHandler_step l [] (l\<lparr>lw_handler := HWriting r, lw_chan := rs\<rparr>)"
| written: "lw_handler l = HWriting r \<Longrightarrow> jobHandler_step l [] (l\<lparr>lw_handler := HAtSelect, lw_written := lw_written l @ [r]\<rparr>)"
| take_signal: "lw_handler l = HAtSelect \<Longrightarrow> lw_fetch l = WSignals \<Longrightarrow>
    jobHandler_step l [] (l\<lparr>lw_handler := HShutsDown, lw_fetch := WEnded\<rparr>)"
| shut_down: "lw_handler l = HShutsDown \<Longrightarrow>
    jobHandler_step l [] (l\<lparr>lw_handler := HAtSelect, lw_closed := True, lw_await := lw_await l - wait_count l\<rparr>)"

inductive writer_step :: "'r log_writer \<Rightarrow> 'r list \<Rightarrow> 'r log_writer \<Rightarrow> bool" where
  fetch: "writer_fetch_step l rs l' \<Longrightarrow> writer_step l rs l'"
| handler: "jobHandler_step l rs l' \<Longrightarrow> writer_step l rs l'"
| return: "lw_stop l = WStopWaits \<Longrightarrow> lw_await l = 0 \<Longrightarrow> writer_step l [] (l\<lparr>lw_stop := WStopReturned\<rparr>)"

inductive_cases writer_stepE: "writer_step l rs l'"
inductive_cases writer_fetch_stepE: "writer_fetch_step l rs l'"
inductive_cases jobHandler_stepE: "jobHandler_step l rs l'"

lemmas writer_elims = writer_stepE writer_fetch_stepE jobHandler_stepE

lemmas writer_steps = fetch [OF shutdown] fetch [OF default] fetch [OF read_record] fetch [OF read_error]
  fetch [OF reader_closed] fetch [OF wake] fetch [OF send] fetch [OF hand_over]
  handler [OF take_record] handler [OF written] handler [OF take_signal] handler [OF shut_down] return

text \<open>The methods of \<open>elasticsearch/writer.go\<close> stand for those of the other six packages, which repeat
  them; where two kinds of writers differ, the kind decides.\<close>

abbreviation os_Start :: "'e option \<Rightarrow> 'r log_writer \<Rightarrow> 'r log_writer \<times> 'e option" where
  "os_Start \<equiv> writer_Start"

abbreviation os_Stop :: "'r log_writer \<Rightarrow> 'r log_writer" where
  "os_Stop \<equiv> writer_Stop"

abbreviation mongo_Start :: "'e option \<Rightarrow> 'r log_writer \<Rightarrow> 'r log_writer \<times> 'e option" where
  "mongo_Start \<equiv> writer_Start"

abbreviation mongo_Stop :: "'r log_writer \<Rightarrow> 'r log_writer" where
  "mongo_Stop \<equiv> writer_Stop"

abbreviation neap_Start :: "'e option \<Rightarrow> 'r log_writer \<Rightarrow> 'r log_writer \<times> 'e option" where
  "neap_Start \<equiv> writer_Start"

abbreviation neap_Stop :: "'r log_writer \<Rightarrow> 'r log_writer" where
  "neap_Stop \<equiv> writer_Stop"

abbreviation mlp_Start :: "'e option \<Rightarrow> 'r log_writer \<Rightarrow> 'r log_writer \<times> 'e option" where
  "mlp_Start \<equiv> writer_Start"

abbreviation mlp_Stop :: "'r log_writer \<Rightarrow> 'r log_writer" where
  "mlp_Stop \<equiv> writer_Stop"

abbreviation fluentd_Start :: "'e option \<Rightarrow> 'r log_writer \<Rightarrow> 'r log_writer \<times> 'e option" where
  "fluentd_Start \<equiv> writer_Start"

abbreviation fluentd_Stop :: "'r log_writer \<Rightarrow> 'r log_writer" where
  "fluentd_Stop \<equiv> writer_Stop"

abbreviation fs_Start :: "'e option \<Rightarrow> 'r log_writer \<Rightarrow> 'r log_writer \<times> 'e option" where
  "fs_Start \<equiv> writer_Start"

abbreviation fs_Stop :: "'r log_writer \<Rightarrow> 'r log_writer" where
  "fs_Stop \<equiv> writer_Stop"

section \<open>Invariant\<close>

fun wsending :: "'r wfetch_pc \<Rightarrow> 'r list" where
  "wsending (WSending r) = [r]"
| "wsending _ = []"

fun hwriting :: "'r handler_pc \<Rightarrow> 'r list" where
  "hwriting (HWriting r) = [r]"
| "hwriting _ = []"

text \<open>The records that were read and not yet written, oldest first.\<close>

definition unwritten :: "'r log_writer \<Rightarrow> 'r list" where
  "unwritten l = hwriting (lw_handler l) @ lw_chan l @ wsending (lw_fetch l)"

fun wphases_ok :: "'r log_writer \<Rightarrow> wstop_pc \<Rightarrow> bool" where
  "wphases_ok l WStopNotCalled = (lw_fetch l \<noteq> WSignals \<and> lw_fetch l \<noteq> WEnded \<and> lw_handler l \<noteq> HShutsDown \<and> lw_await l = 0)"
| "wphases_ok l WStopOffers = (lw_fetch l \<noteq> WSignals \<and> lw_fetch l \<noteq> WEnded \<and> lw_handler l \<noteq> HShutsDown \<and> lw_await l = wait_count l)"
| "wphases_ok l _ =
     (lw_fetch l = WSignals \<and> lw_handler l \<noteq> HShutsDown \<and> lw_await l = wait_count l \<or>
      lw_fetch l = WEnded \<and> lw_handler l = HShutsDown \<and> lw_await l = wait_count l \<or>
      lw_fetch l = WEnded \<and> lw_handler l \<noteq> HShutsDown \<and> lw_await l = 0 \<and> lw_closed l)"

definition writer_inv :: "'r list \<Rightarrow> 'r log_writer \<Rightarrow> bool" where
  "writer_inv rs l = (rs = lw_written l @ unwritten l \<and> length (lw_chan l) \<le> lw_cap l \<and>
     (lw_fetch l = WEnded \<longrightarrow> length (unwritten l) \<le> lw_cap l) \<and> wphases_ok l (lw_stop l) \<and>
     (lw_stop l = WStopReturned \<longrightarrow> lw_await l = 0) \<and> (lw_fetch l = WNotRunning \<longleftrightarrow> lw_handler l = HNotRunning))"

lemma writer_order:
  "writer_step l rs l' \<Longrightarrow> lw_written l' @ unwritten l' = lw_written l @ unwritten l @ rs"
  by (auto elim!: writer_elims simp: unwritten_def)

lemma writer_chan: "writer_step l rs l' \<Longrightarrow> length (lw_chan l) \<le> lw_cap l \<Longrightarrow> length (lw_chan l') \<le> lw_cap l' \<and> lw_cap l' = lw_cap l \<and> lw_kind l' = lw_kind l"
  by (auto elim!: writer_elims)

lemma writer_ended:
  "writer_step l rs l' \<Longrightarrow> length (lw_chan l) \<le> lw_cap l \<Longrightarrow> lw_fetch l = WEnded \<longrightarrow> length (unwritten l) \<le> lw_cap l \<Longrightarrow>
     lw_fetch l' = WEnded \<longrightarrow> length (unwritten l') \<le> lw_cap l'"
  by (auto elim!: writer_elims simp: unwritten_def)

lemma writer_phases: "writer_step l rs l' \<Longrightarrow> wphases_ok l (lw_stop l) \<Longrightarrow> wphases_ok l' (lw_stop l')"
  by (cases "lw_stop l") (auto elim!: writer_elims simp: wait_count_def)

lemma writer_returned:
  "writer_step l rs l' \<Longrightarrow> wphases_ok l (lw_stop l) \<Longrightarrow> lw_stop l = WStopReturned \<longrightarrow> lw_await l = 0 \<Longrightarrow>
     lw_stop l' = WStopReturned \<longrightarrow> lw_await l' = 0"
  by (auto elim!: writer_elims)

lemma writer_running:
  "writer_step l rs l' \<Longrightarrow> (lw_fetch l = WNotRunning \<longleftrightarrow> lw_handler l = HNotRunning) \<Longrightarrow>
     (lw_fetch l' = WNotRunning \<longleftrightarrow> lw_fetch l = WNotRunning) \<and> (lw_handler l' = HNotRunning \<longleftrightarrow> lw_handler l = HNotRunning)"
  by (auto elim!: writer_elims)

lemma writer_inv_preserved: "writer_inv hs l \<Longrightarrow> writer_step l rs l' \<Longrightarrow> writer_inv (hs @ rs) l'"
  unfolding writer_inv_def
  using writer_order [of l rs l'] writer_chan [of l rs l'] writer_ended [of l rs l'] writer_phases [of l rs l']
    writer_returned [of l rs l'] writer_running [of l rs l'] by (elim conjE, intro conjI) simp_all

interpretation writer: history_invariant "writer_step :: 'r log_writer \<Rightarrow> _" writer_inv
  by unfold_locales (rule writer_inv_preserved)

section \<open>Stop comes to an end\<close>

fun wfetch_rank :: "'r wfetch_pc \<Rightarrow> nat" where
  "wfetch_rank WReading = 7"
| "wfetch_rank (WSending _) = 6"
| "wfetch_rank WSleeping = 4"
| "wfetch_rank WAtSelect = 3"
| "wfetch_rank WSignals = 2"
| "wfetch_rank _ = 0"

fun wstop_rank :: "wstop_pc \<Rightarrow> nat" where
  "wstop_rank WStopNotCalled = 3"
| "wstop_rank WStopOffers = 2"
| "wstop_rank WStopWaits = 1"
| "wstop_rank WStopReturned = 0"

fun handler_rank :: "'r handler_pc \<Rightarrow> nat" where
  "handler_rank (HWriting _) = 1"
| "handler_rank HShutsDown = 1"
| "handler_rank _ = 0"

definition writer_rank :: "'r log_writer \<Rightarrow> nat" where
  "writer_rank l = wfetch_rank (lw_fetch l) + 2 * length (lw_chan l) + handler_rank (lw_handler l) + wstop_rank (lw_stop l)"

definition writer_stopping :: "'r log_writer \<Rightarrow> bool" where
  "writer_stopping l = (lw_stop l \<noteq> WStopNotCalled \<and> lw_fetch l \<noteq> WNotRunning)"

lemma writer_stopping_falls:
  assumes "writer_inv hs l" "writer_stopping l" "writer_step l rs l'"
  shows "writer_stopping l' \<and> writer_rank l' < writer_rank l"
proof -
  have "lw_fetch l = WAtSelect \<Longrightarrow> lw_stop l = WStopOffers"
    using assms(1,2) by (cases "lw_stop l") (auto simp: writer_inv_def writer_stopping_def)
  then show ?thesis using assms(2,3) by (auto elim!: writer_elims simp: writer_stopping_def writer_rank_def)
qed

text \<open>A handler that is not shutting down can take a record or finish one.\<close>

lemma handler_moves:
  assumes "lw_handler l \<noteq> HNotRunning" "lw_handler l \<noteq> HShutsDown" "lw_chan l \<noteq> [] \<or> lw_handler l \<noteq> HAtSelect"
  shows "\<exists>rs l'. writer_step l rs l'"
proof (cases "lw_handler l")
  case HAtSelect
  then show ?thesis using assms by (cases "lw_chan l") (auto intro: writer_steps)
qed (use assms in \<open>auto intro: writer_steps\<close>)

lemma writer_stopping_moves:
  assumes "writer_inv hs l" "writer_stopping l" "lw_stop l \<noteq> WStopReturned"
  shows "\<exists>rs l'. writer_step l rs l'"
proof (cases "lw_stop l")
  case WStopOffers
  then have h: "lw_handler l \<noteq> HNotRunning" "lw_handler l \<noteq> HShutsDown" "lw_fetch l \<noteq> WSignals" "lw_fetch l \<noteq> WEnded"
    using assms by (auto simp: writer_inv_def writer_stopping_def)
  show ?thesis
  proof (cases "lw_fetch l")
    case (WSending r)
    then show ?thesis using handler_moves [OF h(1,2)] by (cases "lw_chan l = [] \<and> lw_handler l = HAtSelect") (auto intro: writer_steps)
  qed (use assms(2) h WStopOffers in \<open>auto simp: writer_stopping_def intro: writer_steps\<close>)
next
  case WStopWaits
  then consider "lw_fetch l = WSignals" "lw_handler l \<noteq> HShutsDown" "lw_handler l \<noteq> HNotRunning"
    | "lw_handler l = HShutsDown" | "lw_await l = 0"
    using assms by (auto simp: writer_inv_def writer_stopping_def)
  then show ?thesis
  proof cases
    case 1
    then show ?thesis using handler_moves [of l] by (cases "lw_handler l = HAtSelect") (auto intro: writer_steps)
  qed (use WStopWaits in \<open>auto intro: writer_steps\<close>)
qed (use assms in \<open>auto simp: writer_stopping_def\<close>)

interpretation writer_end: quiescing "writer_step :: 'r log_writer \<Rightarrow> _" writer_inv
  writer_stopping "\<lambda>l. lw_stop l = WStopReturned" writer_rank
  by unfold_locales (fact writer_inv_preserved writer_stopping_falls writer_stopping_moves)+

section \<open>Properties\<close>

text \<open>A writer that was created with \<open>n\<close> places in its channel, started, and ran for a while; \<open>rs\<close>
  are the records it has read.\<close>

definition running_writer :: "writer_kind \<Rightarrow> int \<Rightarrow> 'r list \<Rightarrow> 'r log_writer \<Rightarrow> bool" where
  "running_writer k n rs l = (\<exists>l0 m. new_channels k n = Some l0 \<and>
     execs writer_step m (fst (writer_Start (None :: string option) l0)) rs l)"

lemma writer_execs_keeps:
  "execs writer_step m l rs l' \<Longrightarrow> lw_kind l' = lw_kind l \<and> lw_cap l' = lw_cap l \<and>
     (lw_stop l' = WStopNotCalled \<longleftrightarrow> lw_stop l = WStopNotCalled) \<and> (lw_fetch l' = WNotRunning \<longleftrightarrow> lw_fetch l = WNotRunning)"
proof (induction rule: execs.induct)
  case (execs_step m l rs l' ks l'')
  then show ?case by (auto elim!: writer_elims)
qed simp

lemma running_writerD:
  assumes "running_writer k n rs l"
  shows "writer_inv rs (writer_Stop l)" "writer_stopping (writer_Stop l)" "lw_cap l = nat n" "lw_kind l = k"
proof -
  obtain l0 m where l0: "new_channels k n = Some l0" "execs writer_step m (fst (writer_Start (None :: string option) l0)) rs l"
    using assms by (auto simp: running_writer_def)
  have "writer_inv [] (fst (writer_Start (None :: string option) l0))"
    using l0(1) by (auto simp: new_channels_def writer_Start_def writer_inv_def unwritten_def split: if_splits)
  then have i: "writer_inv rs l" using writer.reachable [OF l0(2)] by blast
  show k: "lw_cap l = nat n" "lw_kind l = k"
    using writer_execs_keeps [OF l0(2)] l0(1) by (auto simp: new_channels_def writer_Start_def split: if_splits)
  have "lw_stop l = WStopNotCalled" "lw_fetch l \<noteq> WNotRunning"
    using writer_execs_keeps [OF l0(2)] l0(1) by (auto simp: new_channels_def writer_Start_def split: if_splits)
  then show "writer_inv rs (writer_Stop l)" "writer_stopping (writer_Stop l)"
    using i by (auto simp: writer_inv_def writer_Stop_def wait_count_def unwritten_def writer_stopping_def)
qed


text \<open>C22. \<open>Stop\<close> of a log writer returns: after the call no schedule has more than \<open>2 n + 10\<close> steps,
  and one that cannot go on has returned from \<open>Stop\<close>. The reader, and \<open>Write\<close> and \<open>Shutdown\<close> of the
  storage, are taken to return.\<close>

theorem writer_stop_returns:
  assumes "running_writer k n rs l" "execs writer_step m (writer_Stop l) rs' l'"
  shows "m \<le> 2 * nat n + 10 \<and> ((\<nexists>fs q. writer_step l' fs q) \<longrightarrow> lw_stop l' = WStopReturned)"
proof (intro conjI impI)
  note d = running_writerD [OF assms(1)]
  have "wfetch_rank (lw_fetch l) \<le> 7" "handler_rank (lw_handler l) \<le> 1"
    by (cases "lw_fetch l"; simp) (cases "lw_handler l"; simp)
  moreover have "length (lw_chan l) \<le> nat n" using d(1,3) by (simp add: writer_inv_def writer_Stop_def)
  ultimately have "writer_rank (writer_Stop l) \<le> 2 * nat n + 10" by (simp add: writer_rank_def writer_Stop_def)
  then show "m \<le> 2 * nat n + 10" using writer_end.rank_bounds [OF assms(2) d(1,2)] by simp
  show "lw_stop l' = WStopReturned" if "\<nexists>fs q. writer_step l' fs q"
    using writer_end.stuck_is_final [OF assms(2) d(1,2) that] .
qed

text \<open>Records can fill the channel while the handler waits to be scheduled.\<close>

lemma channel_fills:
  "lw_fetch l = WAtSelect \<Longrightarrow> lw_stop l = WStopNotCalled \<Longrightarrow> length (lw_chan l) + length rs \<le> lw_cap l \<Longrightarrow>
     \<exists>m. execs writer_step m l rs (l\<lparr>lw_chan := lw_chan l @ rs\<rparr>)"
proof (induction rs arbitrary: l)
  case (Cons r rs)
  let ?l = "l\<lparr>lw_fetch := WAtSelect, lw_chan := lw_chan l @ [r]\<rparr>"
  have s: "writer_step l [] (l\<lparr>lw_fetch := WReading\<rparr>)"
    "writer_step (l\<lparr>lw_fetch := WReading\<rparr>) [r] (l\<lparr>lw_fetch := WSending r\<rparr>)"
    "writer_step (l\<lparr>lw_fetch := WSending r\<rparr>) [] ?l"
    using writer_steps(2) [of l] writer_steps(3) [of "l\<lparr>lw_fetch := WReading\<rparr>" r]
      writer_steps(7) [of "l\<lparr>lw_fetch := WSending r\<rparr>" r] Cons.prems by simp_all
  obtain m where "execs writer_step m ?l rs (?l\<lparr>lw_chan := lw_chan ?l @ rs\<rparr>)" using Cons.IH [of ?l] Cons.prems by auto
  moreover have "?l\<lparr>lw_chan := lw_chan ?l @ rs\<rparr> = l\<lparr>lw_chan := lw_chan l @ r # rs\<rparr>" using Cons.prems by simp
  ultimately have "execs writer_step m ?l rs (l\<lparr>lw_chan := lw_chan l @ r # rs\<rparr>)" by metis
  then show ?case
    using execs_front [where step = writer_step, OF s(1) execs_front_label [where step = writer_step, OF s(2)
      execs_front [where step = writer_step, OF s(3)]]] by blast
qed (auto intro: execs_refl)

lemma wait_count_upd [simp]:
  "wait_count (lw_fetch_update f l) = wait_count l" "wait_count (lw_await_update g l) = wait_count l"
  "wait_count (lw_stop_update h l) = wait_count l" "wait_count (lw_handler_update i l) = wait_count l"
  by (simp_all add: wait_count_def)

lemma stop_before_records:
  assumes "lw_fetch l = WAtSelect" "lw_handler l = HAtSelect" "lw_await l = 0"
  shows "execs writer_step 4 (writer_Stop l) []
    (l\<lparr>lw_fetch := WEnded, lw_closed := True, lw_await := 0, lw_stop := WStopReturned\<rparr>)"
proof -
  let ?a = "l\<lparr>lw_await := wait_count l, lw_fetch := WSignals, lw_stop := WStopWaits\<rparr>"
  let ?b = "?a\<lparr>lw_handler := HShutsDown, lw_fetch := WEnded\<rparr>"
  let ?c = "?b\<lparr>lw_handler := HAtSelect, lw_closed := True, lw_await := 0\<rparr>"
  have s: "writer_step (writer_Stop l) [] ?a" "writer_step ?a [] ?b" "writer_step ?b [] ?c"
    "writer_step ?c [] (?c\<lparr>lw_stop := WStopReturned\<rparr>)"
    using writer_steps(1) [of "writer_Stop l"] writer_steps(11) [of ?a] writer_steps(12) [of ?b] writer_steps(13) [of ?c] assms
    by (simp_all add: writer_Stop_def)
  have "?c\<lparr>lw_stop := WStopReturned\<rparr> = l\<lparr>lw_fetch := WEnded, lw_closed := True, lw_await := 0, lw_stop := WStopReturned\<rparr>"
    using assms(2) by simp
  then show ?thesis
    using execs_front [where step = writer_step, OF s(1) execs_front [where step = writer_step, OF s(2)
      execs_front [where step = writer_step, OF s(3) execs_one [of writer_step, OF s(4)]]]] by (simp add: eval_nat_numeral)
qed

text \<open>The bound on what a stop leaves behind is reached: for any records that fit into the channel
  there is a schedule in which all of them are read from the pipeline and \<open>Stop\<close> returns, with the
  storage shut down, before one of them is written. The \<open>select\<close> of \<open>jobHandler\<close> may take the signal
  while records wait in the channel, and nothing drains it.\<close>

lemma writer_stop_can_lose_records:
  assumes "int (length rs) \<le> n"
  shows "\<exists>l m l'. running_writer k n rs l \<and> execs writer_step m (writer_Stop l) [] l' \<and>
    lw_stop l' = WStopReturned \<and> lw_closed l' \<and> lw_written l' = [] \<and> lw_chan l' = rs"
proof -
  obtain l0 :: "'a log_writer" where l0: "new_channels k n = Some l0" using assms by (simp add: new_channels_def)
  let ?s = "fst (writer_Start (None :: string option) l0)"
  let ?l = "?s\<lparr>lw_chan := rs\<rparr>"
  have f: "lw_fetch ?s = WAtSelect" "lw_stop ?s = WStopNotCalled" "lw_chan ?s = []" "lw_cap ?s = nat n" "lw_written ?s = []"
    "lw_handler ?s = HAtSelect" "lw_await ?s = 0"
    using l0 by (auto simp: new_channels_def writer_Start_def split: if_splits)
  have "running_writer k n rs ?l"
    using channel_fills [OF f(1,2), of rs] f(3,4) assms l0 unfolding running_writer_def by auto
  moreover have "execs writer_step 4 (writer_Stop ?l) []
      (?l\<lparr>lw_fetch := WEnded, lw_closed := True, lw_await := 0, lw_stop := WStopReturned\<rparr>)"
    using stop_before_records [of ?l] f by simp
  ultimately show ?thesis using f(5)
    by (intro exI [of _ ?l] exI [of _ 4]
      exI [of _ "?l\<lparr>lw_fetch := WEnded, lw_closed := True, lw_await := 0, lw_stop := WStopReturned\<rparr>"]) simp
qed

text \<open>\<open>Stop\<close> of the file system writer does not wait for anything: it returns as soon as the reading
  goroutine has the signal, whatever the handler is doing and whatever is in the channel.\<close>

lemma filesystem_stop_does_not_wait:
  assumes "running_writer filesystem_writer n rs l" "lw_fetch l = WAtSelect"
  shows "execs writer_step 2 (writer_Stop l) [] (l\<lparr>lw_fetch := WSignals, lw_stop := WStopReturned\<rparr>)"
proof -
  note d = running_writerD [OF assms(1)]
  have w: "wait_count l = 0" "lw_await l = 0"
    using d(1,4) by (auto simp: filesystem_writer_def wait_count_def writer_inv_def writer_Stop_def)
  let ?a = "l\<lparr>lw_fetch := WSignals, lw_stop := WStopWaits\<rparr>"
  have "writer_Stop l = l\<lparr>lw_stop := WStopOffers\<rparr>" using w by (simp add: writer_Stop_def)
  then have "writer_step (writer_Stop l) [] ?a" "writer_step ?a [] (?a\<lparr>lw_stop := WStopReturned\<rparr>)"
    using writer_steps(1) [of "writer_Stop l"] writer_steps(13) [of ?a] assms(2) w by simp_all
  then have "execs writer_step 2 (writer_Stop l) [] (?a\<lparr>lw_stop := WStopReturned\<rparr>)"
    using execs_front [where step = writer_step, OF _ execs_one [of writer_step]] by (metis Suc_1)
  then show ?thesis by simp
qed

section \<open>A run\<close>

text \<open>The same schedule shows what the bound on the unwritten records and the bound on the steps say.\<close>

lemma ex_writer_stop:
  "\<exists>l l'. running_writer storage_writer 5 [''a'', ''b''] l \<and> execs writer_step 4 (writer_Stop l) [] l' \<and>
     lw_stop l' = WStopReturned \<and> lw_chan l' = [''a'', ''b'']"
proof -
  obtain l0 :: "string log_writer" where l0: "new_channels storage_writer 5 = Some l0" by (simp add: new_channels_def)
  let ?s = "fst (writer_Start (None :: string option) l0)"
  let ?l = "?s\<lparr>lw_chan := [''a'', ''b'']\<rparr>"
  have f: "lw_fetch ?s = WAtSelect" "lw_stop ?s = WStopNotCalled" "lw_chan ?s = []" "lw_cap ?s = 5"
    "lw_handler ?s = HAtSelect" "lw_await ?s = 0"
    using l0 by (auto simp: new_channels_def writer_Start_def split: if_splits)
  then show ?thesis using channel_fills [OF f(1,2), of "[''a'', ''b'']"] l0 stop_before_records [of ?l]
    unfolding running_writer_def by fastforce
qed


theorem writer_stop_returns_witness:
  "\<exists>l l'. running_writer storage_writer 5 [''a'', ''b''] l \<and> execs writer_step 4 (writer_Stop l) [] l' \<and>
     (4 :: nat) \<le> 2 * nat 5 + 10 \<and> ((\<exists>fs q. writer_step l' fs q) \<or> lw_stop l' = WStopReturned)"
proof -
  obtain l l' where r: "running_writer storage_writer 5 [''a'', ''b''] l" "execs writer_step 4 (writer_Stop l) [] l'"
    using ex_writer_stop by blast
  show ?thesis using writer_stop_returns [OF r] r by auto
qed

lemma writer_stop_can_lose_records_example:
  "\<exists>l m l'. running_writer storage_writer 5 [''a'', ''b''] l \<and> execs writer_step m (writer_Stop l) [] l' \<and>
     lw_stop l' = WStopReturned \<and> lw_closed l' \<and> lw_written l' = [] \<and> lw_chan l' = [''a'', ''b'']"
  using writer_stop_can_lose_records [of "[''a'', ''b'']" 5 storage_writer] by simp

end
