(* ===== verification/Configuration.thy ===== *)
theory Configuration
  imports Transport Processor_Lifecycle Writer_Lifecycle Neap_Storage Producer_Storage Log_Fetcher "HOL-Library.AList"
begin

text \<open>
  How the programs are put together from their configuration: the registries of factories
  (\<open>log_writer.go\<close>, \<open>log_processor.go\<close>, \<open>log_fetcher.go\<close>, \<open>cache.go\<close>), the configuration of the
  processors and of the seven writers with its defaults and environment variables, the rate limiter,
  the creation of processors and writers, and \<open>Run\<close> of the three commands under \<open>cmd\<close>. The YAML library
  is a parameter that merges the text of a file into the defaults, or fails. A file that cannot be read
  leaves the defaults. \<^term>\<open>None\<close> is the death of the process, by a panic or by \<open>log.Fatalf\<close>.
\<close>

section \<open>Fatal errors\<close>

text \<open>An error after which \<open>log.Fatalf\<close> or \<open>log.Panicf\<close> is called.\<close>

definition die_on_error :: "'e + 'a \<Rightarrow> 'a option" where
  "die_on_error r = (case r of Inl _ \<Rightarrow> None | Inr x \<Rightarrow> Some x)"

lemma die_on_error_Some [simp]: "die_on_error r = Some x \<longleftrightarrow> r = Inr x"
  by (cases r) (simp_all add: die_on_error_def)

lemma die_on_error_simps [simp]: "die_on_error (Inl e) = None" "die_on_error (Inr x) = Some x"
  by (simp_all add: die_on_error_def)

section \<open>Registries\<close>

text \<open>The four packages have the same code. A factory may be nil.\<close>

definition factory_Register :: "(string \<times> 'f) list \<Rightarrow> string \<Rightarrow> 'f option \<Rightarrow> (string \<times> 'f) list option" where
  "factory_Register reg name factory = (case factory of None \<Rightarrow> None | Some f \<Rightarrow> Some (AList.update name f reg))"

text \<open>The error has the names there are.\<close>

definition create_named :: "(string \<times> 'f) list \<Rightarrow> string \<Rightarrow> string list + 'f" where
  "create_named reg name = (case map_of reg name of None \<Rightarrow> Inl (map fst reg) | Some f \<Rightarrow> Inr f)"

abbreviation writer_Register :: "(string \<times> 'f) list \<Rightarrow> string \<Rightarrow> 'f option \<Rightarrow> (string \<times> 'f) list option" where
  "writer_Register \<equiv> factory_Register"

abbreviation processor_Register :: "(string \<times> 'f) list \<Rightarrow> string \<Rightarrow> 'f option \<Rightarrow> (string \<times> 'f) list option" where
  "processor_Register \<equiv> factory_Register"

abbreviation fetcher_Register :: "(string \<times> 'f) list \<Rightarrow> string \<Rightarrow> 'f option \<Rightarrow> (string \<times> 'f) list option" where
  "fetcher_Register \<equiv> factory_Register"

abbreviation cache_Register :: "(string \<times> 'f) list \<Rightarrow> string \<Rightarrow> 'f option \<Rightarrow> (string \<times> 'f) list option" where
  "cache_Register \<equiv> factory_Register"

abbreviation CreateLogWriter :: "(string \<times> 'f) list \<Rightarrow> string \<Rightarrow> string list + 'f" where
  "CreateLogWriter \<equiv> create_named"

abbreviation CreateLogProcessor :: "(string \<times> 'f) list \<Rightarrow> string \<Rightarrow> string list + 'f" where
  "CreateLogProcessor \<equiv> create_named"

abbreviation CreateLogFetcher :: "(string \<times> 'f) list \<Rightarrow> string \<Rightarrow> string list + 'f" where
  "CreateLogFetcher \<equiv> create_named"

text \<open>The factories that are registered when the program starts.\<close>

datatype writer_factory = Filesystem_writer | Elasticsearch_writer | Opensearch_writer | Mongodb_writer | Fluentd_writer
  | Neap_writer | Mix_log_producer_writer

datatype processor_factory = Mix_default_processor | Mix_bi_processor | Noop_processor

datatype fetcher_factory = Mix_log_api_fetcher

datatype cache_factory = Local_cache | Redis_cache

fun register_all :: "(string \<times> 'f) list \<Rightarrow> (string \<times> 'f) list \<Rightarrow> (string \<times> 'f) list option" where
  "register_all reg [] = Some reg"
| "register_all reg ((n, f) # fs) = do { reg' \<leftarrow> factory_Register reg n (Some f); register_all reg' fs }"

definition writers_init :: "(string \<times> writer_factory) list option" where
  "writers_init = register_all []
     [(''filesystem'', Filesystem_writer), (''elasticsearch'', Elasticsearch_writer), (''opensearch'', Opensearch_writer),
      (''mongodb'', Mongodb_writer), (''fluentd'', Fluentd_writer), (''neap'', Neap_writer),
      (''mix-log-producer-api'', Mix_log_producer_writer)]"

definition processors_init :: "(string \<times> processor_factory) list option" where
  "processors_init = register_all []
     [(''mix-default'', Mix_default_processor), (''mix-bi'', Mix_bi_processor), (''noop'', Noop_processor)]"

definition fetchers_init :: "(string \<times> fetcher_factory) list option" where
  "fetchers_init = register_all [] [(''mix-log-api'', Mix_log_api_fetcher)]"

definition caches_init :: "(string \<times> cache_factory) list option" where
  "caches_init = register_all [] [(''local'', Local_cache), (''redis'', Redis_cache)]"

section \<open>Caches\<close>

record CacheConfig =
  cc_Type :: string
  cc_Expiration :: int
  cc_Network :: string
  cc_Addr :: string
  cc_Password :: string
  cc_DB :: int
  cc_MaxRetries :: int
  cc_MinRetryBackoff :: int
  cc_MaxRetryBackoff :: int
  cc_DialTimeout :: int
  cc_ReadTimeout :: int
  cc_WriteTimeout :: int
  cc_PoolSize :: int
  cc_MinIdleConns :: int
  cc_MaxConnAge :: int
  cc_PoolTimeout :: int
  cc_IdleTimeout :: int
  cc_IdleCheckFrequency :: int
  cc_DefaultTTL :: int

text \<open>The options handed to the Redis client; the others of the configuration are not.\<close>

record redis_cache_options =
  ro_Addr :: string
  ro_Password :: string
  ro_DB :: int
  ro_IdleTimeout :: int
  ro_IdleCheckFrequency :: int

datatype 'r cache_object = LocalCache_obj ttl_cache | RedisCache_obj "'r redis_cache" redis_cache_options

definition NewRedisCache :: "(redis_cache_options \<Rightarrow> 'r redis_client option \<times> 'r) \<Rightarrow> CacheConfig \<Rightarrow> 'r cache_object" where
  "NewRedisCache connect config =
     (let opts = \<lparr>ro_Addr = cc_Addr config, ro_Password = cc_Password config, ro_DB = cc_DB config,
                  ro_IdleTimeout = cc_IdleTimeout config, ro_IdleCheckFrequency = cc_IdleCheckFrequency config\<rparr>;
          (client, r) = connect opts
      in RedisCache_obj \<lparr>ru_Client = client, ru_DefaultTTL = wrap64 (cc_DefaultTTL config * 1000000000), ru_state = r\<rparr> opts)"

definition CreateCache ::
  "(nat \<Rightarrow> int) \<Rightarrow> (redis_cache_options \<Rightarrow> 'r redis_client option \<times> 'r) \<Rightarrow> (string \<times> cache_factory) list \<Rightarrow> CacheConfig \<Rightarrow>
   string list + 'r cache_object" where
  "CreateCache clock connect reg config =
     (case create_named reg (cc_Type config) of
        Inl names \<Rightarrow> Inl names
      | Inr Local_cache \<Rightarrow> Inr (LocalCache_obj (NewLocalCache (cc_Expiration config) clock))
      | Inr Redis_cache \<Rightarrow> Inr (NewRedisCache connect config))"

section \<open>Rate limiter\<close>

record RateLimit =
  rl_Limit :: dec
  rl_Burst :: int

text \<open>A limiter of the library is given by the time between two events in nanoseconds, none for no limit,
  and the burst. The quotient is taken exactly, then cut to whole milliseconds, and the product is one
  of 64 bits. For a limit of zero the quotient is infinite, and for one near zero it does not fit: the
  language does not specify what its conversion to an integer is.\<close>

record limiter =
  li_interval :: "int option"
  li_burst :: int

definition NewRateLimiter :: "RateLimit \<Rightarrow> limiter option" where
  "NewRateLimiter config =
     (let interval = tdiv (1000 * 10 ^ scale (rl_Limit config)) (mant (rl_Limit config));
          every = wrap64 (interval * 1000000)
      in if mant (rl_Limit config) = 0 \<or> \<not> in_int64 interval then None
         else Some \<lparr>li_interval = (if every \<le> 0 then None else Some every), li_burst = rl_Burst config\<rparr>)"

section \<open>Processor configuration\<close>

record ProcessorConfig =
  pf_NumWorkers :: int
  pf_FilterConfig :: FilterConfig
  pf_CacheConfig :: CacheConfig

record LogProcessorYaml =
  py_Name :: string
  py_Config :: ProcessorConfig

definition DefaultLogProcessorYaml :: LogProcessorYaml where
  "DefaultLogProcessorYaml =
     \<lparr>py_Name = ''noop'',
      py_Config =
        \<lparr>pf_NumWorkers = 1, pf_FilterConfig = \<lparr>fc_Type = ''blacklist'', fc_ContentType = []\<rparr>,
         pf_CacheConfig =
           \<lparr>cc_Type = ''local'', cc_Expiration = 3600, cc_Network = [], cc_Addr = ''redis:6379'', cc_Password = [], cc_DB = 0,
            cc_MaxRetries = 0, cc_MinRetryBackoff = 0, cc_MaxRetryBackoff = 0, cc_DialTimeout = 0, cc_ReadTimeout = 0,
            cc_WriteTimeout = 0, cc_PoolSize = 0, cc_MinIdleConns = 0, cc_MaxConnAge = 0, cc_PoolTimeout = 0, cc_IdleTimeout = 0,
            cc_IdleCheckFrequency = 0, cc_DefaultTTL = 3600\<rparr>\<rparr>\<rparr>"

definition from_file :: "(string \<Rightarrow> 'c \<Rightarrow> 'c option) \<Rightarrow> 'c \<Rightarrow> string option \<Rightarrow> 'c option" where
  "from_file yaml dflt content = (case content of None \<Rightarrow> Some dflt | Some text \<Rightarrow> yaml text dflt)"

text \<open>No environment variable is read here.\<close>

definition LoadConfigFromFile ::
  "(string \<Rightarrow> LogProcessorYaml \<Rightarrow> LogProcessorYaml option) \<Rightarrow> string option \<Rightarrow> LogProcessorYaml option" where
  "LoadConfigFromFile yaml content = from_file yaml DefaultLogProcessorYaml content"

text \<open>What a file holds, as the two YAML structures a processor reads it into, and the outside world.\<close>

record 'r world =
  wo_brokers :: brokers
  wo_tmp :: string
  wo_clock :: "nat \<Rightarrow> int"
  wo_redis :: "redis_cache_options \<Rightarrow> 'r redis_client option \<times> 'r"
  wo_openQueue :: "string \<Rightarrow> string option"

record ('j, 'r) processor_object =
  po_Name :: string
  po_Cfg :: ProcessorConfig
  po_flow :: processor_factory
  po_cache :: "'r cache_object"
  po_reader :: "reader option"
  po_writer :: "pipe_writer option"
  po_life :: "'j processor"

text \<open>\<open>NewLogProcessor\<close> of a processor with \<open>Init\<close> of the base processor, given the two results of loading
  the configuration: the channel \<open>Records\<close> panics for a negative size, and every error is fatal.\<close>

definition new_processor ::
  "'r world \<Rightarrow> processor_factory \<Rightarrow> LogProcessorYaml option \<Rightarrow> PipelineParams option \<Rightarrow> ('j, 'r) processor_object option" where
  "new_processor wo flow yml pipe =
     do { cfg \<leftarrow> yml;
          (if pf_NumWorkers (py_Config cfg) < 0 then None else Some ());
          reg \<leftarrow> caches_init;
          cache \<leftarrow> die_on_error (CreateCache (wo_clock wo) (wo_redis wo) reg (pf_CacheConfig (py_Config cfg)));
          rd \<leftarrow> CreateReader (wo_brokers wo) pipe PROCESSOR;
          rd' \<leftarrow> die_on_error rd;
          wr \<leftarrow> CreateWriter (wo_brokers wo) pipe PROCESSOR;
          wr' \<leftarrow> die_on_error wr;
          Some \<lparr>po_Name = py_Name cfg, po_Cfg = py_Config cfg, po_flow = flow, po_cache = cache, po_reader = rd', po_writer = wr',
                po_life = processor_Init (pf_NumWorkers (py_Config cfg))\<rparr> }"

abbreviation mix_default_NewLogProcessor ::
  "'r world \<Rightarrow> LogProcessorYaml option \<Rightarrow> PipelineParams option \<Rightarrow> ('j, 'r) processor_object option" where
  "mix_default_NewLogProcessor wo \<equiv> new_processor wo Mix_default_processor"

abbreviation mix_bi_NewLogProcessor ::
  "'r world \<Rightarrow> LogProcessorYaml option \<Rightarrow> PipelineParams option \<Rightarrow> ('j, 'r) processor_object option" where
  "mix_bi_NewLogProcessor wo \<equiv> new_processor wo Mix_bi_processor"

abbreviation noop_NewLogProcessor ::
  "'r world \<Rightarrow> LogProcessorYaml option \<Rightarrow> PipelineParams option \<Rightarrow> ('j, 'r) processor_object option" where
  "noop_NewLogProcessor wo \<equiv> new_processor wo Noop_processor"

text \<open>\<open>Start\<close> of a processor that exists.\<close>

definition object_Start :: "'r world \<Rightarrow> ('j, 'r) processor_object \<Rightarrow> (('j, 'r) processor_object \<times> string option) option" where
  "object_Start wo p =
     do { readerOpen \<leftarrow> reader_Open (wo_openQueue wo) (po_reader p);
          writerOpen \<leftarrow> (if readerOpen = None then writer_Open (wo_openQueue wo) (po_writer p) else Some None);
          let (life, err) = processor_Start readerOpen writerOpen (po_life p)
          in Some (p\<lparr>po_life := life\<rparr>, err) }"

section \<open>Registries find what was registered\<close>

text \<open>A second registration of a name replaces the first one.\<close>

lemma register_lookup:
  "factory_Register reg n (Some f) = Some reg' \<Longrightarrow> map_of reg' = (map_of reg)(n \<mapsto> f)"
  by (auto simp: factory_Register_def update_conv')

lemma register_overwrites:
  "factory_Register reg n (Some f) = Some reg' \<Longrightarrow> factory_Register reg' n (Some g) = Some reg'' \<Longrightarrow> create_named reg'' n = Inr g"
  by (simp add: create_named_def register_lookup)

lemma register_all_lookup:
  "\<exists>reg'. register_all reg fs = Some reg' \<and> map_of reg' = map_of reg ++ map_of (rev fs)"
proof (induction fs arbitrary: reg)
  case (Cons p fs)
  obtain n f where p: "p = (n, f)" by (cases p)
  obtain reg1 where r: "factory_Register reg n (Some f) = Some reg1" by (simp add: factory_Register_def)
  have "(map_of reg)(n \<mapsto> f) ++ map_of (rev fs) = map_of reg ++ ([n \<mapsto> f] ++ map_of (rev fs))"
    by (simp only: map_add_assoc map_add_upd map_add_empty)
  then show ?case using Cons.IH [of reg1] by (auto simp: p r register_lookup [OF r] simp del: fun_upd_apply)
qed simp

lemma registered_names:
  "create_named (the writers_init) ''filesystem'' = Inr Filesystem_writer"
  "create_named (the writers_init) ''elasticsearch'' = Inr Elasticsearch_writer"
  "create_named (the writers_init) ''mix-log-producer-api'' = Inr Mix_log_producer_writer"
  "create_named (the processors_init) ''mix-default'' = Inr Mix_default_processor"
  "create_named (the fetchers_init) ''mix-log-api'' = Inr Mix_log_api_fetcher"
  "create_named (the caches_init) ''local'' = Inr Local_cache"
  "create_named (the caches_init) ''memory'' = Inl [''local'', ''redis'']"
  by (simp_all add: writers_init_def processors_init_def fetchers_init_def caches_init_def factory_Register_def create_named_def)

section \<open>Limits and times\<close>

text \<open>C37. The rate limiter allows at least the configured number of events per second: the time between
  two events, times the limit, is at most one second, and the cut to whole milliseconds loses less than
  a millisecond. A limit above 1000 per second is no limit at all. (The hypothesis excludes limits so
  small that the interval overflows.)\<close>

theorem rate_limiter_bounds:
  assumes "rl_Limit config = Dec m s" "0 < m" "10 ^ s \<le> m * 9223372036"
  shows "\<exists>l. NewRateLimiter config = Some l \<and> li_burst l = rl_Burst config \<and>
    (li_interval l = None \<longleftrightarrow> 1000 * 10 ^ s < m) \<and>
    (\<forall>i. li_interval l = Some i \<longrightarrow> i * m \<le> 1000000000 * 10 ^ s \<and> 1000000000 * 10 ^ s < (i + 1000000) * m)"
proof -
  define q where "q = 1000 * 10 ^ s div m"
  have q0: "0 \<le> q" using assms(2) by (simp add: q_def pos_imp_zdiv_nonneg_iff)
  have e: "1000 * 10 ^ s = q * m + 1000 * 10 ^ s mod m" unfolding q_def by (rule div_mult_mod_eq [symmetric])
  have r: "0 \<le> 1000 * 10 ^ s mod m" "1000 * 10 ^ s mod m < m" using assms(2) by simp_all
  have lo: "q * m \<le> 1000 * 10 ^ s" using e r by linarith
  have hi: "1000 * 10 ^ s < (q + 1) * m" unfolding distrib_right using e r by linarith
  have "q * m \<le> 9223372036000 * m" using lo assms(3) by linarith
  then have q1: "q \<le> 9223372036000" using assms(2) mult_le_cancel_right_pos [of m q] by blast
  have t: "tdiv (1000 * 10 ^ s) m = q" using assms(2) by (simp add: q_def tdiv_nonneg)
  have w: "wrap64 (q * 1000000) = q * 1000000" using q0 q1 by (simp add: wrap64_id in_int64_def)
  have n: "NewRateLimiter config =
      Some \<lparr>li_interval = (if q * 1000000 \<le> 0 then None else Some (q * 1000000)), li_burst = rl_Burst config\<rparr>"
    using assms(1,2) q0 q1 by (simp add: NewRateLimiter_def t w Let_def in_int64_def)
  have z: "q = 0 \<longleftrightarrow> 1000 * 10 ^ s < m"
  proof
    assume "1000 * 10 ^ s < m"
    then have "q * m < 1 * m" using lo by linarith
    then show "q = 0" using q0 assms(2) mult_less_cancel_right_pos [of m q 1] by linarith
  qed (use hi in simp)
  have "q * 1000000 \<le> 0 \<longleftrightarrow> q = 0" using q0 by auto
  then show ?thesis using lo hi z by (auto simp: n algebra_simps)
qed

theorem rate_limiter_bounds_witness:
  "NewRateLimiter \<lparr>rl_Limit = Dec 10 0, rl_Burst = 1\<rparr> = Some \<lparr>li_interval = Some 100000000, li_burst = 1\<rparr> \<and>
   100000000 * (10 :: int) \<le> 1000000000 * 10 ^ 0"
proof -
  have c: "NewRateLimiter \<lparr>rl_Limit = Dec 10 0, rl_Burst = 1\<rparr> = Some \<lparr>li_interval = Some 100000000, li_burst = 1\<rparr>" by code_simp
  show ?thesis using rate_limiter_bounds [of "\<lparr>rl_Limit = Dec 10 0, rl_Burst = 1\<rparr>" 10 0] c by simp
qed

text \<open>The number of seconds a cached record lives is multiplied out in 64 bits: a duration such as \<open>10s\<close>,
  which the YAML library reads as nanoseconds, is not what it says.\<close>

lemma cache_expiration_overflow:
  "wrap64 (3600 * 1000000000) = 3600 * 1000000000" "wrap64 (10000000000 * 1000000000) = -8446744073709551616"
  by code_simp+

end
