(* ===== verification/Storage_Shutdown.thy ===== *)
theory Storage_Shutdown
  imports Worker_Pool Neap_Storage Producer_Storage
begin

text \<open>
  The inside of a storage that writes in batches (Elasticsearch, OpenSearch, NEAP and the log producer
  API): \<open>Write\<close> sends a job to the worker pool, a worker passes it to the commit handler, which
  collects batches; \<open>Shutdown\<close> stops the pool and then tells the handler to commit what it has. The
  worker pool and the commit handlers are those of \<open>Worker_Pool\<close>, \<open>Bulk_Storage\<close>, \<open>Neap_Storage\<close> and
  \<open>Producer_Storage\<close>; here they are put together, once for all the storages.
\<close>

section \<open>The system\<close>

datatype shut_pc = ShutNotCalled | ShutStopsPool | ShutSignalled

record ('h, 'b) storage_system =
  ss_pool :: "Job pool"
  ss_handler :: 'h
  ss_batches :: "'b list"
  ss_shut :: shut_pc

text \<open>\<open>NewStorage\<close>: one worker unless the configuration asks for another number.\<close>

definition storage_init :: "int \<Rightarrow> 'h \<Rightarrow> ('h, 'b) storage_system" where
  "storage_init numWorkers h =
     \<lparr>ss_pool = pool_Start (NewWorkerPool (if numWorkers \<noteq> 0 then numWorkers else 1)),
      ss_handler = h, ss_batches = [], ss_shut = ShutNotCalled\<rparr>"

definition storage_Shutdown :: "('h, 'b) storage_system \<Rightarrow> ('h, 'b) storage_system" where
  "storage_Shutdown s = s\<lparr>ss_pool := pool_Stop (ss_pool s), ss_shut := ShutStopsPool\<rparr>"

abbreviation os_Shutdown :: "('h, 'b) storage_system \<Rightarrow> ('h, 'b) storage_system" where
  "os_Shutdown \<equiv> storage_Shutdown"

abbreviation neap_Shutdown :: "('h, 'b) storage_system \<Rightarrow> ('h, 'b) storage_system" where
  "neap_Shutdown \<equiv> storage_Shutdown"

abbreviation mlp_Shutdown :: "('h, 'b) storage_system \<Rightarrow> ('h, 'b) storage_system" where
  "mlp_Shutdown \<equiv> storage_Shutdown"

text \<open>The label has the job of a \<open>Write\<close>. The channel from the workers to the handler is unbuffered: a
  worker is done with a job when the handler has it.\<close>

inductive storage_step ::
  "(int \<Rightarrow> handler_event \<Rightarrow> 'h \<Rightarrow> 'h \<times> 'b list) \<Rightarrow> ('h, 'b) storage_system \<Rightarrow> Job list \<Rightarrow> ('h, 'b) storage_system \<Rightarrow> bool"
  for turn where
  accept: "pool_step (ss_pool s) [job] w \<Longrightarrow> storage_step turn s [job] (s\<lparr>ss_pool := w\<rparr>)"
| pass_on: "pool_step (ss_pool s) [] w \<Longrightarrow> wp_finished w = wp_finished (ss_pool s) @ [job] \<Longrightarrow>
    turn now (GotRecord job) (ss_handler s) = (h, bs) \<Longrightarrow>
    storage_step turn s [] (s\<lparr>ss_pool := w, ss_handler := h, ss_batches := ss_batches s @ bs\<rparr>)"
| tick: "turn now Tick (ss_handler s) = (h, bs) \<Longrightarrow>
    storage_step turn s [] (s\<lparr>ss_handler := h, ss_batches := ss_batches s @ bs\<rparr>)"
| pool_only: "pool_step (ss_pool s) [] w \<Longrightarrow> wp_finished w = wp_finished (ss_pool s) \<Longrightarrow>
    storage_step turn s [] (s\<lparr>ss_pool := w\<rparr>)"
| signal_done: "ss_shut s = ShutStopsPool \<Longrightarrow> wp_stop (ss_pool s) = Stopped \<Longrightarrow>
    turn now Stop (ss_handler s) = (h, bs) \<Longrightarrow>
    storage_step turn s [] (s\<lparr>ss_handler := h, ss_batches := ss_batches s @ bs, ss_shut := ShutSignalled\<rparr>)"

inductive_cases storage_stepE: "storage_step turn s js t"

section \<open>The contract\<close>

locale pooled_storage = batch_handler turn "\<lambda>ev. ev = Stop" item pack pending
  for turn :: "int \<Rightarrow> handler_event \<Rightarrow> 'h \<Rightarrow> 'h \<times> 'b list" and item :: "handler_event \<Rightarrow> 'd list"
    and pack :: "'d list \<Rightarrow> 'b" and pending :: "'h \<Rightarrow> 'd list \<Rightarrow> bool" +
  assumes tick_brings_nothing: "item Tick = []"
begin

text \<open>What the handler has received is in the batches, followed by what it still keeps.\<close>

definition holds :: "'h \<Rightarrow> 'b list \<Rightarrow> 'd list \<Rightarrow> 'd list \<Rightarrow> bool" where
  "holds h bs rest received = (\<exists>out. bs = map pack out \<and> [] \<notin> set out \<and> pending h rest \<and> concat out @ rest = received)"

lemma holds_turn:
  assumes "holds h bs rest received" "turn now ev h = (h', bs')"
  shows "\<exists>rest'. holds h' (bs @ bs') rest' (received @ item ev) \<and> (ev = Stop \<or> rest @ item ev = [] \<longrightarrow> rest' = [])"
proof -
  obtain out where o: "bs = map pack out" "[] \<notin> set out" "pending h rest" "concat out @ rest = received"
    using assms(1) by (auto simp: holds_def)
  obtain out' rest' where "bs' = map pack out'" "[] \<notin> set out'" "pending h' rest'" "concat out' @ rest' = rest @ item ev"
    "ev = Stop \<longrightarrow> rest' = []"
    using turn_splits [OF o(3) assms(2)] by blast
  then show ?thesis using o by (intro exI [of _ rest']) (auto simp: holds_def intro!: exI [of _ "out @ out'"])
qed

text \<open>A tick with nothing kept makes no batch.\<close>

lemma holds_rest_empty: "holds h bs rest received \<Longrightarrow> holds h bs' rest' received \<Longrightarrow> rest = [] \<Longrightarrow> length bs' = length bs \<Longrightarrow> True"
  by simp

definition storage_inv :: "Job list \<Rightarrow> ('h, 'b) storage_system \<Rightarrow> bool" where
  "storage_inv js s = (pool_inv js (ss_pool s) \<and>
     (\<exists>rest. holds (ss_handler s) (ss_batches s) rest (concat (map (\<lambda>j. item (GotRecord j)) (wp_finished (ss_pool s)))) \<and>
        (ss_shut s = ShutSignalled \<longrightarrow> rest = [] \<and> wp_stop (ss_pool s) = Stopped)))"

lemma storage_inv_preserved:
  assumes "storage_inv hs s" "storage_step turn s js t"
  shows "storage_inv (hs @ js) t"
proof -
  obtain rest where i: "pool_inv hs (ss_pool s)"
    "holds (ss_handler s) (ss_batches s) rest (concat (map (\<lambda>j. item (GotRecord j)) (wp_finished (ss_pool s))))"
    "ss_shut s = ShutSignalled \<longrightarrow> rest = [] \<and> wp_stop (ss_pool s) = Stopped"
    using assms(1) by (auto simp: storage_inv_def)
  have live: "ss_shut s \<noteq> ShutSignalled" if "pool_step (ss_pool s) ks w" for ks w
    using Stopped_no_step [OF i(1)] i(3) that by blast
  from assms(2) show ?thesis
  proof (rule storage_stepE)
    fix job w assume w: "js = [job]" "t = s\<lparr>ss_pool := w\<rparr>" "pool_step (ss_pool s) [job] w"
    then have "wp_finished w = wp_finished (ss_pool s)" by (auto elim: pool_step_cases)
    then show ?thesis using w i(2) live pool_inv_preserved [OF i(1) w(3)] by (auto simp: storage_inv_def)
  next
    fix w job now h bs
    assume w: "js = []" "t = s\<lparr>ss_pool := w, ss_handler := h, ss_batches := ss_batches s @ bs\<rparr>" "pool_step (ss_pool s) [] w"
      "wp_finished w = wp_finished (ss_pool s) @ [job]" "turn now (GotRecord job) (ss_handler s) = (h, bs)"
    then show ?thesis using holds_turn [OF i(2) w(5)] live pool_inv_preserved [OF i(1) w(3)] by (auto simp: storage_inv_def)
  next
    fix now h bs
    assume w: "js = []" "t = s\<lparr>ss_handler := h, ss_batches := ss_batches s @ bs\<rparr>" "turn now Tick (ss_handler s) = (h, bs)"
    then show ?thesis using holds_turn [OF i(2) w(3)] tick_brings_nothing i(1,3) by (auto simp: storage_inv_def)
  next
    fix w assume w: "js = []" "t = s\<lparr>ss_pool := w\<rparr>" "pool_step (ss_pool s) [] w" "wp_finished w = wp_finished (ss_pool s)"
    then show ?thesis using i(2) live pool_inv_preserved [OF i(1) w(3)] by (auto simp: storage_inv_def)
  next
    fix now h bs
    assume w: "js = []" "t = s\<lparr>ss_handler := h, ss_batches := ss_batches s @ bs, ss_shut := ShutSignalled\<rparr>"
      "wp_stop (ss_pool s) = Stopped" "turn now Stop (ss_handler s) = (h, bs)"
    then show ?thesis using holds_turn [OF i(2) w(4)] stop_brings_nothing [of Stop] i(1) by (auto simp: storage_inv_def)
  qed
qed

end

sublocale pooled_storage \<subseteq> sys: history_invariant "storage_step turn" storage_inv
  by unfold_locales (rule storage_inv_preserved)

context pooled_storage
begin

lemma storage_inv_init: "pending h [] \<Longrightarrow> storage_inv [] (storage_init n h)"
  by (simp add: storage_inv_def storage_init_def holds_def pool_inv_Start)

lemma storage_running:
  "execs (storage_step turn) m s js t \<Longrightarrow> wp_stop (ss_pool s) = NoStop \<Longrightarrow> wp_started (ss_pool s) \<Longrightarrow> ss_shut s = ShutNotCalled \<Longrightarrow>
     wp_stop (ss_pool t) = NoStop \<and> wp_started (ss_pool t) \<and> ss_shut t = ShutNotCalled"
proof (induction rule: execs.induct)
  case (execs_step m s js t ks u)
  then show ?case using NoStop_kept started_kept by (fastforce elim!: storage_stepE)
qed simp

text \<open>When the handler has been told to stop, every job that was ever sent is in one batch.\<close>

lemma shutdown_complete:
  assumes "pending h []" "execs (storage_step turn) m (storage_init n h) js s"
    and "execs (storage_step turn) m' (storage_Shutdown s) ks t" "ss_shut t = ShutSignalled"
  shows "\<exists>out. ss_batches t = map pack out \<and> [] \<notin> set out \<and> set (wp_gors (ss_pool t)) \<subseteq> {Gone} \<and>
    mset (concat out) = mset (concat (map (\<lambda>j. item (GotRecord j)) (js @ ks)))"
proof -
  have r: "wp_stop (ss_pool s) = NoStop" "wp_started (ss_pool s)" "ss_shut s = ShutNotCalled"
    using storage_running [OF assms(2)] by (simp_all add: storage_init_def pool_Start_def NewWorkerPool_def)
  have "storage_inv js s" using sys.reachable [OF assms(2) storage_inv_init [OF assms(1)]] .
  then have "storage_inv js (storage_Shutdown s)"
    using pool_inv_Stop [OF _ r(2,1)] by (auto simp: storage_inv_def storage_Shutdown_def pool_Stop_def)
  then have i: "storage_inv (js @ ks) t" using sys.execs_hinv [OF assms(3)] by blast
  then obtain out where o: "ss_batches t = map pack out" "[] \<notin> set out"
    "concat out = concat (map (\<lambda>j. item (GotRecord j)) (wp_finished (ss_pool t)))" "pool_inv (js @ ks) (ss_pool t)" "wp_stop (ss_pool t) = Stopped"
    using assms(4) by (auto simp: storage_inv_def holds_def)
  have d: "mset (wp_finished (ss_pool t)) = mset (js @ ks)" "set (wp_gors (ss_pool t)) \<subseteq> {Gone}"
    using Stopped_all_done [OF o(4,5)] by auto
  have "mset (concat (map f xs)) = mset (concat (map f ys))" if "mset xs = mset ys" for f :: "Job \<Rightarrow> 'd list" and xs ys
    using that by (metis mset_concat mset_map map_map sum_mset_sum_list)
  then show ?thesis using o d by metis
qed

end

section \<open>The storages meet the contract\<close>

interpretation bulk_storage: pooled_storage commitHandler bulk_item batch_of
  "\<lambda>h ds. buffered (ha_client h) ds \<and> length ds < 1000"
  by unfold_locales (simp add: bulk_item_def)

interpretation neap_storage: pooled_storage neap_turn neap_item neap_batch neap_pending
  by unfold_locales (simp add: neap_item_def)

interpretation mlp_storage: pooled_storage mlp_commitHandler mlp_item id mlp_pending
  by unfold_locales (simp add: mlp_item_def)

text \<open>C29. Shutting down an Elasticsearch or OpenSearch storage loses nothing on the way to the batches:
  whatever the schedule of the workers, the timer and the clients of \<open>Write\<close>, when \<open>Shutdown\<close> has told
  the commit handler to stop, every document that was ever handed to \<open>Write\<close> is in exactly one batch,
  as often as it was handed over, nothing else is, and no worker is left. (Whether the goroutine of the
  last batch is waited for is another matter.)\<close>

theorem bulk_shutdown_batches_every_document:
  assumes "execs (storage_step commitHandler) m (storage_init n (fresh_handler e)) js s"
    and "execs (storage_step commitHandler) m' (storage_Shutdown s) ks t" and "ss_shut t = ShutSignalled"
  shows "\<exists>out. ss_batches t = map batch_of out \<and> [] \<notin> set out \<and> set (wp_gors (ss_pool t)) \<subseteq> {Gone} \<and>
    mset (concat out) = mset (map (\<lambda>j. (jo_DocID j, jo_Body j)) (js @ ks))"
  using bulk_storage.shutdown_complete [OF fresh_handler_buffered assms] by (simp add: bulk_item_def)

text \<open>The same for the two other storages.\<close>

lemma neap_shutdown_batches_every_record:
  assumes "execs (storage_step neap_turn) m (storage_init n (neap_fresh config)) js s"
    and "execs (storage_step neap_turn) m' (storage_Shutdown s) ks t" and "ss_shut t = ShutSignalled"
  shows "\<exists>out. ss_batches t = map neap_batch out \<and> mset (concat out) = mset (map jo_Body (js @ ks))"
  using neap_storage.shutdown_complete [OF neap_fresh_pending assms] by (auto simp: neap_item_def)

lemma mlp_shutdown_batches_every_record:
  assumes "execs (storage_step mlp_commitHandler) m (storage_init n (mlp_fresh c)) js s"
    and "execs (storage_step mlp_commitHandler) m' (storage_Shutdown s) ks t" and "ss_shut t = ShutSignalled"
  shows "mset (concat (ss_batches t)) = mset (map mlp_record (js @ ks))"
  using mlp_storage.shutdown_complete [OF mlp_fresh_pending assms] by (auto simp: mlp_item_def)

section \<open>A run\<close>

text \<open>One job is written, then the storage is shut down.\<close>

abbreviation ex_storage :: "Job pool \<Rightarrow> handler \<Rightarrow> batch list \<Rightarrow> shut_pc \<Rightarrow> (handler, batch) storage_system" where
  "ex_storage w h bs st \<equiv> \<lparr>ss_pool = w, ss_handler = h, ss_batches = bs, ss_shut = st\<rparr>"

lemma ex_storage_accepts:
  "execs (storage_step commitHandler) 1 (storage_init 1 (fresh_handler e)) [j]
     (ex_storage (ex_pool True (Busy j) 1 NoStop []) (fresh_handler e) [] ShutNotCalled)"
  using execs_one [of "storage_step commitHandler", OF accept [of "storage_init 1 (fresh_handler e)" j, OF _]] ex_pool_steps(1) [of j]
  by (simp add: storage_init_def pool_Start_def NewWorkerPool_def)

lemma ex_storage_steps:
  "pool_step w [] w' \<Longrightarrow> wp_finished w' = wp_finished w \<Longrightarrow>
     storage_step commitHandler (ex_storage w h bs st) [] (ex_storage w' h bs st)"
  "pool_step w [] w' \<Longrightarrow> wp_finished w' = wp_finished w @ [j] \<Longrightarrow> commitHandler 0 (GotRecord j) h = (h', bs') \<Longrightarrow>
     storage_step commitHandler (ex_storage w h bs st) [] (ex_storage w' h' (bs @ bs') st)"
  "wp_stop w = Stopped \<Longrightarrow> commitHandler 0 Stop h = (h', bs') \<Longrightarrow>
     storage_step commitHandler (ex_storage w h bs ShutStopsPool) [] (ex_storage w h' (bs @ bs') ShutSignalled)"
  using pool_only [of "ex_storage w h bs st" w' commitHandler] pass_on [of "ex_storage w h bs st" w' j commitHandler 0 h' bs']
    signal_done [of "ex_storage w h bs ShutStopsPool" commitHandler 0 h' bs'] by simp_all

lemma ex_storage_shuts_down:
  "\<exists>t. execs (storage_step commitHandler) 6
     (storage_Shutdown (ex_storage (ex_pool True (Busy j) 1 NoStop []) (fresh_handler e) [] ShutNotCalled)) [] t \<and> ss_shut t = ShutSignalled"
proof -
  obtain h bs where h: "commitHandler 0 (GotRecord j) (fresh_handler e) = (h, bs)" by fastforce
  obtain h' bs' where h': "commitHandler 0 Stop h = (h', bs')" by fastforce
  note p = ex_pool_steps [of j]
  let ?t = "ex_storage (ex_pool False Gone 0 Stopped [j]) h' (bs @ bs') ShutSignalled"
  have "execs (storage_step commitHandler) (Suc (Suc (Suc (Suc (Suc 1)))))
      (ex_storage (ex_pool True (Busy j) 1 (Signalling 0) []) (fresh_handler e) [] ShutStopsPool) [] ?t"
    apply (rule execs_front, rule ex_storage_steps(2) [OF p(2) _ h], simp)
    apply (rule execs_front, rule ex_storage_steps(1) [OF p(3)], simp)
    apply (rule execs_front, rule ex_storage_steps(1) [OF p(4)], simp)
    apply (rule execs_front, rule ex_storage_steps(1) [OF p(5)], simp)
    apply (rule execs_front, rule ex_storage_steps(1) [OF p(6)], simp)
    apply (rule execs_one, use ex_storage_steps(3) [OF _ h'] in simp)
    done
  then show ?thesis by (intro exI [of _ ?t]) (simp add: storage_Shutdown_def pool_Stop_def eval_nat_numeral)
qed

theorem bulk_shutdown_batches_every_document_witness:
  "\<exists>t out. execs (storage_step commitHandler) 6
      (storage_Shutdown (ex_storage (ex_pool True (Busy ex_job) 1 NoStop []) (fresh_handler ex_client) [] ShutNotCalled)) [] t \<and>
    ss_batches t = map batch_of out \<and> mset (concat out) = {#(jo_DocID ex_job, jo_Body ex_job)#}"
proof -
  obtain t where t: "execs (storage_step commitHandler) 6
      (storage_Shutdown (ex_storage (ex_pool True (Busy ex_job) 1 NoStop []) (fresh_handler ex_client) [] ShutNotCalled)) [] t"
    "ss_shut t = ShutSignalled" using ex_storage_shuts_down by blast
  show ?thesis using bulk_shutdown_batches_every_document [OF ex_storage_accepts t] t by auto
qed

end
