(* ===== verification/Writer_Config.thy ===== *)
theory Writer_Config
  imports Configuration Storage_Shutdown
begin

text \<open>
  The configuration of the seven log writers (\<open>loadConfigFromFile\<close>, \<open>getValueFromEnv\<close> and the defaults of
  \<open>pkg/log_writers/*/writer.go\<close>) and their creation (\<open>NewLogWriter\<close>, with \<open>NewStorage\<close> of the package).
  The parts a writer is made of are in \<open>Bulk_Storage\<close>, \<open>Log_Writer\<close>, \<open>Neap_Storage\<close>,
  \<open>Producer_Storage\<close>, \<open>File_Writer\<close> and \<open>Storage_Shutdown\<close>; the client libraries are parameters, given the
  configuration they are called with. \<^term>\<open>None\<close> is the death of the process.
\<close>

section \<open>Common parts\<close>

record 'c LogWriterYaml =
  wy_Name :: string
  wy_Config :: 'c

text \<open>A pointer that may be nil is an option.\<close>

definition getPointerFromEnv :: "(string \<Rightarrow> string option) \<Rightarrow> string \<Rightarrow> string option \<Rightarrow> string option" where
  "getPointerFromEnv env name defaultVal = (case env name of Some val \<Rightarrow> Some val | None \<Rightarrow> defaultVal)"

text \<open>The file is merged into the defaults, then the variables are looked up.\<close>

definition load_with_env ::
  "('c \<Rightarrow> 'c option) \<Rightarrow> (string \<Rightarrow> 'c LogWriterYaml \<Rightarrow> 'c LogWriterYaml option) \<Rightarrow> 'c LogWriterYaml \<Rightarrow> string option \<Rightarrow>
   'c LogWriterYaml option" where
  "load_with_env overlay yaml dflt content =
     do { yml \<leftarrow> from_file yaml dflt content;
          cfg \<leftarrow> overlay (wy_Config yml);
          Some (yml\<lparr>wy_Config := cfg\<rparr>) }"

text \<open>A writer that has been created: its name, its configuration, its goroutines and channels, its
  reader and its storage.\<close>

record ('c, 's) writer_object =
  lo_name :: string
  lo_cfg :: 'c
  lo_life :: "string log_writer"
  lo_reader :: "reader option"
  lo_storage :: 's

definition NewLogWriter ::
  "brokers \<Rightarrow> writer_kind \<Rightarrow> ('c \<Rightarrow> int) \<Rightarrow> ('c \<Rightarrow> 's option) \<Rightarrow> 'c LogWriterYaml option \<Rightarrow> PipelineParams option \<Rightarrow>
   ('c, 's) writer_object option" where
  "NewLogWriter br kind numWorkers storage yml pipe =
     do { cfg \<leftarrow> yml;
          life \<leftarrow> new_channels kind (numWorkers (wy_Config cfg));
          st \<leftarrow> storage (wy_Config cfg);
          rd \<leftarrow> CreateReader br pipe WRITER;
          rd' \<leftarrow> die_on_error rd;
          Some \<lparr>lo_name = wy_Name cfg, lo_cfg = wy_Config cfg, lo_life = life, lo_reader = rd', lo_storage = st\<rparr> }"

section \<open>Elasticsearch\<close>

record TLSConfig =
  tl_ServerName :: string
  tl_InsecureSkipVerify :: bool

record es_Config = BulkConfig +
  es_Addresses :: "string list"
  es_Username :: "string option"
  es_Password :: "string option"
  es_CloudID :: "string option"
  es_APIKey :: "string option"
  es_ServiceToken :: "string option"
  es_CertificateFingerprint :: "string option"
  es_RetryOnStatus :: "int list"
  es_DisableRetry :: bool
  es_EnableRetryOnTimeout :: bool
  es_CompressRequestBody :: bool
  es_DiscoverNodesOnStart :: bool
  es_EnableMetrics :: bool
  es_EnableDebugLogger :: bool
  es_UseResponseCheckOnly :: bool
  es_EnableCompatibilityMode :: bool
  es_DisableMetaHeader :: bool
  es_TLSConfig :: "TLSConfig option"

text \<open>\<open>append(make([]string, 1), x)\<close> has an empty string before \<open>x\<close>.\<close>

definition es_DefaultLogWriterYaml :: "es_Config LogWriterYaml" where
  "es_DefaultLogWriterYaml =
     \<lparr>wy_Name = ''elasticsearch'',
      wy_Config =
        \<lparr>bf_NumWorkers = 5, bf_Limit = Dec 10 0, bf_Burst = 1, bf_DocType = ''mix3-record'', bf_IndexPrefix = ''mix3-logs-v2'',
         bf_AppendDateToIndex = True, bf_Refresh = True, bf_MaxRetries = 10, bf_Delay = 10, bf_Pipeline = None,
         es_Addresses = replicate 1 [] @ [''http://localhost:9200''], es_Username = None, es_Password = None, es_CloudID = None,
         es_APIKey = None, es_ServiceToken = None, es_CertificateFingerprint = None, es_RetryOnStatus = [], es_DisableRetry = False,
         es_EnableRetryOnTimeout = False, es_CompressRequestBody = False, es_DiscoverNodesOnStart = False, es_EnableMetrics = False,
         es_EnableDebugLogger = False, es_UseResponseCheckOnly = False, es_EnableCompatibilityMode = False,
         es_DisableMetaHeader = False, es_TLSConfig = None\<rparr>\<rparr>"

definition es_overlay :: "(string \<Rightarrow> string option) \<Rightarrow> es_Config \<Rightarrow> es_Config option" where
  "es_overlay env c =
     Some (c\<lparr>es_Username := getPointerFromEnv env ''ELC_ELASTICSEARCH_USERNAME'' (es_Username c),
             es_Password := getPointerFromEnv env ''ELC_ELASTICSEARCH_PASSWORD'' (es_Password c),
             es_APIKey := getPointerFromEnv env ''ELC_ELASTICSEARCH_API_KEY'' (es_APIKey c),
             es_CloudID := getPointerFromEnv env ''ELC_ELASTICSEARCH_CLOUD_ID'' (es_CloudID c),
             es_CertificateFingerprint := getPointerFromEnv env ''ELC_ELASTICSEARCH_CERT_FINGERPRINT'' (es_CertificateFingerprint c),
             es_ServiceToken := getPointerFromEnv env ''ELC_ELASTICSEARCH_SERVICE_TOKEN'' (es_ServiceToken c)\<rparr>)"

definition es_loadConfigFromFile ::
  "(string \<Rightarrow> es_Config LogWriterYaml \<Rightarrow> es_Config LogWriterYaml option) \<Rightarrow> (string \<Rightarrow> string option) \<Rightarrow> string option \<Rightarrow>
   es_Config LogWriterYaml option" where
  "es_loadConfigFromFile yaml env content = load_with_env (es_overlay env) yaml es_DefaultLogWriterYaml content"

text \<open>The server answers the ping and the request for its version.\<close>

definition es_NewLogWriter ::
  "brokers \<Rightarrow> (es_Config \<Rightarrow> int option) \<Rightarrow> (es_Config \<Rightarrow> (int \<times> string) option) \<Rightarrow> es_Config LogWriterYaml option \<Rightarrow>
   PipelineParams option \<Rightarrow> (es_Config, (handler, batch) storage_system) writer_object option" where
  "es_NewLogWriter br ping info =
     NewLogWriter br storage_writer bf_NumWorkers
       (\<lambda>c. map_option (\<lambda>e. storage_init (bf_NumWorkers c) (fresh_handler e)) (es_NewStorage (BulkConfig.truncate c) (ping c) (info c)))"

section \<open>OpenSearch\<close>

text \<open>There is no document type.\<close>

record os_Config = BulkConfig +
  op_Addresses :: "string list"
  op_Username :: "string option"
  op_Password :: "string option"
  op_RetryOnStatus :: "int list"
  op_DisableRetry :: bool
  op_EnableRetryOnTimeout :: bool
  op_CompressRequestBody :: bool
  op_DiscoverNodesOnStart :: bool
  op_EnableMetrics :: bool
  op_EnableDebugLogger :: bool
  op_UseResponseCheckOnly :: bool
  op_TLSConfig :: "TLSConfig option"

definition os_DefaultLogWriterYaml :: "os_Config LogWriterYaml" where
  "os_DefaultLogWriterYaml =
     \<lparr>wy_Name = ''opensearch'',
      wy_Config =
        \<lparr>bf_NumWorkers = 5, bf_Limit = Dec 10 0, bf_Burst = 1, bf_DocType = [], bf_IndexPrefix = ''mix3-logs-v2'',
         bf_AppendDateToIndex = True, bf_Refresh = True, bf_MaxRetries = 10, bf_Delay = 10, bf_Pipeline = None,
         op_Addresses = replicate 1 [] @ [''http://localhost:9200''], op_Username = None, op_Password = None, op_RetryOnStatus = [],
         op_DisableRetry = False, op_EnableRetryOnTimeout = False, op_CompressRequestBody = False, op_DiscoverNodesOnStart = False,
         op_EnableMetrics = False, op_EnableDebugLogger = False, op_UseResponseCheckOnly = False, op_TLSConfig = None\<rparr>\<rparr>"

definition os_overlay :: "(string \<Rightarrow> string option) \<Rightarrow> os_Config \<Rightarrow> os_Config option" where
  "os_overlay env c =
     Some (c\<lparr>op_Username := getPointerFromEnv env ''ELC_OPENSEARCH_USERNAME'' (op_Username c),
             op_Password := getPointerFromEnv env ''ELC_OPENSEARCH_PASSWORD'' (op_Password c)\<rparr>)"

definition os_loadConfigFromFile ::
  "(string \<Rightarrow> os_Config LogWriterYaml \<Rightarrow> os_Config LogWriterYaml option) \<Rightarrow> (string \<Rightarrow> string option) \<Rightarrow> string option \<Rightarrow>
   os_Config LogWriterYaml option" where
  "os_loadConfigFromFile yaml env content = load_with_env (os_overlay env) yaml os_DefaultLogWriterYaml content"

definition os_NewLogWriter ::
  "brokers \<Rightarrow> (os_Config \<Rightarrow> int option) \<Rightarrow> os_Config LogWriterYaml option \<Rightarrow> PipelineParams option \<Rightarrow>
   (os_Config, (handler, batch) storage_system) writer_object option" where
  "os_NewLogWriter br ping =
     NewLogWriter br storage_writer bf_NumWorkers
       (\<lambda>c. map_option (\<lambda>e. storage_init (bf_NumWorkers c) (fresh_handler e)) (os_NewStorage (BulkConfig.truncate c) (ping c)))"

section \<open>MongoDB\<close>

record mongo_Config =
  mg_NumWorkers :: int
  mg_RateLimit :: RateLimit
  mg_MongoDBUri :: string
  mg_DatabaseName :: string
  mg_CollectionName :: string
  mg_MaxRetries :: int
  mg_Delay :: int

record mongo_client =
  mo_endpoint :: string
  mo_collection :: "string \<times> string"
  mo_maxRetries :: int
  mo_delay :: int
  mo_workers :: "Job pool"

definition mongo_DefaultLogWriterYaml :: "mongo_Config LogWriterYaml" where
  "mongo_DefaultLogWriterYaml =
     \<lparr>wy_Name = ''mongodb'',
      wy_Config =
        \<lparr>mg_NumWorkers = 5, mg_RateLimit = \<lparr>rl_Limit = Dec 10 0, rl_Burst = 1\<rparr>,
         mg_MongoDBUri = ''mongodb://localhost:27017/?directConnection=true'', mg_DatabaseName = ''event-log-collector'',
         mg_CollectionName = ''mix-event-logs'', mg_MaxRetries = 10, mg_Delay = 10\<rparr>\<rparr>"

definition mongo_overlay :: "(string \<Rightarrow> string option) \<Rightarrow> mongo_Config \<Rightarrow> mongo_Config option" where
  "mongo_overlay env c =
     Some (c\<lparr>mg_MongoDBUri := getValueFromEnv env ''ELC_MONGODB_URI'' (mg_MongoDBUri c),
             mg_DatabaseName := getValueFromEnv env ''ELC_MONGODB_DATABASE_NAME'' (mg_DatabaseName c),
             mg_CollectionName := getValueFromEnv env ''ELC_MONGODB_COLLECTION_NAME'' (mg_CollectionName c)\<rparr>)"

definition mongo_loadConfigFromFile ::
  "(string \<Rightarrow> mongo_Config LogWriterYaml \<Rightarrow> mongo_Config LogWriterYaml option) \<Rightarrow> (string \<Rightarrow> string option) \<Rightarrow> string option \<Rightarrow>
   mongo_Config LogWriterYaml option" where
  "mongo_loadConfigFromFile yaml env content = load_with_env (mongo_overlay env) yaml mongo_DefaultLogWriterYaml content"

text \<open>What the client library makes of an address: whether a client can be made for it, and whether it
  can connect. That the server does not answer a ping is only logged.\<close>

definition createMongoDbClient :: "(string \<Rightarrow> bool) \<Rightarrow> (string \<Rightarrow> bool) \<Rightarrow> string \<Rightarrow> string option" where
  "createMongoDbClient newClient connect endpoint =
     (if \<not> newClient endpoint then Some ''unable to create mongo client''
      else if \<not> connect endpoint then Some ''unable to initialize connection with mongodb''
      else None)"

definition mongo_NewStorage :: "(string \<Rightarrow> bool) \<Rightarrow> (string \<Rightarrow> bool) \<Rightarrow> mongo_Config \<Rightarrow> mongo_client option" where
  "mongo_NewStorage newClient connect config =
     (case createMongoDbClient newClient connect (mg_MongoDBUri config) of
        Some err \<Rightarrow> None
      | None \<Rightarrow>
          Some \<lparr>mo_endpoint = mg_MongoDBUri config, mo_collection = (mg_DatabaseName config, mg_CollectionName config),
                mo_maxRetries = mg_MaxRetries config, mo_delay = mg_Delay config,
                mo_workers = pool_Start (NewWorkerPool (if mg_NumWorkers config \<noteq> 0 then mg_NumWorkers config else 1))\<rparr>)"

definition mongo_NewLogWriter ::
  "brokers \<Rightarrow> (string \<Rightarrow> bool) \<Rightarrow> (string \<Rightarrow> bool) \<Rightarrow> mongo_Config LogWriterYaml option \<Rightarrow> PipelineParams option \<Rightarrow>
   (mongo_Config, mongo_client) writer_object option" where
  "mongo_NewLogWriter br newClient connect = NewLogWriter br storage_writer mg_NumWorkers (mongo_NewStorage newClient connect)"

section \<open>NEAP\<close>

record neap_Config = NeapConfig +
  ne_RateLimit :: RateLimit

definition neap_DefaultLogWriterYaml :: "neap_Config LogWriterYaml" where
  "neap_DefaultLogWriterYaml =
     \<lparr>wy_Name = ''neap'',
      wy_Config = \<lparr>nf_NumWorkers = 5, nf_Path = ''neap-logs'', nf_Compression = ''gzip'', nf_MaxRecords = 1000,
                   ne_RateLimit = \<lparr>rl_Limit = Dec 10 0, rl_Burst = 1\<rparr>\<rparr>\<rparr>"

definition neap_loadConfigFromFile ::
  "(string \<Rightarrow> neap_Config LogWriterYaml \<Rightarrow> neap_Config LogWriterYaml option) \<Rightarrow> string option \<Rightarrow> neap_Config LogWriterYaml option" where
  "neap_loadConfigFromFile yaml content = load_with_env Some yaml neap_DefaultLogWriterYaml content"

definition neap_NewLogWriter ::
  "brokers \<Rightarrow> neap_Config LogWriterYaml option \<Rightarrow> PipelineParams option \<Rightarrow>
   (neap_Config, (neap_handler, batch) storage_system) writer_object option" where
  "neap_NewLogWriter br =
     NewLogWriter br storage_writer nf_NumWorkers (\<lambda>c. Some (storage_init (nf_NumWorkers c) (neap_fresh (NeapConfig.truncate c))))"

section \<open>Fluentd\<close>

record fluentd_Config =
  fd_NumWorkers :: int
  fd_Address :: string
  fd_Tag :: string
  fd_Buffered :: bool
  fd_BufferLimit :: int

definition fluentd_DefaultLogWriterYaml :: "fluentd_Config LogWriterYaml" where
  "fluentd_DefaultLogWriterYaml =
     \<lparr>wy_Name = ''fluentd'',
      wy_Config = \<lparr>fd_NumWorkers = 5, fd_Address = ''127.0.0.1:24224'', fd_Tag = [], fd_Buffered = False,
                   fd_BufferLimit = 8 * 1024 * 1024\<rparr>\<rparr>"

definition fluentd_loadConfigFromFile ::
  "(string \<Rightarrow> fluentd_Config LogWriterYaml \<Rightarrow> fluentd_Config LogWriterYaml option) \<Rightarrow> string option \<Rightarrow>
   fluentd_Config LogWriterYaml option" where
  "fluentd_loadConfigFromFile yaml content = load_with_env Some yaml fluentd_DefaultLogWriterYaml content"

definition fluentd_NewStorage :: "(string \<Rightarrow> bool \<Rightarrow> int \<Rightarrow> 'n option) \<Rightarrow> string \<Rightarrow> bool \<Rightarrow> int \<Rightarrow> 'n FluentClient option" where
  "fluentd_NewStorage fluent_New address isBuffered bufferLimit =
     map_option (\<lambda>n. \<lparr>fc_endpoint = address, fc_net = n, fc_posted = [], fc_metrics = []\<rparr>) (fluent_New address isBuffered bufferLimit)"

definition fluentd_NewLogWriter ::
  "brokers \<Rightarrow> (string \<Rightarrow> bool \<Rightarrow> int \<Rightarrow> 'n option) \<Rightarrow> fluentd_Config LogWriterYaml option \<Rightarrow> PipelineParams option \<Rightarrow>
   (fluentd_Config, 'n FluentClient) writer_object option" where
  "fluentd_NewLogWriter br fluent_New =
     NewLogWriter br fluentd_writer fd_NumWorkers (\<lambda>c. fluentd_NewStorage fluent_New (fd_Address c) (fd_Buffered c) (fd_BufferLimit c))"

section \<open>Log producer API\<close>

record mlp_Config = ProducerConfig +
  ml_ConnectTimeoutMs :: int
  ml_RateLimit :: RateLimit
  ml_NumWorkers :: int

definition mlp_DefaultLogWriterYaml :: "mlp_Config LogWriterYaml" where
  "mlp_DefaultLogWriterYaml =
     \<lparr>wy_Name = ''mix-log-producer-api'',
      wy_Config =
        \<lparr>pc_ApiUrl = ''https://log.api.nuance.com/producers'',
         pc_Credentials = \<lparr>cr_AuthDisabled = False, cr_TokenURL = ''https://auth.crt.nuance.com/oauth2/token'', cr_ClientID = [],
           cr_ClientSecret = [], cr_Scope = ''log.write'', cr_AuthTimeoutMS = 5000\<rparr>,
         pc_MaxRetries = 10, pc_Delay = 10, ml_ConnectTimeoutMs = 0, ml_RateLimit = \<lparr>rl_Limit = Dec 10 0, rl_Burst = 1\<rparr>,
         ml_NumWorkers = 5\<rparr>\<rparr>"

definition env_credentials :: "(string \<Rightarrow> string option) \<Rightarrow> Credentials \<Rightarrow> Credentials" where
  "env_credentials env cr =
     cr\<lparr>cr_ClientID := getValueFromEnv env ''ELC_CLIENT_ID'' (cr_ClientID cr),
        cr_ClientSecret := getValueFromEnv env ''ELC_CLIENT_SECRET'' (cr_ClientSecret cr),
        cr_TokenURL := getValueFromEnv env ''ELC_TOKEN_URL'' (cr_TokenURL cr)\<rparr>"

definition mlp_overlay :: "(string \<Rightarrow> string option) \<Rightarrow> mlp_Config \<Rightarrow> mlp_Config option" where
  "mlp_overlay env c =
     Some (c\<lparr>pc_Credentials := env_credentials env (pc_Credentials c),
             pc_ApiUrl := getValueFromEnv env ''ELC_MIX_LOG_PRODUCER_API_URL'' (pc_ApiUrl c)\<rparr>)"

definition mlp_loadConfigFromFile ::
  "(string \<Rightarrow> mlp_Config LogWriterYaml \<Rightarrow> mlp_Config LogWriterYaml option) \<Rightarrow> (string \<Rightarrow> string option) \<Rightarrow> string option \<Rightarrow>
   mlp_Config LogWriterYaml option" where
  "mlp_loadConfigFromFile yaml env content = load_with_env (mlp_overlay env) yaml mlp_DefaultLogWriterYaml content"

text \<open>\<open>strings.Trim\<close> with the blank as its set of characters.\<close>

definition trim_blanks :: "string \<Rightarrow> string" where
  "trim_blanks s = rev (dropWhile (\<lambda>c. c = CHR '' '') (rev (dropWhile (\<lambda>c. c = CHR '' '') s)))"

definition mlp_NewLogWriter ::
  "brokers \<Rightarrow> 'n http_client \<Rightarrow> 'n sys \<Rightarrow> mlp_Config LogWriterYaml option \<Rightarrow> PipelineParams option \<Rightarrow>
   (mlp_Config, (mlp_handler, MixLogProducerApiRequestRecord list) storage_system \<times> 'c Authenticator \<times> 'n sys) writer_object option" where
  "mlp_NewLogWriter br hc y yml pipe =
     do { cfg \<leftarrow> yml;
          (let cr = pc_Credentials (wy_Config cfg)
           in if trim_blanks (cr_ClientID cr) = [] then None
              else if trim_blanks (cr_ClientSecret cr) = [] then None
              else NewLogWriter br storage_writer ml_NumWorkers
                (\<lambda>c. map_option (\<lambda>(s, a, y'). (storage_init (ml_NumWorkers c) \<lparr>mh_client = s, mh_lastCommit = 0\<rparr>, a, y'))
                       (mlp_NewStorage hc (ProducerConfig.truncate c) y)) (Some cfg) pipe) }"

section \<open>File system\<close>

record AudioFetcherParams =
  af_Enabled :: bool
  af_Credentials :: Credentials
  af_ApiUrl :: string

record fs_Config =
  fg_NumWorkers :: int
  fg_Path :: string
  fg_AudioFetcherParams :: "AudioFetcherParams option"

definition fs_DefaultLogWriterYaml :: "fs_Config LogWriterYaml" where
  "fs_DefaultLogWriterYaml =
     \<lparr>wy_Name = ''filesystem'',
      wy_Config =
        \<lparr>fg_NumWorkers = 5, fg_Path = ''event-logs'',
         fg_AudioFetcherParams =
           Some \<lparr>af_Enabled = True,
                 af_Credentials = \<lparr>cr_AuthDisabled = False, cr_TokenURL = ''https://auth.crt.nuance.com/oauth2/token'',
                   cr_ClientID = [], cr_ClientSecret = [], cr_Scope = ''log'', cr_AuthTimeoutMS = 5000\<rparr>,
                 af_ApiUrl = ''https://log.api.nuance.com/api/v1/audio''\<rparr>\<rparr>\<rparr>"

text \<open>The variables are stored through the pointer, which may be nil.\<close>

definition fs_overlay :: "(string \<Rightarrow> string option) \<Rightarrow> fs_Config \<Rightarrow> fs_Config option" where
  "fs_overlay env c =
     (case fg_AudioFetcherParams c of
        None \<Rightarrow> None
      | Some a \<Rightarrow>
          Some (c\<lparr>fg_AudioFetcherParams :=
            Some (a\<lparr>af_Credentials := env_credentials env (af_Credentials a),
                    af_ApiUrl := getValueFromEnv env ''ELC_AFSS_URL'' (af_ApiUrl a)\<rparr>)\<rparr>))"

definition fs_loadConfigFromFile ::
  "(string \<Rightarrow> fs_Config LogWriterYaml \<Rightarrow> fs_Config LogWriterYaml option) \<Rightarrow> (string \<Rightarrow> string option) \<Rightarrow> string option \<Rightarrow>
   fs_Config LogWriterYaml option" where
  "fs_loadConfigFromFile yaml env content = load_with_env (fs_overlay env) yaml fs_DefaultLogWriterYaml content"

text \<open>The audio fetcher, by its address, and none when the address cannot be parsed.\<close>

definition NewAudioFetcher :: "'n http_client \<Rightarrow> string \<Rightarrow> string option" where
  "NewAudioFetcher hc apiEndpoint = (if hc_url_ok hc apiEndpoint then Some apiEndpoint else None)"

definition fs_NewLogWriter ::
  "brokers \<Rightarrow> 'n http_client \<Rightarrow> (string \<Rightarrow> bool) \<Rightarrow> fs_Config LogWriterYaml option \<Rightarrow> PipelineParams option \<Rightarrow>
   (fs_Config, 'n fs_writer \<times> 'c Authenticator option) writer_object option" where
  "fs_NewLogWriter br hc mkdir =
     NewLogWriter br filesystem_writer fg_NumWorkers
       (\<lambda>c. let w = \<lparr>fw_Path = fg_Path c, fw_filesystem = fs_NewStorage (fg_Path c), fw_audioFetcher = None, fw_hc = hc, fw_mkdir = mkdir\<rparr>
            in Some (case fg_AudioFetcherParams c of
                 None \<Rightarrow> (w, None)
               | Some a \<Rightarrow>
                   if af_Enabled a then (w\<lparr>fw_audioFetcher := NewAudioFetcher hc (af_ApiUrl a)\<rparr>, Some (NewAuthenticator (af_Credentials a)))
                   else (w, None)))"

section \<open>What the variables do\<close>

text \<open>The contract of the variables: they decide nothing but the values they stand for, so that an empty
  environment changes nothing, looking them up twice is looking them up once, and whether the lookup
  survives does not depend on them.\<close>

locale env_overlay =
  fixes overlay :: "(string \<Rightarrow> string option) \<Rightarrow> 'c \<Rightarrow> 'c option"
  assumes no_variables: "overlay (\<lambda>_. None) c = Some d \<Longrightarrow> d = c"
    and same_twice: "overlay env c = Some d \<Longrightarrow> overlay env d = Some d"
    and same_deaths: "overlay env c = None \<longleftrightarrow> overlay (\<lambda>_. None) c = None"
begin

lemma load_empty_env: "load_with_env (overlay (\<lambda>_. None)) yaml dflt content = Some y \<Longrightarrow> from_file yaml dflt content = Some y"
  by (auto simp: load_with_env_def bind_eq_Some_conv dest: no_variables)

lemma load_dies: "load_with_env (overlay env) yaml dflt content = None \<longleftrightarrow> load_with_env (overlay env') yaml dflt content = None"
  using same_deaths [of env] same_deaths [of env'] by (auto simp: load_with_env_def bind_eq_None_conv)

lemma load_settled: "load_with_env (overlay env) yaml dflt content = Some y \<Longrightarrow> overlay env (wy_Config y) = Some (wy_Config y)"
  by (auto simp: load_with_env_def bind_eq_Some_conv dest: same_twice)

end

lemma env_idem [simp]:
  "getValueFromEnv env n (getValueFromEnv env n d) = getValueFromEnv env n d"
  "getPointerFromEnv env n (getPointerFromEnv env n p) = getPointerFromEnv env n p"
  by (simp_all add: getValueFromEnv_def getPointerFromEnv_def split: option.splits)

lemma env_empty [simp]: "getValueFromEnv (\<lambda>_. None) n d = d" "getPointerFromEnv (\<lambda>_. None) n p = p"
  by (simp_all add: getValueFromEnv_def getPointerFromEnv_def)

lemma env_credentials_laws [simp]:
  "env_credentials (\<lambda>_. None) cr = cr" "env_credentials env (env_credentials env cr) = env_credentials env cr"
  by (simp_all add: env_credentials_def)

interpretation es_env: env_overlay es_overlay
  by unfold_locales (auto simp: es_overlay_def)

interpretation os_env: env_overlay os_overlay
  by unfold_locales (auto simp: os_overlay_def)

interpretation mongo_env: env_overlay mongo_overlay
  by unfold_locales (auto simp: mongo_overlay_def)

interpretation mlp_env: env_overlay mlp_overlay
  by unfold_locales (auto simp: mlp_overlay_def)

interpretation fs_env: env_overlay fs_overlay
  by unfold_locales (auto simp: fs_overlay_def split: option.splits)

section \<open>Creation\<close>

text \<open>A writer that was created has not been started, has a channel with as many places as workers are
  configured, and has the reader of the pipeline's section for writers.\<close>

lemma NewLogWriter_made:
  "NewLogWriter br kind numWorkers storage yml pipe = Some w \<Longrightarrow>
     0 \<le> numWorkers (lo_cfg w) \<and> new_channels kind (numWorkers (lo_cfg w)) = Some (lo_life w) \<and>
     CreateReader br pipe WRITER = Some (Inr (lo_reader w)) \<and> storage (lo_cfg w) = Some (lo_storage w)"
  by (auto simp: NewLogWriter_def bind_eq_Some_conv new_channels_def split: if_splits)

lemma trim_blanks_empty: "trim_blanks s = [] \<longleftrightarrow> list_all (\<lambda>c. c = CHR '' '') s"
proof -
  have "(\<forall>c \<in> set (dropWhile p s). p c) \<longleftrightarrow> (\<forall>c \<in> set s. p c)" for p :: "char \<Rightarrow> bool"
    by (induction s) auto
  from this [of "\<lambda>c. c = CHR '' ''"] show ?thesis
    unfolding trim_blanks_def list_all_iff rev_is_Nil_conv dropWhile_eq_Nil_conv set_rev .
qed

text \<open>Without an identifier and a secret of the client, from the file or from the environment, there is no
  writer for the log producer API.\<close>

lemma mlp_needs_credentials:
  "mlp_NewLogWriter br hc y yml pipe = Some w \<Longrightarrow>
     \<not> list_all (\<lambda>c. c = CHR '' '') (cr_ClientID (pc_Credentials (lo_cfg w))) \<and>
     \<not> list_all (\<lambda>c. c = CHR '' '') (cr_ClientSecret (pc_Credentials (lo_cfg w)))"
  unfolding trim_blanks_empty [symmetric]
  by (auto simp: mlp_NewLogWriter_def NewLogWriter_def bind_eq_Some_conv Let_def split: if_splits)

lemma mlp_default_dies: "mlp_NewLogWriter br hc y (mlp_loadConfigFromFile yaml (\<lambda>_. None) None) pipe = None"
  by (simp add: mlp_loadConfigFromFile_def load_with_env_def from_file_def mlp_overlay_def mlp_NewLogWriter_def
    mlp_DefaultLogWriterYaml_def Let_def trim_blanks_def)

text \<open>An \<open>audio_fetcher\<close> without a value sets the pointer to nil, and loading dies.\<close>

lemma fs_null_audio_dies:
  "from_file yaml fs_DefaultLogWriterYaml content = Some yml \<Longrightarrow> fg_AudioFetcherParams (wy_Config yml) = None \<Longrightarrow>
     fs_loadConfigFromFile yaml env content = None"
  by (simp add: fs_loadConfigFromFile_def load_with_env_def fs_overlay_def)

text \<open>The first of the default addresses is empty.\<close>

lemma default_addresses:
  "es_Addresses (wy_Config es_DefaultLogWriterYaml) = [[], ''http://localhost:9200'']"
  "op_Addresses (wy_Config os_DefaultLogWriterYaml) = [[], ''http://localhost:9200'']"
  by (simp_all add: es_DefaultLogWriterYaml_def os_DefaultLogWriterYaml_def)

end
