(* ===== verification/Fetcher_Lifecycle.thy ===== *)
theory Fetcher_Lifecycle
  imports Partition_Fetcher Transition
begin

text \<open>
  The fetcher with all its partitions (\<open>pkg/log_fetchers/mix_log_api/fetcher.go\<close>, \<open>Start\<close> and \<open>Stop\<close>, and \<open>Run\<close> of
  \<open>cmd/event-log-fetcher\<close>): the partition fetchers that \<open>Start\<close> created run concurrently on one shared
  \<open>LogFetcher\<close>, with its authenticator, its pipeline writer and its wait group. \<open>Stop\<close> starts a
  goroutine per partition that sends on the one unbuffered channel \<open>shutdown\<close>; whichever loop looks next
  receives. Each step is a step of one partition, as in the theory of the partition fetcher, made on the
  shared fetcher. The partitions begin when \<open>Start\<close> has returned.
\<close>

section \<open>State\<close>

datatype fleet_stop_pc = Stop_uncalled | Stop_waiting | Stop_returned

text \<open>The goroutines of \<open>Stop\<close> are either about to send or blocked in the send.\<close>

record ('n, 'p) fleet =
  fl_fetcher :: "('n, 'p) LogFetcher"
  fl_parts :: "('n, 'p) system list"
  fl_spawned :: nat
  fl_senders :: nat
  fl_stop :: fleet_stop_pc

definition fleet_init :: "('n, 'p) LogFetcher \<Rightarrow> ('n, 'p) fleet" where
  "fleet_init f =
     \<lparr>fl_fetcher = f, fl_parts = map (\<lambda>c. system_init (NewPartitionFetcher f c)) (lf_partitionFetchers f),
      fl_spawned = 0, fl_senders = 0, fl_stop = Stop_uncalled\<rparr>"

text \<open>A partition with the shared fetcher as it is now, and the fleet after a step of it.\<close>

definition part :: "('n, 'p) fleet \<Rightarrow> nat \<Rightarrow> ('n, 'p) system" where
  "part fl i = (let s = fl_parts fl ! i in s\<lparr>sm_pf := (sm_pf s)\<lparr>pf_logFetcher := fl_fetcher fl\<rparr>\<rparr>)"

definition put_part :: "('n, 'p) fleet \<Rightarrow> nat \<Rightarrow> ('n, 'p) system \<Rightarrow> ('n, 'p) fleet" where
  "put_part fl i s = fl\<lparr>fl_fetcher := pf_logFetcher (sm_pf s), fl_parts := (fl_parts fl)[i := s]\<rparr>"

section \<open>Steps\<close>

text \<open>The label is the record that is written to the pipeline, with the number of its partition. A loop that
  looks while a goroutine of \<open>Stop\<close> is blocked in its send receives from it: it fetches only when there is none.\<close>

inductive fleet_work :: "'n http_client \<Rightarrow> 'p writer \<Rightarrow> ('n, 'p) fleet \<Rightarrow> (nat \<times> string) list \<Rightarrow> ('n, 'p) fleet \<Rightarrow> bool"
  for hc :: "'n http_client" and wr :: "'p writer" where
  fleet_fetch: "i < length (fl_parts fl) \<Longrightarrow> s = part fl i \<Longrightarrow> sm_loop s = Fetching \<Longrightarrow> fl_senders fl = 0 \<Longrightarrow>
    fetch_turn hc (sm_vars s) (sm_pf s) = Some (p, Inr (v, batch)) \<Longrightarrow>
    fleet_work hc wr fl [] (put_part fl i (s\<lparr>sm_pf := p, sm_vars := v, sm_fetched := sm_fetched s @ batch,
                                             sm_loop := (if batch = [] then Fetching else Offering batch)\<rparr>))"
| fleet_take: "i < length (fl_parts fl) \<Longrightarrow> s = part fl i \<Longrightarrow> sm_loop s = Offering batch \<Longrightarrow> sm_handler s = Waiting \<Longrightarrow>
    fleet_work hc wr fl [] (put_part fl i (s\<lparr>sm_loop := Fetching, sm_handler := Writing batch (-1)\<rparr>))"
| fleet_write: "i < length (fl_parts fl) \<Longrightarrow> s = part fl i \<Longrightarrow> sm_handler s = Writing (r # rs) offset \<Longrightarrow>
    handle_record wr r (sm_pf s) = Some (p, Inr offset') \<Longrightarrow>
    fleet_work hc wr fl [(i, record_bytes r)] (put_part fl i (s\<lparr>sm_pf := p, sm_handler := Writing rs offset',
                                                sm_events := sm_events s @ [Written (record_bytes r) offset']\<rparr>))"
| fleet_commit: "i < length (fl_parts fl) \<Longrightarrow> s = part fl i \<Longrightarrow> sm_handler s = Writing [] offset \<Longrightarrow>
    pf_commitOffset hc offset (sm_pf s) = Some (p, Inr ()) \<Longrightarrow>
    fleet_work hc wr fl [] (put_part fl i (s\<lparr>sm_pf := p, sm_handler := Waiting,
                                             sm_events := sm_events s @ commit_events (sm_pf s) offset\<rparr>))"
| fleet_shutdown: "i < length (fl_parts fl) \<Longrightarrow> s = part fl i \<Longrightarrow> sm_loop s = Fetching \<Longrightarrow> fl_senders fl = Suc k \<Longrightarrow>
    fleet_work hc wr fl [] ((put_part fl i (s\<lparr>sm_loop := Signalling\<rparr>))\<lparr>fl_senders := k\<rparr>)"
| fleet_signal: "i < length (fl_parts fl) \<Longrightarrow> s = part fl i \<Longrightarrow> sm_loop s = Signalling \<Longrightarrow> sm_handler s = Waiting \<Longrightarrow>
    fleet_work hc wr fl [] ((put_part fl i (s\<lparr>sm_loop := Stopped, sm_handler := Halted\<rparr>))
                              \<lparr>fl_fetcher := (fl_fetcher fl)\<lparr>lf_wait := lf_wait (fl_fetcher fl) - 1\<rparr>\<rparr>)"
| fleet_call_Stop: "fl_stop fl = Stop_uncalled \<Longrightarrow>
    fleet_work hc wr fl [] (fl\<lparr>fl_spawned := length (fl_parts fl), fl_stop := Stop_waiting\<rparr>)"
| fleet_send: "fl_spawned fl = Suc k \<Longrightarrow> fleet_work hc wr fl [] (fl\<lparr>fl_spawned := k, fl_senders := Suc (fl_senders fl)\<rparr>)"
| fleet_return: "fl_stop fl = Stop_waiting \<Longrightarrow> lf_wait (fl_fetcher fl) = 0 \<Longrightarrow>
    fleet_work hc wr fl [] (fl\<lparr>fl_stop := Stop_returned\<rparr>)"

text \<open>The monitors look at the offsets from time to time.\<close>

inductive fleet_step :: "'n http_client \<Rightarrow> 'p writer \<Rightarrow> ('n, 'p) fleet \<Rightarrow> (nat \<times> string) list \<Rightarrow> ('n, 'p) fleet \<Rightarrow> bool"
  for hc :: "'n http_client" and wr :: "'p writer" where
  fleet_works: "fleet_work hc wr fl es fl' \<Longrightarrow> fleet_step hc wr fl es fl'"
| fleet_monitor: "i < length (fl_parts fl) \<Longrightarrow> s = part fl i \<Longrightarrow> sm_handler s \<noteq> Halted \<Longrightarrow>
    monitor_turn hc (sm_pf s) = Some (p, Inr ()) \<Longrightarrow> fleet_step hc wr fl [] (put_part fl i (s\<lparr>sm_pf := p\<rparr>))"

section \<open>Each partition makes the steps of a partition fetcher\<close>

lemma part_fields [simp]:
  "sm_loop (part fl i) = sm_loop (fl_parts fl ! i)" "sm_handler (part fl i) = sm_handler (fl_parts fl ! i)"
  "sm_events (part fl i) = sm_events (fl_parts fl ! i)" "sm_fetched (part fl i) = sm_fetched (fl_parts fl ! i)"
  "sm_vars (part fl i) = sm_vars (fl_parts fl ! i)" "pf_logFetcher (sm_pf (part fl i)) = fl_fetcher fl"
  by (simp_all add: part_def Let_def)

lemma put_part_fields [simp]:
  "fl_fetcher (put_part fl i s) = pf_logFetcher (sm_pf s)" "fl_parts (put_part fl i s) = (fl_parts fl)[i := s]"
  "fl_spawned (put_part fl i s) = fl_spawned fl" "fl_senders (put_part fl i s) = fl_senders fl"
  "fl_stop (put_part fl i s) = fl_stop fl"
  by (simp_all add: put_part_def)

lemma part_step: "step hc wr (fl_parts fl ! i) (part fl i)"
  unfolding part_def Let_def by (rule step.others)

text \<open>Which partition moves, and how.\<close>

lemma fleet_step_parts:
  assumes "fleet_step hc wr fl es fl'"
  shows "fl_parts fl' = fl_parts fl \<and> es = [] \<and> fl_fetcher fl' = fl_fetcher fl \<or>
    (\<exists>i s'. i < length (fl_parts fl) \<and> fl_parts fl' = (fl_parts fl)[i := s'] \<and> step hc wr (part fl i) s' \<and>
       map fst es = replicate (length es) i \<and> writes (sm_events s') = writes (sm_events (part fl i)) @ map snd es)"
  using assms
proof (cases rule: fleet_step.cases)
  case (fleet_monitor i s p)
  then have "step hc wr (part fl i) ((part fl i)\<lparr>sm_pf := p\<rparr>)" using step.monitor by blast
  then show ?thesis using fleet_monitor by (intro disjI2 exI conjI) (assumption | simp)+
next
  case fleet_works
  then show ?thesis
  proof (cases rule: fleet_work.cases)
    case (fleet_fetch i s p v batch)
    then show ?thesis using step.fetch [of s hc p v batch wr] by (intro disjI2 exI [of _ i] exI conjI) (assumption | simp)+
  next
    case (fleet_take i s batch)
    then show ?thesis using step.take_batch [of s batch hc wr] by (intro disjI2 exI [of _ i] exI conjI) (assumption | simp)+
  next
    case (fleet_write i s r rs offset p offset')
    then show ?thesis using step.write_record [of s r rs offset wr p offset' hc]
      by (intro disjI2 exI [of _ i] exI conjI) (assumption | simp)+
  next
    case (fleet_commit i s offset p)
    then show ?thesis using step.commit [of s offset hc p wr]
      by (intro disjI2 exI [of _ i] exI conjI) (assumption | simp add: commit_events_def)+
  next
    case (fleet_shutdown i s k)
    then show ?thesis using step.shutdown [of s hc wr] by (intro disjI2 exI [of _ i] exI conjI) (assumption | simp)+
  next
    case (fleet_signal i s)
    then show ?thesis using step.signal [of s hc wr] by (intro disjI2 exI [of _ i] exI conjI) (assumption | simp)+
  qed simp_all
qed

section \<open>What the programs of a partition leave alone\<close>

lemma keeps_on_fetcher: "keeps P m \<Longrightarrow> keeps (\<lambda>s. P (pf_logFetcher s)) (on_fetcher m)"
  by (auto simp: on_fetcher_def intro!: keeps_zoom dest: keepsD)

lemma keeps_report [simp, intro!]: "keeps (\<lambda>s. P (pf_logFetcher s)) (report ms)"
  by (simp add: report_def keeps_modify)

lemma keeps_sleeps:
  assumes "coarse P"
  shows "keeps (\<lambda>s. P (pf_logFetcher s)) (randomSleep hc)"
    "keeps (\<lambda>s. P (pf_logFetcher s)) (modify (\<lambda>s. s\<lparr>pf_logFetcher := (pf_logFetcher s)\<lparr>lf_sys := y s\<rparr>\<rparr>))"
    "keeps (\<lambda>s. P (pf_logFetcher s)) (retryOrQuit hc n)"
    "keeps (\<lambda>s. P (pf_logFetcher s)) (modify (\<lambda>s. s\<lparr>pf_consumer := c\<rparr>))"
  using coarseD [OF assms] by (auto simp: retryOrQuit_def randomSleep_def Let_def split: prod.splits intro!: keeps_modify)

lemma keeps_processing:
  assumes "coarse P"
  shows "keeps (\<lambda>s. P (pf_logFetcher s)) (processApiErrorResponse hc n)"
    "keeps (\<lambda>s. P (pf_logFetcher s)) (processApi200Response body)"
    "keeps (\<lambda>s. P (pf_logFetcher s)) (processApi404Response hc)"
    "keeps (\<lambda>s. P (pf_logFetcher s)) (processApi429Response hc code)"
    "keeps (\<lambda>s. P (pf_logFetcher s)) (processApi503Response hc code body n)"
    "keeps (\<lambda>s. P (pf_logFetcher s)) processUnhandledApiResponse"
  unfolding processApiErrorResponse_def processApi200Response_def processApi404Response_def processApi429Response_def
    processApi503Response_def processUnhandledApiResponse_def ResetPartitionConsumer_def Let_def
  by (intro keeps_andThen keeps_if keeps_or_die keeps_basic keeps_report keeps_on_fetcher keeps_sleeps [OF assms] keeps_ops [OF assms])+

lemma keeps_turns:
  assumes "coarse P"
  shows "keeps (\<lambda>s. P (pf_logFetcher s)) (fetch_turn hc v)" "keeps (\<lambda>s. P (pf_logFetcher s)) (monitor_turn hc)"
    "keeps (\<lambda>s. P (pf_logFetcher s)) (pf_commitOffset hc i)"
  unfolding fetch_turn_def monitor_turn_def pf_commitOffset_def getOffsetDetails_def
  by (auto split: sum.splits prod.splits intro!: keeps_on_fetcher keeps_andThen keeps_processing [OF assms] keeps_requests [OF assms]
      keeps_ops [OF assms])

text \<open>The wait group and the pipeline are such parts.\<close>

definition rest :: "('n, 'p) LogFetcher \<Rightarrow> nat \<times> 'p" where
  "rest f = (lf_wait f, lf_writer f)"

lemma turns_rest:
  shows "fetch_turn hc v s = Some (s', r) \<Longrightarrow> rest (pf_logFetcher s') = rest (pf_logFetcher s)"
    and "monitor_turn hc s = Some (s', q) \<Longrightarrow> rest (pf_logFetcher s') = rest (pf_logFetcher s)"
    and "pf_commitOffset hc i s = Some (s', q) \<Longrightarrow> rest (pf_logFetcher s') = rest (pf_logFetcher s)"
proof -
  have "coarse (\<lambda>f. rest f = rest (pf_logFetcher s))" by (simp add: coarse_def rest_def)
  note k = keeps_turns [OF this]
  show "fetch_turn hc v s = Some (s', r) \<Longrightarrow> rest (pf_logFetcher s') = rest (pf_logFetcher s)" by (rule keepsD [OF k(1)]) simp_all
  show "monitor_turn hc s = Some (s', q) \<Longrightarrow> rest (pf_logFetcher s') = rest (pf_logFetcher s)" by (rule keepsD [OF k(2)]) simp_all
  show "pf_commitOffset hc i s = Some (s', q) \<Longrightarrow> rest (pf_logFetcher s') = rest (pf_logFetcher s)" by (rule keepsD [OF k(3)]) simp_all
qed

lemma handle_record_rest:
  assumes "handle_record wr r s = Some (s', q)"
  shows "lf_wait (pf_logFetcher s') = lf_wait (pf_logFetcher s)"
    "lf_writer (pf_logFetcher s') = fst (wr (lf_writer (pf_logFetcher s)) (record_bytes r))"
  using assms by (auto simp: handle_record_def prog_simps report_def andThen_def modify_def ret_def die_def split: prod.splits if_splits)

text \<open>\<open>Start\<close> adds one to the wait group for each partition fetcher.\<close>

lemma keeps_start_ops:
  assumes "coarse P"
  shows "keeps P (createSubscription hc c)" "keeps P (getPartitions hc c)"
  unfolding fetch_op_defs
  by (auto simp: Let_def split: prod.splits option.splits intro!: keeps_andThen keeps_requests [OF assms])

lemma coarse_wait: "coarse (\<lambda>f. lf_wait f = n)"
  by (simp add: coarse_def)

lemma each_counts:
  fixes m :: "'s \<Rightarrow> nat"
  assumes "each g xs s = Some (s', Inr ys)" "\<And>x s s' y. g x s = Some (s', Inr y) \<Longrightarrow> m s' = Suc (m s)"
  shows "m s' = m s + length ys"
  using assms(1) by (induction xs arbitrary: s ys) (auto simp: andThen_Inr_iff prog_eval dest!: assms(2))

lemma create_counts:
  "andThen (modify (\<lambda>f. f\<lparr>lf_wait := Suc (lf_wait f)\<rparr>)) (\<lambda>_. or_die (createPartitionFetcher hc p)) f = Some (f', Inr c) \<Longrightarrow>
   lf_wait f' = Suc (lf_wait f)"
  unfolding andThen_Inr_iff prog_eval
  using keepsD [OF keeps_or_die [OF keeps_createPartitionFetcher [OF coarse_wait]]] by fastforce

lemma Start_wait:
  fixes f :: "('n, 'p) LogFetcher"
  assumes "Start hc f = Some (f', Inr ())"
  shows "lf_wait f' = lf_wait f + length (lf_partitionFetchers f')"
proof -
  obtain c sub ps pfs and s1 s2 s3 s4 :: "('n, 'p) LogFetcher" where
    1: "createConsumer hc f = Some (s1, Inr c)" and 2: "createSubscription hc c s1 = Some (s2, Inr sub)"
    and 3: "getPartitions hc c (s2\<lparr>lf_subscription := Some sub\<rparr>) = Some (s3, Inr ps)"
    and run: "each (\<lambda>p. andThen (modify (\<lambda>f. f\<lparr>lf_wait := Suc (lf_wait f)\<rparr>)) (\<lambda>_. or_die (createPartitionFetcher hc p)))
       (map int [0..<length ps])
       (s3\<lparr>lf_Partitions := ps, lf_gauges := lf_gauges s3 @ [\<lparr>ga_Name = ''PartitionTotalGauge'', ga_Value = int (length ps),
                  ga_Labels = [lf_name s3, lf_topic s3, lf_groupName s3, co_Name c]\<rparr>]\<rparr>) = Some (s4, Inr pfs)"
    and f': "f' = s4\<lparr>lf_partitionFetchers := pfs\<rparr>"
    using assms unfolding Start_def andThen_Inr_iff by (auto simp: modify_def or_die_Inr)
  have "lf_wait s1 = lf_wait f" by (rule keepsD [OF keeps_ops(1) [OF coarse_wait] _ 1]) simp
  moreover have "lf_wait s2 = lf_wait s1" by (rule keepsD [OF keeps_start_ops(1) [OF coarse_wait] _ 2]) simp
  moreover have "lf_wait s3 = lf_wait s2" by (rule keepsD [OF keeps_start_ops(2) [OF coarse_wait] _ 3]) simp
  ultimately show ?thesis using each_counts [OF run, where m = lf_wait, OF create_counts] by (simp add: f')
qed

text \<open>It does not write to the pipeline.\<close>

lemma Start_writer:
  assumes "Start hc f0 = Some (f, r)"
  shows "lf_writer f = lf_writer f0"
proof -
  let ?P = "\<lambda>f. lf_writer f = lf_writer f0"
  have c: "coarse ?P" by (simp add: coarse_def)
  have m: "keeps ?P (modify g)" if "\<And>f. lf_writer (g f) = lf_writer f" for g
    using that by (simp add: keeps_modify)
  have "keeps ?P (Start hc)"
    unfolding Start_def
    by (intro keeps_andThen keeps_or_die keeps_each keeps_ops [OF c] keeps_start_ops [OF c] keeps_createPartitionFetcher [OF c] m)
      simp_all
  from keepsD [OF this _ assms] show ?thesis by simp
qed

section \<open>The pipeline and the partitions\<close>

text \<open>In every state: each partition is in a state it can reach by itself, the pipeline holds exactly the records
  of the labels in their order, and those of one partition are what that partition wrote.\<close>

definition pipeline_inv :: "'n http_client \<Rightarrow> 'p writer \<Rightarrow> ('n, 'p) LogFetcher \<Rightarrow> (nat \<times> string) list \<Rightarrow> ('n, 'p) fleet \<Rightarrow> bool" where
  "pipeline_inv hc wr f hs fl =
     (length (fl_parts fl) = length (lf_partitionFetchers f) \<and>
      (\<forall>i < length (fl_parts fl). reachable hc wr (fl_parts fl ! i) \<and>
         map snd (filter (\<lambda>e. fst e = i) hs) = writes (sm_events (fl_parts fl ! i))) \<and>
      lf_writer (fl_fetcher fl) = foldl (\<lambda>p b. fst (wr p b)) (lf_writer f) (map snd hs))"

lemma same_label_filter:
  "map fst es = replicate (length es) i \<Longrightarrow> filter (\<lambda>e. fst e = j) es = (if i = j then es else [])"
  by (induction es) auto

lemma fleet_writer:
  assumes "fleet_step hc wr fl es fl'"
  shows "lf_writer (fl_fetcher fl') = foldl (\<lambda>p b. fst (wr p b)) (lf_writer (fl_fetcher fl)) (map snd es)"
  using assms
proof (cases rule: fleet_step.cases)
  case (fleet_monitor i s p)
  then show ?thesis using turns_rest(2) [OF fleet_monitor(6)] by (simp add: rest_def)
next
  case fleet_works
  then show ?thesis
    by (cases rule: fleet_work.cases) (auto simp: rest_def handle_record_rest dest!: turns_rest(1,3))
qed

lemma pipeline_inv_step:
  assumes "pipeline_inv hc wr f hs fl" "fleet_step hc wr fl es fl'"
  shows "pipeline_inv hc wr f (hs @ es) fl'"
  using fleet_step_parts [OF assms(2)]
proof
  assume "fl_parts fl' = fl_parts fl \<and> es = [] \<and> fl_fetcher fl' = fl_fetcher fl"
  then show ?thesis using assms(1) by (simp add: pipeline_inv_def)
next
  assume "\<exists>i s'. i < length (fl_parts fl) \<and> fl_parts fl' = (fl_parts fl)[i := s'] \<and> step hc wr (part fl i) s' \<and>
       map fst es = replicate (length es) i \<and> writes (sm_events s') = writes (sm_events (part fl i)) @ map snd es"
  then obtain i s' where i: "i < length (fl_parts fl)" "fl_parts fl' = (fl_parts fl)[i := s']" "step hc wr (part fl i) s'"
    "map fst es = replicate (length es) i" "writes (sm_events s') = writes (sm_events (part fl i)) @ map snd es" by blast
  have "reachable hc wr (fl_parts fl ! i)" using assms(1) i(1) by (simp add: pipeline_inv_def)
  then have "reachable hc wr s'" using part_step i(3) by (blast intro: reachable.step)
  then show ?thesis using assms(1) i fleet_writer [OF assms(2)]
    by (auto simp: pipeline_inv_def nth_list_update same_label_filter [OF i(4)])
qed

interpretation fleet_pipe: history_invariant "fleet_step hc wr" "pipeline_inv hc wr f"
  by unfold_locales (rule pipeline_inv_step)

lemma pipeline_inv_init: "pipeline_inv hc wr f [] (fleet_init f)"
  by (auto simp: pipeline_inv_def fleet_init_def system_init_def intro: reachable.start [unfolded system_init_def])

section \<open>The wait group and the senders\<close>

text \<open>Sums over the partitions.\<close>

definition over_parts :: "(('n, 'p) system \<Rightarrow> nat) \<Rightarrow> ('n, 'p) fleet \<Rightarrow> nat" where
  "over_parts g fl = (\<Sum>s\<leftarrow>fl_parts fl. g s)"

lemma sum_list_update_nat:
  "i < length xs \<Longrightarrow> (\<Sum>s\<leftarrow>xs[i := y]. g s) + g (xs ! i) = (\<Sum>s\<leftarrow>xs. g s) + (g y :: nat)"
  by (induction xs arbitrary: i) (auto split: nat.split)

lemma over_parts_put:
  "i < length (fl_parts fl) \<Longrightarrow> over_parts g (put_part fl i s) + g (fl_parts fl ! i) = over_parts g fl + g s"
  by (simp add: over_parts_def sum_list_update_nat)

lemma over_parts_same:
  "i < length (fl_parts fl) \<Longrightarrow> g s = g (fl_parts fl ! i) \<Longrightarrow> over_parts g (put_part fl i s) = over_parts g fl"
  using over_parts_put [of i fl g s] by simp

lemma over_parts_less:
  "i < length (fl_parts fl) \<Longrightarrow> g (fl_parts fl ! i) = Suc (g s) \<Longrightarrow> over_parts g fl = Suc (over_parts g (put_part fl i s))"
  using over_parts_put [of i fl g s] by simp

lemma over_parts_fields [simp]:
  "over_parts g (fl\<lparr>fl_fetcher := f\<rparr>) = over_parts g fl" "over_parts g (fl\<lparr>fl_spawned := k\<rparr>) = over_parts g fl"
  "over_parts g (fl\<lparr>fl_senders := k\<rparr>) = over_parts g fl" "over_parts g (fl\<lparr>fl_stop := st\<rparr>) = over_parts g fl"
  by (simp_all add: over_parts_def)

lemma over_parts_0: "over_parts g fl = 0 \<longleftrightarrow> (\<forall>i < length (fl_parts fl). g (fl_parts fl ! i) = 0)"
  by (simp add: over_parts_def all_set_conv_all_nth)

text \<open>A loop that has not received the shutdown yet, and one that has not left.\<close>

fun open_loop :: "loop_state \<Rightarrow> nat" where
  "open_loop Fetching = 1"
| "open_loop (Offering rs) = 1"
| "open_loop Signalling = 0"
| "open_loop Stopped = 0"

definition is_open :: "('n, 'p) system \<Rightarrow> nat" where
  "is_open s = open_loop (sm_loop s)"

definition is_active :: "('n, 'p) system \<Rightarrow> nat" where
  "is_active s = of_bool (sm_loop s \<noteq> Stopped)"

definition stop_inv :: "('n, 'p) fleet \<Rightarrow> bool" where
  "stop_inv fl =
     (lf_wait (fl_fetcher fl) = over_parts is_active fl \<and>
      (if fl_stop fl = Stop_uncalled
       then fl_spawned fl = 0 \<and> fl_senders fl = 0 \<and> over_parts is_open fl = length (fl_parts fl)
       else over_parts is_open fl = fl_spawned fl + fl_senders fl) \<and>
      (fl_stop fl = Stop_returned \<longrightarrow> lf_wait (fl_fetcher fl) = 0))"

lemmas stop_inv_simps = stop_inv_def is_active_def is_open_def over_parts_same

lemma stop_inv_work:
  assumes "fleet_work hc wr fl es fl'" "stop_inv fl"
  shows "stop_inv fl'"
  using assms(1)
proof (cases rule: fleet_work.cases)
  case (fleet_fetch i s p v batch)
  then show ?thesis using assms(2) turns_rest(1) [OF fleet_fetch(7)] by (auto simp: stop_inv_simps rest_def split: if_splits)
next
  case (fleet_take i s batch)
  then show ?thesis using assms(2) by (auto simp: stop_inv_simps split: if_splits)
next
  case (fleet_write i s r rs offset p offset')
  then show ?thesis using assms(2) handle_record_rest(1) [OF fleet_write(6)] by (auto simp: stop_inv_simps split: if_splits)
next
  case (fleet_commit i s offset p)
  then show ?thesis using assms(2) turns_rest(3) [OF fleet_commit(6)] by (auto simp: stop_inv_simps rest_def split: if_splits)
next
  case (fleet_shutdown i s k)
  let ?s = "s\<lparr>sm_loop := Signalling\<rparr>"
  obtain n where "over_parts is_open (put_part fl i ?s) = n" "over_parts is_open fl = Suc n"
    using over_parts_less [of i fl is_open ?s] fleet_shutdown by (simp add: is_open_def)
  moreover have "over_parts is_active (put_part fl i ?s) = over_parts is_active fl"
    using fleet_shutdown by (simp add: over_parts_same is_active_def)
  ultimately show ?thesis using assms(2) fleet_shutdown by (auto simp: stop_inv_def split: if_splits)
next
  case (fleet_signal i s)
  let ?s = "s\<lparr>sm_loop := Stopped, sm_handler := Halted\<rparr>"
  obtain n where "over_parts is_active (put_part fl i ?s) = n" "over_parts is_active fl = Suc n"
    using over_parts_less [of i fl is_active ?s] fleet_signal by (simp add: is_active_def)
  moreover have "over_parts is_open (put_part fl i ?s) = over_parts is_open fl"
    using fleet_signal by (simp add: over_parts_same is_open_def)
  ultimately show ?thesis using assms(2) fleet_signal by (auto simp: stop_inv_def split: if_splits)
qed (use assms(2) in \<open>auto simp: stop_inv_def\<close>)

lemma stop_inv_step:
  assumes "fleet_step hc wr fl es fl'" "stop_inv fl"
  shows "stop_inv fl'"
  using assms(1)
proof (cases rule: fleet_step.cases)
  case (fleet_monitor i s p)
  then show ?thesis using assms(2) turns_rest(2) [OF fleet_monitor(6)] by (auto simp: stop_inv_simps rest_def split: if_splits)
qed (use assms(2) stop_inv_work in blast)

interpretation fleet_stop: history_invariant "fleet_step hc wr" "\<lambda>_. stop_inv"
  by unfold_locales (rule stop_inv_step)

lemma stop_inv_init: "lf_wait f = length (lf_partitionFetchers f) \<Longrightarrow> stop_inv (fleet_init f)"
  by (simp add: stop_inv_def fleet_init_def over_parts_def is_active_def is_open_def system_init_def comp_def sum_list_triv)

lemma all_stopped:
  assumes "stop_inv fl" "fl_stop fl = Stop_returned" "s \<in> set (fl_parts fl)"
  shows "sm_loop s = Stopped"
  using assms by (auto simp: stop_inv_def over_parts_def is_active_def)

section \<open>Coming to an end\<close>

fun loop_rank :: "loop_state \<Rightarrow> nat" where
  "loop_rank Fetching = 2"
| "loop_rank (Offering rs) = 4 + length rs"
| "loop_rank Signalling = 1"
| "loop_rank Stopped = 0"

fun handler_rank :: "handler_state \<Rightarrow> nat" where
  "handler_rank (Writing rs i) = Suc (length rs)"
| "handler_rank _ = 0"

definition part_rank :: "('n, 'p) system \<Rightarrow> nat" where
  "part_rank s = loop_rank (sm_loop s) + handler_rank (sm_handler s)"

definition fleet_rank :: "('n, 'p) fleet \<Rightarrow> nat" where
  "fleet_rank fl = over_parts part_rank fl + of_bool (fl_stop fl = Stop_waiting)"

definition fleet_draining :: "('n, 'p) fleet \<Rightarrow> bool" where
  "fleet_draining fl = (fl_stop fl \<noteq> Stop_uncalled \<and> fl_spawned fl = 0)"

definition fleet_inv :: "'n http_client \<Rightarrow> 'p writer \<Rightarrow> ('n, 'p) LogFetcher \<Rightarrow> (nat \<times> string) list \<Rightarrow> ('n, 'p) fleet \<Rightarrow> bool" where
  "fleet_inv hc wr f hs fl = (pipeline_inv hc wr f hs fl \<and> stop_inv fl \<and> (\<forall>p b. snd (wr p b) = None) \<and> (\<forall>u. hc_url_ok hc u))"

lemma put_rank:
  assumes "i < length (fl_parts fl)" "part_rank s < part_rank (fl_parts fl ! i)"
  shows "fleet_rank (put_part fl i s) < fleet_rank fl"
  using over_parts_put [OF assms(1), of part_rank s] assms(2) by (simp add: fleet_rank_def)

lemma fleet_rank_fields [simp]:
  "fleet_rank (fl\<lparr>fl_senders := k\<rparr>) = fleet_rank fl" "fleet_rank (fl\<lparr>fl_fetcher := f\<rparr>) = fleet_rank fl"
  by (simp_all add: fleet_rank_def)

lemma no_open_no_fetch:
  assumes "stop_inv fl" "fleet_draining fl" "i < length (fl_parts fl)" "sm_loop (fl_parts fl ! i) = Fetching"
  shows "fl_senders fl \<noteq> 0"
proof
  assume "fl_senders fl = 0"
  then have "over_parts is_open fl = 0" using assms(1,2) by (simp add: stop_inv_def fleet_draining_def)
  then have "is_open (fl_parts fl ! i) = 0" using assms(3) by (simp add: over_parts_0)
  then show False using assms(4) by (simp add: is_open_def)
qed

lemma fleet_falls:
  assumes "fleet_work hc wr fl es fl'" "stop_inv fl" "fleet_draining fl"
  shows "fleet_draining fl' \<and> fleet_rank fl' < fleet_rank fl"
  using assms(1)
proof (cases rule: fleet_work.cases)
  case (fleet_fetch i s p v batch)
  then show ?thesis using no_open_no_fetch [OF assms(2,3)] by simp
next
  case fleet_return
  then show ?thesis using assms(3) by (simp add: fleet_draining_def fleet_rank_def)
qed (use assms(3) in \<open>auto simp: fleet_draining_def part_rank_def intro!: put_rank\<close>)

text \<open>A partition that has not stopped can move.\<close>

lemma part_handler_moves:
  assumes "i < length (fl_parts fl)" "sm_handler (fl_parts fl ! i) = Writing rs offset"
    and wr: "\<forall>p b. snd (wr p b) = None" and url: "\<forall>u. hc_url_ok hc u"
  shows "\<exists>es fl'. fleet_work hc wr fl es fl'"
proof (cases rs)
  case Nil
  then show ?thesis using assms(1,2) pf_commitOffset_ok [of hc offset "sm_pf (part fl i)"] url
    by (metis fleet_work.fleet_commit part_fields(2))
next
  case (Cons r rs')
  then show ?thesis using assms(1,2) handle_record_ok [of wr r "sm_pf (part fl i)"] wr
    by (metis fleet_work.fleet_write part_fields(2))
qed

lemma fleet_moves:
  assumes inv: "fleet_inv hc wr f hs fl" and dr: "fleet_draining fl" and nr: "fl_stop fl \<noteq> Stop_returned"
  shows "\<exists>es fl'. fleet_work hc wr fl es fl'"
proof (cases "lf_wait (fl_fetcher fl) = 0")
  case True
  have "fl_stop fl = Stop_waiting" using dr nr by (cases "fl_stop fl") (simp_all add: fleet_draining_def)
  then show ?thesis using True fleet_work.fleet_return by blast
next
  case False
  then obtain i where i: "i < length (fl_parts fl)" "sm_loop (fl_parts fl ! i) \<noteq> Stopped"
    using inv over_parts_0 [of is_active fl] by (auto simp: fleet_inv_def stop_inv_def is_active_def)
  have "reachable hc wr (fl_parts fl ! i)" using inv i(1) by (simp add: fleet_inv_def pipeline_inv_def)
  then have "delivery_inv (fl_parts fl ! i)" by (rule delivery_inv_reachable)
  then have nh: "sm_handler (fl_parts fl ! i) \<noteq> Halted" using i(2) by (simp add: delivery_inv_def)
  show ?thesis
  proof (cases "sm_handler (fl_parts fl ! i)")
    case (Writing rs offset)
    then show ?thesis using part_handler_moves [OF i(1) Writing, of wr hc] inv by (simp add: fleet_inv_def)
  next
    case Waiting
    show ?thesis
    proof (cases "sm_loop (fl_parts fl ! i)")
      case Fetching
      then obtain k where "fl_senders fl = Suc k"
        using no_open_no_fetch [OF _ dr i(1)] inv by (auto simp: fleet_inv_def gr0_conv_Suc)
      then show ?thesis using i(1) Fetching fleet_work.fleet_shutdown by fastforce
    next
      case (Offering rs)
      then show ?thesis using i(1) Waiting fleet_work.fleet_take by fastforce
    next
      case Signalling
      then show ?thesis using i(1) Waiting fleet_work.fleet_signal by fastforce
    qed (use i in simp)
  qed (use nh in simp)
qed

interpretation fleet_quiet: quiescing "fleet_work hc wr" "fleet_inv hc wr f" fleet_draining "\<lambda>fl. fl_stop fl = Stop_returned" fleet_rank
proof unfold_locales
  fix hs fl es fl' assume "fleet_inv hc wr f hs fl" "fleet_work hc wr fl es fl'"
  then show "fleet_inv hc wr f (hs @ es) fl'"
    using pipeline_inv_step fleet_works stop_inv_work unfolding fleet_inv_def by blast
next
  fix hs fl es fl' assume "fleet_inv hc wr f hs fl" "fleet_draining fl" "fleet_work hc wr fl es fl'"
  then show "fleet_draining fl' \<and> fleet_rank fl' < fleet_rank fl" using fleet_falls unfolding fleet_inv_def by blast
qed (rule fleet_moves)

lemma senders_arrive:
  "\<exists>fl'. execs (fleet_work hc wr) (fl_spawned fl) fl [] fl' \<and> fl_spawned fl' = 0 \<and> fl_stop fl' = fl_stop fl"
proof (induction "fl_spawned fl" arbitrary: fl)
  case 0
  then show ?case by (metis execs_refl)
next
  case (Suc k)
  let ?fl = "fl\<lparr>fl_spawned := k, fl_senders := Suc (fl_senders fl)\<rparr>"
  have "fleet_work hc wr fl [] ?fl" using Suc(2) by (simp add: fleet_work.fleet_send)
  moreover obtain fl' where "execs (fleet_work hc wr) k ?fl [] fl'" "fl_spawned fl' = 0" "fl_stop fl' = fl_stop fl"
    using Suc(1) [of ?fl] by auto
  ultimately show ?case using execs_front [of "fleet_work hc wr"] Suc(2) by metis
qed

lemma fleet_inv_reachable:
  assumes "lf_wait f = length (lf_partitionFetchers f)" "execs (fleet_step hc wr) n (fleet_init f) es fl"
    and "\<forall>p b. snd (wr p b) = None" "\<forall>u. hc_url_ok hc u"
  shows "fleet_inv hc wr f es fl"
  unfolding fleet_inv_def
  using fleet_pipe.reachable [OF assms(2) pipeline_inv_init] fleet_stop.reachable [OF assms(2) stop_inv_init [OF assms(1)]] assms(3,4)
  by blast

lemma Stop_can_return:
  assumes "fleet_inv hc wr f hs fl" "fl_stop fl \<noteq> Stop_uncalled"
  shows "\<exists>n es fl'. execs (fleet_work hc wr) n fl es fl' \<and> fl_stop fl' = Stop_returned"
proof -
  obtain fl1 where fl1: "execs (fleet_work hc wr) (fl_spawned fl) fl [] fl1" "fl_spawned fl1 = 0" "fl_stop fl1 = fl_stop fl"
    using senders_arrive by blast
  have "fleet_inv hc wr f (hs @ []) fl1" by (rule fleet_quiet.execs_hinv [OF fl1(1) assms(1)])
  then obtain n es fl' where "execs (fleet_work hc wr) n fl1 es fl'" "fl_stop fl' = Stop_returned"
    using fleet_quiet.reaches_final fl1(2,3) assms(2) unfolding fleet_draining_def by metis
  then show ?thesis using execs_trans [OF _ fl1(1)] by blast
qed

text \<open>A run in which \<open>Stop\<close> is called at once.\<close>

lemma fleet_stop_at_once:
  "execs (fleet_step hc wr) 1 (fleet_init f) []
     ((fleet_init f)\<lparr>fl_spawned := length (fl_parts (fleet_init f)), fl_stop := Stop_waiting\<rparr>)"
  by (rule execs_one, rule fleet_works, rule fleet_call_Stop) (simp add: fleet_init_def)

lemma execs_works: "execs (fleet_work hc wr) n fl es fl' \<Longrightarrow> execs (fleet_step hc wr) n fl es fl'"
  by (induction rule: execs.induct) (auto intro: execs_step fleet_works)

lemma fleet_run_to_end:
  assumes "lf_wait f = length (lf_partitionFetchers f)" "\<forall>p b. snd (wr p b) = None" "\<forall>u. hc_url_ok hc u"
  shows "\<exists>n es fl. execs (fleet_step hc wr) n (fleet_init f) es fl \<and> fl_stop fl = Stop_returned"
proof -
  note inv = fleet_inv_reachable [OF assms(1) fleet_stop_at_once assms(2,3)]
  obtain m fs fl where "execs (fleet_work hc wr) m
      ((fleet_init f)\<lparr>fl_spawned := length (fl_parts (fleet_init f)), fl_stop := Stop_waiting\<rparr>) fs fl" "fl_stop fl = Stop_returned"
    using Stop_can_return [OF inv] by auto
  then show ?thesis using execs_trans [OF execs_works fleet_stop_at_once] by blast
qed

section \<open>Properties of the fetcher\<close>

text \<open>C14. Partitions that share one pipeline do not disturb each other: in every state after \<open>Start\<close>, however the
  loops, handlers and monitors of all partitions interleave, the pipeline holds exactly the records the
  handlers wrote; those of one partition are, in order, a prefix of what it fetched; and when \<open>Stop\<close>
  has returned every partition has stopped and every record that was fetched has been written.\<close>

theorem fleet_delivers:
  assumes "Start hc f0 = Some (f, Inr ())" "lf_wait f0 = 0"
    and run: "execs (fleet_step hc wr) n (fleet_init f) es fl"
  shows "lf_writer (fl_fetcher fl) = foldl (\<lambda>p b. fst (wr p b)) (lf_writer f) (map snd es) \<and>
    (\<forall>i < length (fl_parts fl). \<exists>rest. map record_bytes (sm_fetched (fl_parts fl ! i)) = map snd (filter (\<lambda>e. fst e = i) es) @ rest) \<and>
    (fl_stop fl = Stop_returned \<longrightarrow> (\<forall>i < length (fl_parts fl). sm_loop (fl_parts fl ! i) = Stopped \<and>
       sm_handler (fl_parts fl ! i) = Halted \<and>
       map snd (filter (\<lambda>e. fst e = i) es) = map record_bytes (sm_fetched (fl_parts fl ! i))))"
proof -
  have pipe: "pipeline_inv hc wr f es fl" by (rule fleet_pipe.reachable [OF run pipeline_inv_init])
  have "lf_wait f = length (lf_partitionFetchers f)" using Start_wait [OF assms(1)] assms(2) by simp
  then have stop: "stop_inv fl" using fleet_stop.reachable [OF run stop_inv_init] by blast
  have own: "delivery_inv (fl_parts fl ! i)" "map snd (filter (\<lambda>e. fst e = i) es) = writes (sm_events (fl_parts fl ! i))"
    if "i < length (fl_parts fl)" for i
    using pipe that by (auto simp: pipeline_inv_def intro: delivery_inv_reachable)
  have "\<exists>rest. map record_bytes (sm_fetched (fl_parts fl ! i)) = map snd (filter (\<lambda>e. fst e = i) es) @ rest"
    if "i < length (fl_parts fl)" for i
    using own [OF that] by (auto simp: delivery_inv_def)
  moreover have "sm_loop (fl_parts fl ! i) = Stopped \<and> sm_handler (fl_parts fl ! i) = Halted \<and>
      map snd (filter (\<lambda>e. fst e = i) es) = map record_bytes (sm_fetched (fl_parts fl ! i))"
    if "fl_stop fl = Stop_returned" "i < length (fl_parts fl)" for i
    using own [OF that(2)] all_stopped [OF stop that(1) nth_mem [OF that(2)]] by (simp add: delivery_inv_def)
  ultimately show ?thesis using pipe unfolding pipeline_inv_def by blast
qed

text \<open>C15. \<open>Stop\<close> of the fetcher can always return: whenever it has been called, if the pipeline takes the records
  and the address is a URL, some schedule lets it return. Once its goroutines are all in their send,
  every schedule does, within a number of steps that is fixed by the records in hand, and it can get
  stuck nowhere else.\<close>

theorem fetcher_Stop_returns:
  assumes "Start hc f0 = Some (f, Inr ())" "lf_wait f0 = 0"
    and "execs (fleet_step hc wr) n (fleet_init f) es fl" "fl_stop fl \<noteq> Stop_uncalled"
    and "\<And>p b. snd (wr p b) = None" "\<And>u. hc_url_ok hc u"
  shows "(\<exists>m fs fl'. execs (fleet_work hc wr) m fl fs fl' \<and> fl_stop fl' = Stop_returned) \<and>
    (fl_spawned fl = 0 \<longrightarrow> (\<forall>m fs fl'. execs (fleet_work hc wr) m fl fs fl' \<longrightarrow>
       m \<le> fleet_rank fl \<and> ((\<nexists>gs fl''. fleet_work hc wr fl' gs fl'') \<longrightarrow> fl_stop fl' = Stop_returned)))"
proof -
  have "lf_wait f = length (lf_partitionFetchers f)" using Start_wait [OF assms(1)] assms(2) by simp
  then have inv: "fleet_inv hc wr f es fl" using fleet_inv_reachable assms(3,5,6) by blast
  have "m \<le> fleet_rank fl \<and> ((\<nexists>gs fl''. fleet_work hc wr fl' gs fl'') \<longrightarrow> fl_stop fl' = Stop_returned)"
    if "fl_spawned fl = 0" "execs (fleet_work hc wr) m fl fs fl'" for m fs fl'
  proof -
    have "fleet_draining fl" using that(1) assms(4) by (simp add: fleet_draining_def)
    from fleet_quiet.rank_bounds [OF that(2) inv this] fleet_quiet.stuck_is_final [OF that(2) inv this]
    show ?thesis by (simp add: add_leD2)
  qed
  then show ?thesis using Stop_can_return [OF inv assms(4)] by blast
qed

section \<open>A run of two partitions\<close>

lemma ex_fleet:
  "\<exists>f. Start ex_api_hc ex_fetcher = Some (f, Inr ()) \<and> length (lf_partitionFetchers f) = 2 \<and> lf_wait ex_fetcher = 0 \<and>
       lf_wait f = length (lf_partitionFetchers f)"
proof -
  have "lf_wait ex_fetcher = 0" by code_simp
  then show ?thesis
    using ex_Start Start_wait [of ex_api_hc ex_fetcher] Start_fetches_indices [of ex_api_hc ex_fetcher]
    by (auto simp: ex_Start_ok_def outcome_Some split: option.splits dest: arg_cong [of _ _ length])
qed

lemma ex_api_ok: "\<forall>p b. snd (ex_list_wr p b) = None" "\<forall>u. hc_url_ok ex_api_hc u"
  by (simp_all add: ex_list_wr_def ex_api_hc_def)

theorem fetcher_Stop_returns_witness:
  "\<exists>f fl m fs fl'. Start ex_api_hc ex_fetcher = Some (f, Inr ()) \<and> length (fl_parts fl) = 2 \<and>
     execs (fleet_step ex_api_hc ex_list_wr) 1 (fleet_init f) [] fl \<and> execs (fleet_work ex_api_hc ex_list_wr) m fl fs fl' \<and>
     fl_stop fl' = Stop_returned"
proof -
  obtain f where f: "Start ex_api_hc ex_fetcher = Some (f, Inr ())" "length (lf_partitionFetchers f) = 2" "lf_wait ex_fetcher = 0"
    "lf_wait f = length (lf_partitionFetchers f)" using ex_fleet by blast
  let ?fl = "(fleet_init f)\<lparr>fl_spawned := length (fl_parts (fleet_init f)), fl_stop := Stop_waiting\<rparr>"
  have "length (fl_parts ?fl) = 2" using f(2) by (simp add: fleet_init_def)
  moreover note fleet_stop_at_once [of ex_api_hc ex_list_wr f]
  moreover have "\<exists>m fs fl'. execs (fleet_work ex_api_hc ex_list_wr) m ?fl fs fl' \<and> fl_stop fl' = Stop_returned"
    using fetcher_Stop_returns [OF f(1,3) fleet_stop_at_once [of ex_api_hc ex_list_wr f]] ex_api_ok by simp
  ultimately show ?thesis using f(1) by blast
qed

theorem fleet_delivers_witness:
  "\<exists>f n es fl. Start ex_api_hc ex_fetcher = Some (f, Inr ()) \<and> execs (fleet_step ex_api_hc ex_list_wr) n (fleet_init f) es fl \<and>
     length (fl_parts fl) = 2 \<and> sm_loop (fl_parts fl ! 1) = Stopped"
proof -
  obtain f where f: "Start ex_api_hc ex_fetcher = Some (f, Inr ())" "length (lf_partitionFetchers f) = 2" "lf_wait ex_fetcher = 0"
    "lf_wait f = length (lf_partitionFetchers f)" using ex_fleet by blast
  obtain n es fl where run: "execs (fleet_step ex_api_hc ex_list_wr) n (fleet_init f) es fl" and fl: "fl_stop fl = Stop_returned"
    using fleet_run_to_end [OF f(4) ex_api_ok] by blast
  have len: "length (fl_parts fl) = 2"
    using fleet_inv_reachable [OF f(4) run ex_api_ok] f(2) by (simp add: fleet_inv_def pipeline_inv_def)
  then have "sm_loop (fl_parts fl ! 1) = Stopped" using fleet_delivers [OF f(1,3) run] fl by simp
  then show ?thesis using f(1) run len by blast
qed

end
