(* ===== verification/Programs.thy ===== *)
theory Programs
  imports Writer_Config Fetcher_Lifecycle
begin

text \<open>
  The commands under \<open>cmd\<close>: how \<open>Run\<close> of the fetcher, of the processor and of the writer choose, create and start
  their component (\<open>getNameFromConfigFile\<close>, \<open>createLogFetcher\<close>, \<open>createLogProcessor\<close>, \<open>createLogWriter\<close>), and how the signal to stop
  reaches them (\<open>pkg/sys/signal.go\<close>, \<open>cmd/event-log-client/main.go\<close>). The text of the configuration file
  is read several times, into a different structure each time; the YAML library is a function for each
  of them.
\<close>

section \<open>Choosing a component\<close>

text \<open>The name, by the name that is the default of the command.\<close>

definition getNameFromConfigFile :: "(string \<Rightarrow> string \<Rightarrow> string option) \<Rightarrow> string \<Rightarrow> string option \<Rightarrow> string option" where
  "getNameFromConfigFile yaml dflt content = from_file yaml dflt content"

definition createLogFetcher :: "(string \<Rightarrow> string \<Rightarrow> string option) \<Rightarrow> string option \<Rightarrow> fetcher_factory option" where
  "createLogFetcher yaml content =
     do { name \<leftarrow> getNameFromConfigFile yaml ''mix-log-api'' content;
          reg \<leftarrow> fetchers_init;
          die_on_error (CreateLogFetcher reg name) }"

section \<open>The fetcher\<close>

record fetcher_yaml =
  yf_name :: "string \<Rightarrow> string \<Rightarrow> string option"
  yf_config :: "string \<Rightarrow> Config \<Rightarrow> Config option"
  yf_pipeline :: "string \<Rightarrow> PipelineParams \<Rightarrow> PipelineParams option"

record ('n, 'p) fetcher_world =
  fo_brokers :: brokers
  fo_tmp :: string
  fo_env :: "string \<Rightarrow> string option"
  fo_openQueue :: "string \<Rightarrow> string option"
  fo_http :: "'n http_client"
  fo_sys :: "'n sys"
  fo_pipe :: "pipe_writer option \<Rightarrow> 'p"

text \<open>\<open>NewLogFetcher\<close> with the loading of its configuration. An error of \<open>CreateWriter\<close> is dropped: the writer is
  nil then. The name is the one the factory was chosen by: the same file, the same member, the same default.\<close>

definition make_fetcher ::
  "('n, 'p) fetcher_world \<Rightarrow> fetcher_yaml \<Rightarrow> string option \<Rightarrow> (pipe_writer option \<times> ('n, 'p) LogFetcher) option" where
  "make_fetcher wo ya content =
     do { name \<leftarrow> getNameFromConfigFile (yf_name ya) ''mix-log-api'' content;
          cfg \<leftarrow> loadConfigFromFile (yf_config ya) (fo_env wo) content;
          created \<leftarrow> CreateWriter (fo_brokers wo) (LoadPipelineConfigFromFile (yf_pipeline ya) (fo_tmp wo) content) FETCHER;
          let w = (case created of Inl _ \<Rightarrow> None | Inr w \<Rightarrow> w);
          f \<leftarrow> NewLogFetcher name cfg (fo_pipe wo w) (fo_sys wo);
          Some (w, f) }"

text \<open>\<open>Run\<close> up to the wait for a signal. \<open>Start\<close> opens the pipeline writer and drops the error of that; on a nil
  writer the process dies.\<close>

definition fetcher_Run :: "('n, 'p) fetcher_world \<Rightarrow> fetcher_yaml \<Rightarrow> string option \<Rightarrow> ('n, 'p) LogFetcher option" where
  "fetcher_Run wo ya content =
     do { Mix_log_api_fetcher \<leftarrow> createLogFetcher (yf_name ya) content;
          (w, f) \<leftarrow> make_fetcher wo ya content;
          _ \<leftarrow> writer_Open (fo_openQueue wo) w;
          (f', _) \<leftarrow> Start (fo_http wo) f;
          Some f' }"

section \<open>The processor\<close>

record processor_yaml =
  yp_name :: "string \<Rightarrow> string \<Rightarrow> string option"
  yp_processor :: "string \<Rightarrow> LogProcessorYaml \<Rightarrow> LogProcessorYaml option"
  yp_pipeline :: "string \<Rightarrow> PipelineParams \<Rightarrow> PipelineParams option"

definition createLogProcessor :: "'r world \<Rightarrow> processor_yaml \<Rightarrow> string option \<Rightarrow> ('j, 'r) processor_object option" where
  "createLogProcessor wo ya content =
     do { name \<leftarrow> getNameFromConfigFile (yp_name ya) ''mix-default'' content;
          reg \<leftarrow> processors_init;
          f \<leftarrow> die_on_error (CreateLogProcessor reg name);
          new_processor wo f (LoadConfigFromFile (yp_processor ya) content)
            (LoadPipelineConfigFromFile (yp_pipeline ya) (wo_tmp wo) content) }"

text \<open>\<open>Run\<close> up to the wait for a signal. The error of \<open>Start\<close> is returned here for the statements below; the
  code drops it and waits.\<close>

definition processor_Run :: "'r world \<Rightarrow> processor_yaml \<Rightarrow> string option \<Rightarrow> (('j, 'r) processor_object \<times> string option) option" where
  "processor_Run wo ya content = do { p \<leftarrow> createLogProcessor wo ya content; object_Start wo p }"

section \<open>The writer\<close>

record writer_yaml =
  yw_name :: "string \<Rightarrow> string \<Rightarrow> string option"
  yw_es :: "string \<Rightarrow> es_Config LogWriterYaml \<Rightarrow> es_Config LogWriterYaml option"
  yw_os :: "string \<Rightarrow> os_Config LogWriterYaml \<Rightarrow> os_Config LogWriterYaml option"
  yw_mongo :: "string \<Rightarrow> mongo_Config LogWriterYaml \<Rightarrow> mongo_Config LogWriterYaml option"
  yw_neap :: "string \<Rightarrow> neap_Config LogWriterYaml \<Rightarrow> neap_Config LogWriterYaml option"
  yw_fluentd :: "string \<Rightarrow> fluentd_Config LogWriterYaml \<Rightarrow> fluentd_Config LogWriterYaml option"
  yw_mlp :: "string \<Rightarrow> mlp_Config LogWriterYaml \<Rightarrow> mlp_Config LogWriterYaml option"
  yw_fs :: "string \<Rightarrow> fs_Config LogWriterYaml \<Rightarrow> fs_Config LogWriterYaml option"
  yw_pipeline :: "string \<Rightarrow> PipelineParams \<Rightarrow> PipelineParams option"

text \<open>The outside world of a writer: the environment, the network, and the servers.\<close>

record 'n writer_world =
  ww_brokers :: brokers
  ww_tmp :: string
  ww_openQueue :: "string \<Rightarrow> string option"
  ww_env :: "string \<Rightarrow> string option"
  ww_http :: "'n http_client"
  ww_sys :: "'n sys"
  ww_mkdir :: "string \<Rightarrow> bool"
  ww_es_ping :: "es_Config \<Rightarrow> int option"
  ww_es_info :: "es_Config \<Rightarrow> (int \<times> string) option"
  ww_os_ping :: "os_Config \<Rightarrow> int option"
  ww_mongo_new :: "string \<Rightarrow> bool"
  ww_mongo_connect :: "string \<Rightarrow> bool"
  ww_fluent :: "string \<Rightarrow> bool \<Rightarrow> int \<Rightarrow> 'n option"

text \<open>The storages have different types; what \<open>Start\<close> and \<open>Stop\<close> need of a writer is its life and its
  reader.\<close>

definition writer_core :: "('c, 's) writer_object \<Rightarrow> string log_writer \<times> reader option" where
  "writer_core w = (lo_life w, lo_reader w)"

definition make_writer ::
  "'n writer_world \<Rightarrow> writer_yaml \<Rightarrow> string option \<Rightarrow> writer_factory \<Rightarrow> (string log_writer \<times> reader option) option" where
  "make_writer wo ya content f =
     (let br = ww_brokers wo; env = ww_env wo;
          pipe = LoadPipelineConfigFromFile (yw_pipeline ya) (ww_tmp wo) content
      in case f of
           Filesystem_writer \<Rightarrow> map_option writer_core
             (fs_NewLogWriter br (ww_http wo) (ww_mkdir wo) (fs_loadConfigFromFile (yw_fs ya) env content) pipe
                :: (fs_Config, 'n fs_writer \<times> unit Authenticator option) writer_object option)
         | Elasticsearch_writer \<Rightarrow> map_option writer_core
             (es_NewLogWriter br (ww_es_ping wo) (ww_es_info wo) (es_loadConfigFromFile (yw_es ya) env content) pipe)
         | Opensearch_writer \<Rightarrow> map_option writer_core
             (os_NewLogWriter br (ww_os_ping wo) (os_loadConfigFromFile (yw_os ya) env content) pipe)
         | Mongodb_writer \<Rightarrow> map_option writer_core
             (mongo_NewLogWriter br (ww_mongo_new wo) (ww_mongo_connect wo) (mongo_loadConfigFromFile (yw_mongo ya) env content) pipe)
         | Fluentd_writer \<Rightarrow> map_option writer_core
             (fluentd_NewLogWriter br (ww_fluent wo) (fluentd_loadConfigFromFile (yw_fluentd ya) content) pipe)
         | Neap_writer \<Rightarrow> map_option writer_core (neap_NewLogWriter br (neap_loadConfigFromFile (yw_neap ya) content) pipe)
         | Mix_log_producer_writer \<Rightarrow> map_option writer_core
             (mlp_NewLogWriter br (ww_http wo) (ww_sys wo) (mlp_loadConfigFromFile (yw_mlp ya) env content) pipe
                :: (mlp_Config, (mlp_handler, MixLogProducerApiRequestRecord list) storage_system \<times> unit Authenticator \<times> 'n sys)
                     writer_object option))"

definition createLogWriter :: "'n writer_world \<Rightarrow> writer_yaml \<Rightarrow> string option \<Rightarrow> (string log_writer \<times> reader option) option" where
  "createLogWriter wo ya content =
     do { name \<leftarrow> getNameFromConfigFile (yw_name ya) ''filesystem'' content;
          reg \<leftarrow> writers_init;
          f \<leftarrow> die_on_error (CreateLogWriter reg name);
          make_writer wo ya content f }"

definition writer_Run :: "'n writer_world \<Rightarrow> writer_yaml \<Rightarrow> string option \<Rightarrow> (string log_writer \<times> string option) option" where
  "writer_Run wo ya content =
     do { (l, rd) \<leftarrow> createLogWriter wo ya content;
          readerOpen \<leftarrow> reader_Open (ww_openQueue wo) rd;
          Some (writer_Start readerOpen l) }"

section \<open>What a program starts\<close>

text \<open>\<open>Start\<close> dies instead of returning an error.\<close>

lemma each_no_error:
  assumes "\<And>x s s' e. g x s \<noteq> Some (s', Inl e)"
  shows "each g xs s \<noteq> Some (s', Inl e)"
  using assms by (induction xs arbitrary: s) (auto simp: andThen_def ret_def split: option.splits sum.splits)

lemma Start_no_error: "Start hc f \<noteq> Some (f', Inl e)"
proof -
  have "andThen (modify (\<lambda>f. f\<lparr>lf_wait := Suc (lf_wait f)\<rparr>)) (\<lambda>_. or_die (createPartitionFetcher hc p)) s \<noteq> Some (s', Inl e)"
    for p s s' e by (auto simp: prog_defs split: option.splits sum.splits)
  note no = each_no_error [of "\<lambda>p. andThen (modify (\<lambda>f. f\<lparr>lf_wait := Suc (lf_wait f)\<rparr>)) (\<lambda>_. or_die (createPartitionFetcher hc p))", OF this]
  show ?thesis using no
    by (auto simp: Start_def andThen_def or_die_def modify_def split: option.splits sum.splits prod.splits)
qed

text \<open>The program \<open>event-log-fetcher\<close> starts a fetcher as \<open>Fetcher_Lifecycle\<close> assumes it.\<close>

lemma fetcher_Run_started:
  assumes "fetcher_Run wo ya content = Some f"
  shows "\<exists>f0. Start (fo_http wo) f0 = Some (f, Inr ()) \<and> lf_wait f0 = 0"
proof -
  obtain w f0 r where f0: "make_fetcher wo ya content = Some (w, f0)" and start: "Start (fo_http wo) f0 = Some (f, r)"
    using assms by (auto simp: fetcher_Run_def bind_eq_Some_conv split: fetcher_factory.splits)
  have "lf_wait f0 = 0"
    using f0 by (auto simp: make_fetcher_def NewLogFetcher_def bind_eq_Some_conv Let_def)
  moreover have "r = Inr ()" using start Start_no_error [of "fo_http wo" f0 f] by (cases r) auto
  ultimately show ?thesis using start by blast
qed

lemma core_made:
  "NewLogWriter br kind numWorkers storage yml pipe = Some w \<Longrightarrow> writer_core w = (l, rd) \<Longrightarrow> \<exists>n. new_channels kind n = Some l"
  using NewLogWriter_made [of br kind numWorkers storage yml pipe w] by (auto simp: writer_core_def)

text \<open>However it is configured, a writer that is created is a fresh one, of one of the three kinds of
  \<open>Writer_Lifecycle\<close>.\<close>

lemma make_writer_fresh:
  assumes "make_writer wo ya content f = Some (l, rd)"
  shows "\<exists>k \<in> {storage_writer, fluentd_writer, filesystem_writer}. \<exists>n. new_channels k n = Some l"
  using assms
  by (cases f)
    (auto simp: make_writer_def Let_def fs_NewLogWriter_def es_NewLogWriter_def os_NewLogWriter_def mongo_NewLogWriter_def
      fluentd_NewLogWriter_def neap_NewLogWriter_def mlp_NewLogWriter_def bind_eq_Some_conv split: if_splits dest!: core_made)

lemma new_processor_fresh:
  assumes "new_processor wo f yml pipe = Some p"
  shows "\<exists>n \<ge> 0. po_life p = processor_Init n \<and> n = pf_NumWorkers (po_Cfg p)"
  using assms by (auto simp: new_processor_def bind_eq_Some_conv split: if_splits)

lemma processor_Run_life:
  assumes "processor_Run wo ya content = Some (p, err)"
  shows "\<exists>rd wr. (po_life p, err) = processor_Start rd wr (processor_Init (pf_NumWorkers (po_Cfg p)))"
  using assms
  by (auto simp: processor_Run_def createLogProcessor_def object_Start_def bind_eq_Some_conv Let_def case_prod_beta
    dest!: new_processor_fresh) (metis prod.collapse)

lemma started_is_running:
  assumes "(q, None) = processor_Start rd wr (processor_Init n)" "execs processor_step m q rs q'"
  shows "running_processor n rs q'"
  using assms by (auto simp: running_processor_def processor_Start_def split: option.splits)


text \<open>The same is true of the program \<open>event-log-writer\<close>.\<close>

interpretation writer_not_started: history_invariant "writer_step :: string log_writer \<Rightarrow> _"
  "\<lambda>rs l. rs = [] \<and> lw_fetch l = WNotRunning \<and> lw_handler l = HNotRunning \<and> lw_stop l = WStopOffers"
  by unfold_locales (auto elim!: writer_elims)

lemma failed_writer_start_hangs:
  assumes "writer_Run wo ya content = Some (l, Some err)" "execs writer_step m (writer_Stop l) rs l'"
  shows "lw_stop l' = WStopOffers \<and> rs = []"
proof -
  obtain l0 rd f rdo where "make_writer wo ya content f = Some (l0, rd)" "writer_Start rdo l0 = (l, Some err)"
    using assms(1) by (auto simp: writer_Run_def createLogWriter_def bind_eq_Some_conv)
  then have "lw_fetch l = WNotRunning" "lw_handler l = HNotRunning"
    using make_writer_fresh [of wo ya content f l0 rd] by (auto simp: writer_Start_def new_channels_def split: option.splits if_splits)
  then show ?thesis using writer_not_started.reachable [OF assms(2)] by (simp add: writer_Stop_def)
qed

section \<open>The default configuration\<close>

lemma default_reader_writer:
  "CreateReader br (Some (DefaultPipelineYaml tmp)) PROCESSOR = Some (Inr (Some (EmbeddedReader (default_reader (path_join tmp ''fetcher'')))))"
  "CreateReader br (Some (DefaultPipelineYaml tmp)) WRITER = Some (Inr (Some (EmbeddedReader (default_reader (path_join tmp ''processor'')))))"
  "CreateWriter br (Some (DefaultPipelineYaml tmp)) PROCESSOR = Some (Inr (Some (EmbeddedWriter (default_writer (path_join tmp ''processor'')))))"
  by (simp_all add: CreateReader_def CreateWriter_def DefaultPipelineYaml_def NewReader_def NewWriter_def)

lemma default_open:
  "reader_Open oq (Some (EmbeddedReader (default_reader d))) = Some (oq d)"
  "writer_Open oq (Some (EmbeddedWriter (default_writer d))) = Some (oq d)"
  by (simp_all add: reader_Open_def writer_Open_def default_reader_def default_writer_def)

lemmas default_loading = getNameFromConfigFile_def from_file_def LoadConfigFromFile_def LoadPipelineConfigFromFile_def

definition start_error :: "(string \<Rightarrow> string option) \<Rightarrow> string \<Rightarrow> string option" where
  "start_error openQueue tmp =
     (case openQueue (path_join tmp ''fetcher'') of Some e \<Rightarrow> Some e | None \<Rightarrow> openQueue (path_join tmp ''processor''))"

lemma registries_made:
  "\<exists>r. processors_init = Some r \<and> create_named r ''mix-default'' = Inr Mix_default_processor"
  "\<exists>r. caches_init = Some r \<and> create_named r ''local'' = Inr Local_cache"
  "\<exists>r. writers_init = Some r \<and> create_named r ''filesystem'' = Inr Filesystem_writer"
  unfolding processors_init_def caches_init_def writers_init_def
  using registered_names [unfolded processors_init_def caches_init_def writers_init_def] register_all_lookup
  by (metis option.sel)+

lemma default_Run:
  "\<exists>p. processor_Run wo ya None = Some (p, start_error (wo_openQueue wo) (wo_tmp wo)) \<and>
     po_flow p = Mix_default_processor \<and> po_Name p = ''noop'' \<and> pf_NumWorkers (po_Cfg p) = 1 \<and>
     po_reader p = Some (EmbeddedReader (default_reader (path_join (wo_tmp wo) ''fetcher''))) \<and>
     po_writer p = Some (EmbeddedWriter (default_writer (path_join (wo_tmp wo) ''processor'')))"
proof -
  obtain r c where i: "processors_init = Some r" "create_named r ''mix-default'' = Inr Mix_default_processor"
    "caches_init = Some c" "create_named c ''local'' = Inr Local_cache"
    using registries_made(1,2) by blast
  show ?thesis
    by (simp add: processor_Run_def createLogProcessor_def default_loading i new_processor_def
      CreateCache_def default_reader_writer object_Start_def default_open DefaultLogProcessorYaml_def start_error_def
      processor_Start_def split: option.split)
qed


section \<open>Signals\<close>

text \<open>The channel of \<open>NewSignal\<close> has no place, and \<open>signal.Notify\<close> does not wait: a signal reaches only a
  goroutine that is in \<open>ReceiveShutDown\<close>. The phases of \<open>Run\<close>: creating and starting the component,
  waiting for the signal, in \<open>Stop\<close>, and returned.\<close>

datatype run_pc = RunStarting | RunWaiting | RunStopping | RunDone

definition on_signal :: "run_pc \<Rightarrow> run_pc" where
  "on_signal pc = (if pc = RunWaiting then RunStopping else pc)"

text \<open>\<open>event-log-client\<close>: the three programs as goroutines, and \<open>main\<close>, which has a channel of its own and
  waits for the three in the end.\<close>

record client =
  cl_main :: run_pc
  cl_parts :: "run_pc list"

definition client_main :: client where
  "client_main = \<lparr>cl_main = RunStarting, cl_parts = replicate 3 RunStarting\<rparr>"

text \<open>The label has an element for each signal.\<close>

inductive client_step :: "client \<Rightarrow> unit list \<Rightarrow> client \<Rightarrow> bool" where
  started: "cl_parts c = xs @ RunStarting # ys \<Longrightarrow> client_step c [] (c\<lparr>cl_parts := xs @ RunWaiting # ys\<rparr>)"
| main_waits: "cl_main c = RunStarting \<Longrightarrow> client_step c [] (c\<lparr>cl_main := RunWaiting\<rparr>)"
| signalled: "client_step c [()] (c\<lparr>cl_main := on_signal (cl_main c), cl_parts := map on_signal (cl_parts c)\<rparr>)"
| stopped: "cl_parts c = xs @ RunStopping # ys \<Longrightarrow> client_step c [] (c\<lparr>cl_parts := xs @ RunDone # ys\<rparr>)"
| main_done: "cl_main c = RunStopping \<Longrightarrow> set (cl_parts c) \<subseteq> {RunDone} \<Longrightarrow> client_step c [] (c\<lparr>cl_main := RunDone\<rparr>)"

inductive_cases client_stepE: "client_step c es c'"
inductive_simps client_signal: "client_step c [e] c'"

lemma signal_lost: "client_step c [()] c' \<Longrightarrow> RunStarting \<in> set (cl_main c # cl_parts c) \<Longrightarrow> RunStarting \<in> set (cl_main c' # cl_parts c')"
  using image_eqI [of RunStarting on_signal RunStarting "set (cl_parts c)"] by (auto simp: client_signal on_signal_def)

text \<open>A part that has stopped, or is about to, was waiting when a signal came.\<close>

definition client_inv :: "unit list \<Rightarrow> client \<Rightarrow> bool" where
  "client_inv es c =
     ((cl_main c = RunDone \<longrightarrow> set (cl_parts c) \<subseteq> {RunDone}) \<and>
      (es = [] \<longrightarrow> set (cl_main c # cl_parts c) \<subseteq> {RunStarting, RunWaiting}))"

interpretation client: history_invariant client_step client_inv
proof
  fix hs es :: "unit list" and c c'
  assume i: "client_inv hs c" and s: "client_step c es c'"
  show "client_inv (hs @ es) c'" using s i
    by (cases rule: client_step.cases) (auto simp: client_inv_def on_signal_def split: if_splits)
qed

text \<open>The signal was lost on somebody who was still starting: without another one he does not stop.\<close>

definition missed :: "client \<Rightarrow> bool" where
  "missed c = (\<exists>pc \<in> set (cl_main c # cl_parts c). pc \<in> {RunStarting, RunWaiting})"

lemma missed_iff: "missed c \<longleftrightarrow> \<not> set (cl_main c # cl_parts c) \<subseteq> {RunStopping, RunDone}"
proof -
  have "pc \<in> {RunStarting, RunWaiting} \<longleftrightarrow> pc \<notin> {RunStopping, RunDone}" for pc by (cases pc) simp_all
  then show ?thesis unfolding missed_def by blast
qed

lemma missed_kept: "client_step c [] c' \<Longrightarrow> missed c \<Longrightarrow> missed c'"
  unfolding missed_iff by (erule client_step.cases) simp_all

lemma missed_execs: "execs client_step n c es c' \<Longrightarrow> es = [] \<Longrightarrow> missed c \<Longrightarrow> missed c'"
proof (induction rule: execs.induct)
  case (execs_step n c es c' fs c'')
  then show ?case using missed_kept by simp
qed

text \<open>C40. How the signal to stop ends \<open>event-log-client\<close>. When \<open>main\<close> has returned, every part has, and
  there was a signal. But a signal that comes while a part, or \<open>main\<close>, is still starting is lost on it:
  as long as no other one comes, \<open>main\<close> does not return.\<close>

theorem client_shutdown:
  assumes "execs client_step n client_main es c" "client_step c [()] c'" "execs client_step m c' fs c''"
  shows "(cl_main c'' = RunDone \<longrightarrow> set (cl_parts c'') \<subseteq> {RunDone}) \<and> (cl_main c = RunDone \<longrightarrow> es \<noteq> []) \<and>
    (RunStarting \<in> set (cl_main c # cl_parts c) \<and> fs = [] \<longrightarrow> cl_main c'' \<noteq> RunDone)"
proof -
  have c: "client_inv es c" using client.reachable [OF assms(1)] by (auto simp: client_inv_def client_main_def)
  have c': "client_inv (es @ [()]) c'" using client.preserved [OF c assms(2)] .
  have c'': "client_inv (es @ [()] @ fs) c''" using client.execs_hinv [OF assms(3) c'] by simp
  have "missed c'" if "RunStarting \<in> set (cl_main c # cl_parts c)"
    using signal_lost [OF assms(2) that] by (auto simp: missed_def)
  then have "RunStarting \<in> set (cl_main c # cl_parts c) \<and> fs = [] \<longrightarrow> missed c''" using missed_execs [OF assms(3)] by blast
  moreover have "missed c'' \<Longrightarrow> cl_main c'' \<noteq> RunDone" using c'' by (auto simp: missed_def client_inv_def)
  ultimately show ?thesis using c c'' by (auto simp: client_inv_def)
qed

theorem client_shutdown_witness:
  "client_step client_main [()] client_main \<and> (\<nexists>m c. execs client_step m client_main [] c \<and> cl_main c = RunDone)"
proof -
  have s: "client_step client_main [()] client_main"
    using signalled [of client_main] by (simp add: client_main_def on_signal_def)
  have "cl_main c \<noteq> RunDone" if "execs client_step m client_main [] c" for m c
    using client_shutdown [OF execs_refl s that] by (simp add: client_main_def)
  then show ?thesis using s by blast
qed

section \<open>An example\<close>

definition ex_world :: "(string \<Rightarrow> string option) \<Rightarrow> unit world" where
  "ex_world openQueue =
     \<lparr>wo_brokers = ex_brokers, wo_tmp = ''/tmp'', wo_clock = (\<lambda>_. 0), wo_redis = (\<lambda>_. (None, ())), wo_openQueue = openQueue\<rparr>"

definition ex_yaml :: processor_yaml where
  "ex_yaml = \<lparr>yp_name = (\<lambda>_. Some), yp_processor = (\<lambda>_. Some), yp_pipeline = (\<lambda>_. Some)\<rparr>"


end
