(* ===== verification/Rate_Limiting.thy ===== *)
theory Rate_Limiting
  imports Configuration
begin

text \<open>
  The token bucket behind \<open>waitMyTurn\<close> of the five network storages: the part of \<open>golang.org/x/time/rate\<close>
  (vendored, \<open>rate.go\<close>) that \<open>Wait\<close> runs. Every attempt to commit takes one token of the limiter that
  \<^term>\<open>NewRateLimiter\<close> created, and waits when there is none.

  Times and durations are nanoseconds. The bucket is kept in nanoseconds too: \<open>rb_credit\<close> is \<open>tokens\<close> times the
  interval between two events, so \<open>durationFromTokens\<close> and \<open>tokensFromDuration\<close> become exact, where the code rounds
  binary fractions. A conversion to a duration that does not fit into 64 bits is not specified by the
  language, and the operation has no value there. The context is the background context: it has no
  deadline and is never cancelled, so \<open>WaitN\<close> never cancels a reservation.
\<close>

section \<open>The bucket\<close>

record rate_bucket =
  rb_limiter :: limiter
  rb_credit :: int
  rb_last :: int
  rb_lastEvent :: int

definition zero_time_ns :: int where
  "zero_time_ns = t_unix time_zero * 1000000000"

definition NewLimiter :: "limiter \<Rightarrow> rate_bucket" where
  "NewLimiter li = \<lparr>rb_limiter = li, rb_credit = 0, rb_last = zero_time_ns, rb_lastEvent = zero_time_ns\<rparr>"

definition InfDuration :: int where
  "InfDuration = 2 ^ 63 - 1"

text \<open>\<open>Sub\<close> of two times saturates.\<close>

definition time_Sub :: "int \<Rightarrow> int \<Rightarrow> int" where
  "time_Sub t u = max (- (2 ^ 63)) (min InfDuration (t - u))"

definition to_duration :: "int \<Rightarrow> int option" where
  "to_duration x = (if in_int64 x then Some x else None)"

text \<open>\<open>advance\<close>: the time, the time of the last update, and the credit that has accumulated.\<close>

definition rate_advance :: "rate_bucket \<Rightarrow> int \<Rightarrow> int \<Rightarrow> (int \<times> int \<times> int) option" where
  "rate_advance b interval now =
     (let last = (if now < rb_last b then now else rb_last b) in
      do { maxElapsed \<leftarrow> to_duration (li_burst (rb_limiter b) * interval - rb_credit b);
           let elapsed = (if time_Sub now last > maxElapsed then maxElapsed else time_Sub now last);
           let credit = rb_credit b + elapsed;
           Some (now, last, if credit > li_burst (rb_limiter b) * interval then li_burst (rb_limiter b) * interval else credit) })"

record reservation =
  rv_ok :: bool
  rv_tokens :: int
  rv_timeToAct :: int

definition rate_reserveN :: "rate_bucket \<Rightarrow> int \<Rightarrow> int \<Rightarrow> int \<Rightarrow> (reservation \<times> rate_bucket) option" where
  "rate_reserveN b now n maxFutureReserve =
     (case li_interval (rb_limiter b) of
        None \<Rightarrow> Some (\<lparr>rv_ok = True, rv_tokens = n, rv_timeToAct = now\<rparr>, b)
      | Some interval \<Rightarrow>
          do { (now, last, credit) \<leftarrow> rate_advance b interval now;
               let credit = credit - n * interval;
               waitDuration \<leftarrow> (if credit < 0 then to_duration (- credit) else Some 0);
               if n \<le> li_burst (rb_limiter b) \<and> waitDuration \<le> maxFutureReserve
               then Some (\<lparr>rv_ok = True, rv_tokens = n, rv_timeToAct = now + waitDuration\<rparr>,
                          b\<lparr>rb_credit := credit, rb_last := now, rb_lastEvent := now + waitDuration\<rparr>)
               else Some (\<lparr>rv_ok = False, rv_tokens = 0, rv_timeToAct = zero_time_ns\<rparr>, b\<lparr>rb_last := last\<rparr>) })"

definition DelayFrom :: "reservation \<Rightarrow> int \<Rightarrow> int" where
  "DelayFrom r now =
     (if \<not> rv_ok r then InfDuration else let delay = time_Sub (rv_timeToAct r) now in if delay < 0 then 0 else delay)"

datatype rate_error = Exceeds_burst | Exceeds_deadline

text \<open>\<open>WaitN\<close> with the background context gives the time for which the timer is set.\<close>

definition WaitN :: "rate_bucket \<Rightarrow> int \<Rightarrow> int \<Rightarrow> ((rate_error + int) \<times> rate_bucket) option" where
  "WaitN b now n =
     (if n > li_burst (rb_limiter b) \<and> li_interval (rb_limiter b) \<noteq> None then Some (Inl Exceeds_burst, b)
      else do { (r, b') \<leftarrow> rate_reserveN b now n InfDuration;
                if \<not> rv_ok r then Some (Inl Exceeds_deadline, b') else Some (Inr (DelayFrom r now), b') })"

section \<open>waitMyTurn\<close>

text \<open>The error of \<open>Wait\<close> is dropped. The result is the time from which the caller may go on, when the
  timer is exact.\<close>

definition waitMyTurn :: "rate_bucket \<Rightarrow> int \<Rightarrow> (int \<times> rate_bucket) option" where
  "waitMyTurn b now =
     do { (r, b') \<leftarrow> WaitN b now 1;
          Some (case r of Inl _ \<Rightarrow> now | Inr delay \<Rightarrow> now + delay, b') }"

abbreviation es_waitMyTurn :: "rate_bucket \<Rightarrow> int \<Rightarrow> (int \<times> rate_bucket) option" where
  "es_waitMyTurn \<equiv> waitMyTurn"

abbreviation os_waitMyTurn :: "rate_bucket \<Rightarrow> int \<Rightarrow> (int \<times> rate_bucket) option" where
  "os_waitMyTurn \<equiv> waitMyTurn"

abbreviation mongodb_waitMyTurn :: "rate_bucket \<Rightarrow> int \<Rightarrow> (int \<times> rate_bucket) option" where
  "mongodb_waitMyTurn \<equiv> waitMyTurn"

abbreviation neap_waitMyTurn :: "rate_bucket \<Rightarrow> int \<Rightarrow> (int \<times> rate_bucket) option" where
  "neap_waitMyTurn \<equiv> waitMyTurn"

abbreviation mlp_waitMyTurn :: "rate_bucket \<Rightarrow> int \<Rightarrow> (int \<times> rate_bucket) option" where
  "mlp_waitMyTurn \<equiv> waitMyTurn"

text \<open>The attempts of a storage, by the times at which they take the lock of the limiter, and the times from
  which they may go on.\<close>

fun turns :: "rate_bucket \<Rightarrow> int list \<Rightarrow> int list option" where
  "turns b [] = Some []"
| "turns b (now # nows) = do { (t, b') \<leftarrow> waitMyTurn b now; ts \<leftarrow> turns b' nows; Some (t # ts) }"

section \<open>The reference: one theoretical arrival time\<close>

text \<open>The generic cell rate algorithm keeps only the time at which the bucket would be empty: an event is
  conforming from that time less the tolerance of the burst, and each event moves it by the interval.\<close>

fun gcra :: "int \<Rightarrow> int \<Rightarrow> int \<Rightarrow> int list \<Rightarrow> int list" where
  "gcra interval burst tat [] = []"
| "gcra interval burst tat (now # nows) =
     (let tat' = max (now - burst * interval) tat + interval in max now tat' # gcra interval burst tat' nows)"

section \<open>One turn\<close>

text \<open>A bucket of a limiter that limits: a positive interval, room for one event, no more credit than the burst,
  and a debt for which the durations fit for \<open>k\<close> more events.\<close>

definition bucket_ok :: "int \<Rightarrow> nat \<Rightarrow> rate_bucket \<Rightarrow> bool" where
  "bucket_ok interval k b =
     (li_interval (rb_limiter b) = Some interval \<and> 0 < interval \<and> 1 \<le> li_burst (rb_limiter b) \<and>
      rb_credit b \<le> li_burst (rb_limiter b) * interval \<and>
      (li_burst (rb_limiter b) + int k) * interval - rb_credit b < 2 ^ 63)"

definition arrival :: "rate_bucket \<Rightarrow> int" where
  "arrival b = rb_last b - rb_credit b"

lemma rate_advance_credit:
  assumes "bucket_ok interval k b" and "rb_last b \<le> now"
  shows "rate_advance b interval now =
           Some (now, rb_last b, min (li_burst (rb_limiter b) * interval) (now - arrival b))"
proof -
  define full where "full = li_burst (rb_limiter b) * interval"
  have k: "0 \<le> int k * interval" using assms(1) by (simp add: bucket_ok_def)
  have "rb_credit b \<le> full" and "full + int k * interval - rb_credit b < 2 ^ 63"
    using assms(1) by (simp_all add: bucket_ok_def full_def distrib_right)
  then have "rb_credit b \<le> full" and "full - rb_credit b < 2 ^ 63" using k by linarith+
  then show ?thesis
    using assms(2)
    by (simp add: rate_advance_def Let_def to_duration_def in_int64_def time_Sub_def InfDuration_def arrival_def
        flip: full_def) linarith
qed

lemma waitMyTurn_gcra:
  assumes ok: "bucket_ok interval (Suc k) b" and "rb_last b \<le> now"
  defines "tat \<equiv> max (now - li_burst (rb_limiter b) * interval) (arrival b) + interval"
  shows "\<exists>b'. waitMyTurn b now = Some (max now tat, b') \<and> bucket_ok interval k b' \<and> rb_last b' = now \<and> arrival b' = tat \<and>
           rb_limiter b' = rb_limiter b"
proof -
  define full where "full = li_burst (rb_limiter b) * interval"
  define credit where "credit = min full (now - arrival b) - interval"
  define b' where "b' = b\<lparr>rb_credit := credit, rb_last := now, rb_lastEvent := now + max 0 (- credit)\<rparr>"
  have tat: "tat = now - credit" by (simp add: tat_def credit_def full_def)
  have step: "(li_burst (rb_limiter b) + int (Suc k)) * interval = full + int k * interval + interval"
    by (simp add: full_def algebra_simps)
  have lim: "li_interval (rb_limiter b) = Some interval" "0 < interval" "1 \<le> li_burst (rb_limiter b)"
    and c: "rb_credit b \<le> full" and room: "full + int k * interval + interval - rb_credit b < 2 ^ 63"
    using ok unfolding bucket_ok_def step by (simp_all add: full_def)
  have pos: "0 \<le> int k * interval" "interval \<le> full"
    using lim mult_right_mono [of 1 "li_burst (rb_limiter b)" interval] by (simp_all add: full_def)
  have low: "rb_credit b - interval \<le> credit" using assms(2) c by (simp add: credit_def arrival_def)
  have high: "credit \<le> full" using lim(2) by (simp add: credit_def)
  have "bucket_ok interval k b'"
    using lim low room pos high by (simp add: bucket_ok_def b'_def distrib_right flip: full_def)
  moreover have debt: "- credit < 2 ^ 63" using low room pos c lim(2) by linarith
  then have delay: "(if credit < 0 then to_duration (- credit) else Some 0) = Some (max 0 (- credit))"
    by (simp add: to_duration_def in_int64_def)
  have "rate_reserveN b now 1 InfDuration =
      Some (\<lparr>rv_ok = True, rv_tokens = 1, rv_timeToAct = now + max 0 (- credit)\<rparr>, b')"
    using lim debt
    by (simp add: rate_reserveN_def rate_advance_credit [OF ok assms(2)] InfDuration_def delay b'_def
        del: diff_less_0_iff_less flip: full_def credit_def)
  then have "waitMyTurn b now = Some (max now tat, b')"
    using lim debt
    by (simp add: waitMyTurn_def WaitN_def DelayFrom_def time_Sub_def InfDuration_def Let_def tat)
  ultimately show ?thesis by (auto simp: b'_def arrival_def tat)
qed

lemma turns_gcra:
  assumes "bucket_ok interval (length nows) b" and "sorted (rb_last b # nows)"
  shows "turns b nows = Some (gcra interval (li_burst (rb_limiter b)) (arrival b) nows)"
  using assms
proof (induction nows arbitrary: b)
  case (Cons now nows)
  obtain b' where "waitMyTurn b now = Some (max now (max (now - li_burst (rb_limiter b) * interval) (arrival b) + interval), b')"
    and ok: "bucket_ok interval (length nows) b'" and b': "rb_last b' = now" "rb_limiter b' = rb_limiter b"
      "arrival b' = max (now - li_burst (rb_limiter b) * interval) (arrival b) + interval"
    using waitMyTurn_gcra [of interval "length nows" b now] Cons.prems by auto
  moreover have "sorted (rb_last b' # nows)" using Cons.prems(2) b' by simp
  ultimately show ?case by (simp add: Let_def Cons.IH [OF ok])
qed simp

section \<open>The rate\<close>

lemma gcra_length [simp]: "length (gcra interval burst tat nows) = length nows"
  by (induction nows arbitrary: tat) (simp_all add: Let_def)

lemma gcra_from:
  assumes "0 < interval" "j < length nows"
  shows "tat + (int j + 1) * interval \<le> gcra interval burst tat nows ! j \<and> nows ! j \<le> gcra interval burst tat nows ! j"
  using assms(2)
proof (induction nows arbitrary: tat j)
  case (Cons now nows)
  then show ?case
  proof (cases j)
    case (Suc j')
    let ?tat' = "max (now - burst * interval) tat + interval"
    have "?tat' + (int j' + 1) * interval \<le> gcra interval burst ?tat' nows ! j' \<and> nows ! j' \<le> gcra interval burst ?tat' nows ! j'"
      using Cons.IH [of j' ?tat'] Cons.prems Suc by simp
    moreover have "tat \<le> max (now - burst * interval) tat" by simp
    ultimately show ?thesis using Suc by (simp add: Let_def distrib_right del: max.cobounded2)
  qed (simp add: Let_def)
qed simp

lemma gcra_spacing:
  assumes "0 < interval" "1 \<le> burst" "i \<le> j" "j < length nows"
  shows "gcra interval burst tat nows ! i + (int (j - i) + 1 - burst) * interval \<le> gcra interval burst tat nows ! j"
  using assms(3,4)
proof (induction nows arbitrary: tat i j)
  case (Cons now nows)
  let ?tat' = "max (now - burst * interval) tat + interval"
  have burst: "interval \<le> burst * interval" using assms mult_right_mono [of 1 burst interval] by simp
  show ?case
  proof (cases i)
    case 0
    have "max now ?tat' \<le> ?tat' + (burst * interval - interval)" using burst by simp
    moreover have "(int j + 1 - burst) * interval = int j * interval - (burst * interval - interval)"
      by (simp add: algebra_simps)
    moreover have "?tat' + int j * interval \<le> gcra interval burst tat (now # nows) ! j"
      using gcra_from [OF assms(1), of "j - 1" nows ?tat' burst] Cons.prems(2) by (cases j) (auto simp: Let_def algebra_simps)
    ultimately have "max now ?tat' + (int j + 1 - burst) * interval \<le> gcra interval burst tat (now # nows) ! j"
      by linarith
    then show ?thesis using 0 by (simp add: Let_def)
  next
    case (Suc i')
    then obtain j' where "j = Suc j'" using Cons.prems by (cases j) auto
    then show ?thesis using Suc Cons.IH [of i' j' ?tat'] Cons.prems by (simp add: Let_def)
  qed
qed simp

text \<open>Events with such distances: how many of them fall into a window.\<close>

lemma window_count:
  fixes acts :: "int list"
  assumes "0 < interval" "0 \<le> burst" "0 < width"
    and spaced: "\<And>i j. i \<le> j \<Longrightarrow> j < length acts \<Longrightarrow> acts ! i + (int (j - i) + 1 - burst) * interval \<le> acts ! j"
  shows "int (length (filter (\<lambda>t. start \<le> t \<and> t < start + width) acts)) \<le> burst + (width - 1) div interval"
proof -
  define S where "S = {i. i < length acts \<and> start \<le> acts ! i \<and> acts ! i < start + width}"
  have len: "length (filter (\<lambda>t. start \<le> t \<and> t < start + width) acts) = card S"
    by (simp add: length_filter_conv_card S_def)
  show ?thesis
  proof (cases "S = {}")
    case True
    then show ?thesis using assms(1-3) by (simp add: len pos_imp_zdiv_nonneg_iff)
  next
    case False
    have fin: "finite S" by (simp add: S_def)
    define i where "i = Min S"
    define j where "j = Max S"
    have ij: "i \<in> S" "j \<in> S" "i \<le> j" using fin False by (simp_all add: i_def j_def)
    have "S \<subseteq> {i..j}" using fin by (auto simp: i_def j_def)
    then have "card S \<le> Suc j - i" using card_mono [of "{i..j}" S] by simp
    then have "int (card S) \<le> int (j - i) + 1" using ij(3) by linarith
    moreover have "(int (j - i) + 1 - burst) * interval \<le> width - 1"
      using spaced [of i j] ij by (simp add: S_def)
    then have "int (j - i) + 1 - burst \<le> (width - 1) div interval"
      using zdiv_mono1 [OF _ assms(1), of "(int (j - i) + 1 - burst) * interval" "width - 1"] assms(1) by simp
    ultimately show ?thesis by (simp add: len)
  qed
qed

section \<open>Properties of the storages\<close>

lemma NewRateLimiter_interval:
  assumes "NewRateLimiter config = Some li" "li_interval li = Some interval"
  shows "0 < interval" "li_burst li = rl_Burst config"
  using assms by (auto simp: NewRateLimiter_def Let_def split: if_splits)

lemma NewLimiter_turns:
  assumes "li_interval li = Some interval" "0 < interval" "1 \<le> li_burst li"
    and "(li_burst li + int (length nows)) * interval < 2 ^ 63" and "sorted (zero_time_ns # nows)"
  shows "turns (NewLimiter li) nows = Some (gcra interval (li_burst li) zero_time_ns nows)"
proof -
  have "bucket_ok interval (length nows) (NewLimiter li)" using assms by (simp add: bucket_ok_def NewLimiter_def)
  then have "turns (NewLimiter li) nows =
      Some (gcra interval (li_burst (rb_limiter (NewLimiter li))) (arrival (NewLimiter li)) nows)"
    by (rule turns_gcra) (use assms(5) in \<open>simp add: NewLimiter_def\<close>)
  then show ?thesis by (simp add: NewLimiter_def arrival_def)
qed





text \<open>A limiter without a burst refuses every request; as the refusal is dropped, nothing is limited. The
  same holds without a limit.\<close>

lemma waitMyTurn_unlimited:
  assumes "li_interval (rb_limiter b) = None \<or> li_burst (rb_limiter b) < 1"
  shows "waitMyTurn b now = Some (now, b)"
  using assms
  by (cases "li_interval (rb_limiter b)")
    (auto simp: waitMyTurn_def WaitN_def rate_reserveN_def DelayFrom_def time_Sub_def InfDuration_def)

lemma no_burst_no_limit:
  assumes "li_interval (rb_limiter b) = None \<or> li_burst (rb_limiter b) < 1"
  shows "turns b nows = Some nows"
  using assms by (induction nows) (simp_all add: waitMyTurn_unlimited)

text \<open>Goroutines read the clock before they take the lock. A time that is earlier than the last one sets the
  limiter back, and the stretch of time between them is credited again: with a burst of one, two attempts
  get the same time, and a third one the time that the second should have had.\<close>

lemma clock_order_credits_twice:
  "turns (NewLimiter \<lparr>li_interval = Some 5, li_burst = 1\<rparr>) [5, 0, 5] = Some [5, 5, 10]"
  by code_simp

end
