(* ===== verification/Storage_Operations.thy ===== *)
theory Storage_Operations
  imports Storage_Shutdown Log_Writer
begin

text \<open>
  The rest of the storages (\<open>pkg/log_writers/*/storage.go\<close>): the MongoDB storage as a whole, whose commit handler
  starts a goroutine for each document; the monitor and the shutdown of the Fluentd storage; reading and
  deleting, which no storage implements; and what is reported when a commit has ended. The worker pool,
  the goroutines and the shutdown of MongoDB are those of \<open>Worker_Pool\<close>, \<open>Batching\<close> and \<open>Storage_Shutdown\<close>.
\<close>

section \<open>Reading and deleting\<close>

definition storage_Read :: "string \<Rightarrow> string \<Rightarrow> string + string" where
  "storage_Read key path = Inl ''not Implemented''"

definition storage_Delete :: "string \<Rightarrow> string \<Rightarrow> string option" where
  "storage_Delete key path = Some ''not Implemented''"

text \<open>Fluentd reports that the record was deleted.\<close>

definition fluentd_Delete :: "string \<Rightarrow> string \<Rightarrow> string option" where
  "fluentd_Delete key path = None"

abbreviation es_Read :: "string \<Rightarrow> string \<Rightarrow> string + string" where
  "es_Read \<equiv> storage_Read"

abbreviation es_Delete :: "string \<Rightarrow> string \<Rightarrow> string option" where
  "es_Delete \<equiv> storage_Delete"

abbreviation os_Read :: "string \<Rightarrow> string \<Rightarrow> string + string" where
  "os_Read \<equiv> storage_Read"

abbreviation os_Delete :: "string \<Rightarrow> string \<Rightarrow> string option" where
  "os_Delete \<equiv> storage_Delete"

abbreviation neap_Read :: "string \<Rightarrow> string \<Rightarrow> string + string" where
  "neap_Read \<equiv> storage_Read"

abbreviation neap_Delete :: "string \<Rightarrow> string \<Rightarrow> string option" where
  "neap_Delete \<equiv> storage_Delete"

abbreviation mlp_Read :: "string \<Rightarrow> string \<Rightarrow> string + string" where
  "mlp_Read \<equiv> storage_Read"

abbreviation mlp_Delete :: "string \<Rightarrow> string \<Rightarrow> string option" where
  "mlp_Delete \<equiv> storage_Delete"

abbreviation mongo_Read :: "string \<Rightarrow> string \<Rightarrow> string + string" where
  "mongo_Read \<equiv> storage_Read"

abbreviation mongo_Delete :: "string \<Rightarrow> string \<Rightarrow> string option" where
  "mongo_Delete \<equiv> storage_Delete"

abbreviation fluentd_Read :: "string \<Rightarrow> string \<Rightarrow> string + string" where
  "fluentd_Read \<equiv> storage_Read"

text \<open>What the handler of a job logs: the error of the operation, if there is one.\<close>

definition handler_error :: "Job \<Rightarrow> string option" where
  "handler_error job =
     (case jo_Action job of
        WRITE \<Rightarrow> None
      | READ \<Rightarrow> (case storage_Read (jo_Index job) (jo_DocID job) of Inl e \<Rightarrow> Some e | Inr _ \<Rightarrow> None)
      | DELETE \<Rightarrow> storage_Delete (jo_Index job) (jo_DocID job))"

text \<open>A job is passed on to the commit handler exactly when the handler of the pool logs no error.\<close>

lemma handler_error_iff: "handler_error job = None \<longleftrightarrow> storageHandler (Some job) = Some (Some job)"
  by (simp add: handler_error_def storageHandler_def storage_Read_def storage_Delete_def split: job_action.splits)

section \<open>The report of a commit\<close>

text \<open>The rate in the log is \<open>int64((1000.0 / dur) * n)\<close>, here of exact quotients. For a commit that took less than a
  millisecond it divides by zero, and the integer is not specified.\<close>

definition docs_per_sec :: "int \<Rightarrow> int \<Rightarrow> int option" where
  "docs_per_sec dur n = (if dur = 0 then None else Some (tdiv (1000 * n) dur))"

datatype commit_log = Indexed_with_errors int int int "int option" | Saved_none int int "int option"
  | Indexed int int "int option" | Counts int int

definition bulk_monitorCommitResults :: "string \<Rightarrow> int \<Rightarrow> int \<Rightarrow> int \<Rightarrow> metric \<times> commit_log" where
  "bulk_monitorCommitResults label dur numErrors numIndexed =
     (Gauge ''WriteDurationGauge'' [label],
      if numErrors > 0 then Indexed_with_errors numIndexed numErrors dur (docs_per_sec dur numIndexed)
      else if numIndexed > 0 then Indexed numIndexed dur (docs_per_sec dur numIndexed)
      else Counts numErrors numIndexed)"

abbreviation os_monitorCommitResults :: "string \<Rightarrow> int \<Rightarrow> int \<Rightarrow> int \<Rightarrow> metric \<times> commit_log" where
  "os_monitorCommitResults \<equiv> bulk_monitorCommitResults"

abbreviation mlp_monitorCommitResults :: "string \<Rightarrow> int \<Rightarrow> int \<Rightarrow> int \<Rightarrow> metric \<times> commit_log" where
  "mlp_monitorCommitResults \<equiv> bulk_monitorCommitResults"

definition neap_monitorCommitResults :: "string \<Rightarrow> int \<Rightarrow> int \<Rightarrow> int \<Rightarrow> metric \<times> commit_log" where
  "neap_monitorCommitResults path dur numErrors numIndexed =
     (Gauge ''WriteDurationGauge'' [path],
      if numErrors > 0 then Saved_none numErrors dur (docs_per_sec dur numErrors)
      else if numIndexed > 0 then Indexed numIndexed dur (docs_per_sec dur numIndexed)
      else Counts numErrors numIndexed)"

lemma docs_per_sec_bounds:
  assumes "0 < dur" "0 \<le> n" "docs_per_sec dur n = Some r"
  shows "r * dur \<le> 1000 * n \<and> 1000 * n < (r + 1) * dur"
proof -
  have "r = 1000 * n div dur" using assms by (auto simp: docs_per_sec_def tdiv_nonneg)
  then have "1000 * n = r * dur + 1000 * n mod dur" by simp
  then show ?thesis using pos_mod_sign [OF assms(1), of "1000 * n"] pos_mod_bound [OF assms(1), of "1000 * n"]
    by (simp only: distrib_right) linarith
qed

section \<open>Fluentd\<close>

datatype fluent_monitor = Monitor_watches | Monitor_left

datatype fluent_shut = Fluent_serves | Fluent_offers_done | Fluent_closes | Fluent_returned

datatype fluent_conn = Conn_open | Conn_shut | Conn_closed

record fluent_life =
  fu_monitor :: fluent_monitor
  fu_shut :: fluent_shut
  fu_conn :: fluent_conn
  fu_logged :: "string list"

text \<open>\<open>NewStorage\<close> starts the monitor, and \<open>Shutdown\<close> begins with the send on the unbuffered channel \<open>done\<close>.\<close>

definition fluentd_monitor :: fluent_life where
  "fluentd_monitor = \<lparr>fu_monitor = Monitor_watches, fu_shut = Fluent_serves, fu_conn = Conn_open, fu_logged = []\<rparr>"

definition fluentd_Shutdown :: "fluent_life \<Rightarrow> fluent_life" where
  "fluentd_Shutdown f = f\<lparr>fu_shut := Fluent_offers_done\<rparr>"

text \<open>The label is an error of the library's ping. Whether the library shuts down in five seconds is open; if
  not, the client is closed.\<close>

inductive fluentd_step :: "fluent_life \<Rightarrow> string list \<Rightarrow> fluent_life \<Rightarrow> bool" where
  fluentd_ping_failed: "fu_monitor f = Monitor_watches \<Longrightarrow> fluentd_step f [e] (f\<lparr>fu_logged := fu_logged f @ [e]\<rparr>)"
| fluentd_done: "fu_monitor f = Monitor_watches \<Longrightarrow> fu_shut f = Fluent_offers_done \<Longrightarrow>
    fluentd_step f [] (f\<lparr>fu_monitor := Monitor_left, fu_shut := Fluent_closes\<rparr>)"
| fluentd_close: "fu_shut f = Fluent_closes \<Longrightarrow>
    fluentd_step f [] (f\<lparr>fu_conn := (if ok then Conn_shut else Conn_closed), fu_shut := Fluent_returned\<rparr>)"

inductive_cases fluentd_stepE: "fluentd_step f es f'"

definition fluent_inv :: "string list \<Rightarrow> fluent_life \<Rightarrow> bool" where
  "fluent_inv es f = (fu_logged f = es \<and> (fu_monitor f = Monitor_watches \<longleftrightarrow> fu_shut f \<in> {Fluent_serves, Fluent_offers_done}) \<and>
     (fu_conn f = Conn_open \<longleftrightarrow> fu_shut f \<noteq> Fluent_returned))"

interpretation fluentd_life: history_invariant fluentd_step fluent_inv
  by unfold_locales (auto simp: fluent_inv_def split: if_splits elim!: fluentd_stepE)

lemma fluentd_called:
  "execs fluentd_step n f es g \<Longrightarrow> fu_shut g = Fluent_serves \<longleftrightarrow> fu_shut f = Fluent_serves"
  by (induction rule: execs.induct) (auto elim!: fluentd_stepE)

text \<open>The errors of the ping are logged in order while the storage serves. Its shutdown can always go on to its
  end, and when it has returned, the monitor has left and the connection is not open any more.\<close>

lemma fluentd_shutdown:
  assumes "execs fluentd_step n fluentd_monitor es f" "execs fluentd_step m (fluentd_Shutdown f) fs g"
  shows "fu_logged g = es @ fs \<and> (\<exists>k h. k \<le> 2 \<and> execs fluentd_step k g [] h \<and> fu_shut h = Fluent_returned) \<and>
    (fu_shut g = Fluent_returned \<longrightarrow> fu_monitor g = Monitor_left \<and> fu_conn g \<noteq> Conn_open)"
proof -
  have serves: "fu_shut f = Fluent_serves" using fluentd_called [OF assms(1)] by (simp add: fluentd_monitor_def)
  have "fluent_inv es f" using fluentd_life.reachable [OF assms(1)] by (simp add: fluent_inv_def fluentd_monitor_def)
  then have "fluent_inv es (fluentd_Shutdown f)" using serves by (auto simp: fluent_inv_def fluentd_Shutdown_def)
  then have inv: "fluent_inv (es @ fs) g" by (rule fluentd_life.execs_hinv [OF assms(2)])
  have called: "fu_shut g \<noteq> Fluent_serves" using fluentd_called [OF assms(2)] by (simp add: fluentd_Shutdown_def)
  have close: "fluentd_step h [] (h\<lparr>fu_conn := Conn_shut, fu_shut := Fluent_returned\<rparr>)" if "fu_shut h = Fluent_closes" for h
    using fluentd_close [OF that, of True] by simp
  have "\<exists>k h. k \<le> 2 \<and> execs fluentd_step k g [] h \<and> fu_shut h = Fluent_returned"
  proof (cases "fu_shut g")
    case Fluent_offers_done
    let ?h = "g\<lparr>fu_monitor := Monitor_left, fu_shut := Fluent_closes\<rparr>"
    have "fluentd_step g [] ?h" using fluentd_done Fluent_offers_done inv by (auto simp: fluent_inv_def)
    from execs_front [where step = fluentd_step, OF this execs_one [where step = fluentd_step, OF close]]
    show ?thesis by (intro exI [of _ "Suc 1"]) auto
  next
    case Fluent_closes
    from execs_one [where step = fluentd_step, OF close [OF this]] show ?thesis by (intro exI [of _ 1]) auto
  next
    case Fluent_returned
    then show ?thesis by (intro exI [of _ 0]) auto
  qed (use called in simp)
  then show ?thesis using inv by (cases "fu_monitor g") (auto simp: fluent_inv_def)
qed

section \<open>MongoDB\<close>

text \<open>A turn of the commit handler: a document that decodes gets a goroutine of its own, which is a batch of one
  document here; there is no buffer and no timer.\<close>

definition mongo_item :: "handler_event \<Rightarrow> mongo_doc list" where
  "mongo_item ev =
     (case ev of GotRecord job \<Rightarrow> (case mongo_commitHandler job of Some doc \<Rightarrow> [doc] | None \<Rightarrow> []) | Tick \<Rightarrow> [] | Stop \<Rightarrow> [])"

definition mongo_turn :: "int \<Rightarrow> handler_event \<Rightarrow> unit \<Rightarrow> unit \<times> mongo_doc list list" where
  "mongo_turn now ev h = (h, map (\<lambda>doc. [doc]) (mongo_item ev))"

abbreviation mongo_pending :: "unit \<Rightarrow> mongo_doc list \<Rightarrow> bool" where
  "mongo_pending h ds \<equiv> ds = []"

abbreviation mongo_NewJob :: "job_action \<Rightarrow> string \<Rightarrow> string \<Rightarrow> string option \<Rightarrow> Job option" where
  "mongo_NewJob \<equiv> NewJob"

abbreviation mongo_storageHandler :: "Job option \<Rightarrow> Job option option" where
  "mongo_storageHandler \<equiv> storageHandler"

text \<open>\<open>Write\<close> always says that the record was written.\<close>

definition mongo_Write :: "string \<Rightarrow> string \<Rightarrow> string \<Rightarrow> Job option \<times> int" where
  "mongo_Write key path data = (NewJob WRITE key path (Some data), int (length data))"

abbreviation mongo_Shutdown :: "(unit, mongo_doc list) storage_system \<Rightarrow> (unit, mongo_doc list) storage_system" where
  "mongo_Shutdown \<equiv> storage_Shutdown"

interpretation mongo_batches: batch_handler mongo_turn "\<lambda>ev. ev = Stop" mongo_item id mongo_pending
proof unfold_locales
  fix h :: unit and ds now ev h' bs assume a: "ds = ([] :: mongo_doc list)" "mongo_turn now ev h = (h', bs)"
  have "concat (map (\<lambda>doc. [doc]) xs) = xs" for xs :: "mongo_doc list" by (induction xs) simp_all
  then show "\<exists>out rest. bs = map id out \<and> [] \<notin> set out \<and> rest = [] \<and> concat out @ rest = ds @ mongo_item ev \<and> (ev = Stop \<longrightarrow> rest = [])"
    using a by (auto simp: mongo_turn_def)
qed (simp add: mongo_item_def)

interpretation mongo_storage: pooled_storage mongo_turn mongo_item id mongo_pending
  by unfold_locales (simp add: mongo_item_def)

text \<open>When \<open>Shutdown\<close> has reached the commit handler, every record that was written and decodes has got exactly one
  goroutine.\<close>

lemma mongo_shutdown_starts_every_commit:
  assumes "execs (storage_step mongo_turn) m (storage_init n ()) js s"
    and "execs (storage_step mongo_turn) m' (mongo_Shutdown s) ks t" and "ss_shut t = ShutSignalled"
  shows "mset (concat (ss_batches t)) = mset (concat (map (\<lambda>j. mongo_item (GotRecord j)) (js @ ks)))"
  using mongo_storage.shutdown_complete [OF HOL.refl assms] by auto

text \<open>The collection after some commits in the order in which the server did them: \<open>FindOneAndReplace\<close> with upsert.\<close>

definition replace_one :: "(string \<rightharpoonup> EventLogSchema) \<Rightarrow> mongo_doc \<Rightarrow> (string \<rightharpoonup> EventLogSchema)" where
  "replace_one c doc = c(md_ID doc \<mapsto> md_Schema doc)"

definition collection :: "mongo_doc list list \<Rightarrow> (string \<rightharpoonup> EventLogSchema)" where
  "collection commits = foldl replace_one Map.empty (concat commits)"

lemma foldl_replace:
  "foldl replace_one c ds = c ++ map_of (map (\<lambda>d. (md_ID d, md_Schema d)) (rev ds))"
  by (induction ds arbitrary: c) (simp_all add: replace_one_def map_add_def fun_eq_iff split: option.splits)

lemma collection_dom: "dom (collection cs) = md_ID ` set (concat cs)"
  by (force simp: collection_def foldl_replace dom_map_of_conv_image_fst image_image)

lemma collection_Some: "collection cs k = Some v \<Longrightarrow> \<exists>d \<in> set (concat cs). md_ID d = k \<and> md_Schema d = v"
  by (force simp: collection_def foldl_replace dest!: map_of_SomeD)


section \<open>Two records with one index\<close>

text \<open>The goroutines of two records with the same index may end in either order: the record that was written first
  can replace the one that was written last.\<close>

lemma mongo_older_wins:
  assumes "mongo_item (GotRecord j1) = [d1]" "mongo_item (GotRecord j2) = [d2]" "md_ID d1 = md_ID d2"
  shows "\<exists>s. batch_steps mongo_turn (\<lambda>ev. ev = Stop) (batch_init ()) [GotRecord j1, GotRecord j2] s \<and>
    bs_created s = [] \<and> bs_running s = [] \<and> collection (bs_sent s) (md_ID d2) = Some (md_Schema d1)"
proof -
  let ?S = "batch_step mongo_turn (\<lambda>ev. ev = Stop)"
  let ?s = "\<lambda>created sent. \<lparr>bs_handler = (), bs_created = created, bs_running = [], bs_sent = sent, bs_phase = Serving\<rparr>"
  have got: "?S (?s created []) [GotRecord j] (?s (created @ [[d]]) [])" if "mongo_item (GotRecord j) = [d]" for created j d
    using batch_step.handle [of "?s created []" mongo_turn 0 "GotRecord j" "()" "[[d]]" "\<lambda>ev. ev = Stop"] that
    by (simp add: mongo_turn_def)
  have "batch_steps mongo_turn (\<lambda>ev. ev = Stop) (?s [[d1], [d2]] []) [] (?s [[d1]] [[d2]])"
    using batch_steps.step [OF batch_steps_one [OF batch_step.begin_commit [of "?s [[d1], [d2]] []" "[[d1]]" "[d2]" "[]"]]
        batch_step.end_commit [of _ "[]" "[d2]" "[]"]] by fastforce
  moreover have "batch_steps mongo_turn (\<lambda>ev. ev = Stop) (?s [[d1]] [[d2]]) [] (?s [] [[d2], [d1]])"
    using batch_steps.step [OF batch_steps_one [OF batch_step.begin_commit [of "?s [[d1]] [[d2]]" "[]" "[d1]" "[]"]]
        batch_step.end_commit [of _ "[]" "[d1]" "[]"]] by fastforce
  ultimately have ends: "batch_steps mongo_turn (\<lambda>ev. ev = Stop) (?s [[d1], [d2]] []) [] (?s [] [[d2], [d1]])"
    using batch_steps_trans by fastforce
  have "batch_steps mongo_turn (\<lambda>ev. ev = Stop) (?s [] []) ([GotRecord j1] @ [GotRecord j2]) (?s [[d1], [d2]] [])"
    by (rule batch_steps.step [OF batch_steps_one]) (use got [OF assms(1), of "[]"] got [OF assms(2), of "[[d1]]"] in simp_all)
  from batch_steps_trans [OF ends this]
  have "batch_steps mongo_turn (\<lambda>ev. ev = Stop) (batch_init ()) [GotRecord j1, GotRecord j2] (?s [] [[d2], [d1]])"
    by (simp add: batch_init_def)
  then show ?thesis using assms(3) by (intro exI [of _ "?s [] [[d2], [d1]]"]) (simp add: collection_def replace_one_def)
qed

definition ex_older :: Job where
  "ex_older = \<lparr>jo_Index = ''DLGaaS.1'', jo_DocID = ''1'', jo_Body = ''{\"offset\":1}'', jo_Action = WRITE\<rparr>"

definition ex_newer :: Job where
  "ex_newer = \<lparr>jo_Index = ''DLGaaS.1'', jo_DocID = ''2'', jo_Body = ''{\"offset\":2}'', jo_Action = WRITE\<rparr>"

definition ex_doc :: "int \<Rightarrow> mongo_doc" where
  "ex_doc n = \<lparr>md_ID = ''DLGaaS.1'', md_Schema = el_zero\<lparr>el_Offset := Dec n 0\<rparr>\<rparr>"

lemma ex_docs_ok: "mongo_item (GotRecord ex_older) = [ex_doc 1]" "mongo_item (GotRecord ex_newer) = [ex_doc 2]"
  by code_simp+


end
