(* ===== verification/Logging.thy ===== *)
theory Logging
  imports Go_Prelude
begin

text \<open>
  Logging (\<open>pkg/logging/log.go\<close>) and the command line it is set up from (\<open>pkg/cli/args.go\<close>). The parser of the
  command line is a parameter. Of the vendored logger \<open>go.uber.org/zap\<close> the model has what \<open>log.go\<close> calls: a logger
  is a list of cores, each with a sink, a level and an encoder; an entry goes to every core whose level it
  reaches; after an entry of level panic or fatal the logger panics or exits, also when no core took it. The
  global logger has no core until \<open>Setup\<close> replaces it. The text of a message is given already formatted.
\<close>

section \<open>Command line\<close>

record args =
  ar_LoggingToFileEnabled :: bool
  ar_LogfilePath :: string
  ar_DebugEnabled :: bool
  ar_Config :: string
  ar_Port :: int
  ar_Addr :: string
  ar_Scheme :: string
  ar_ServerReadTimeout :: int
  ar_ServerWriteTimeout :: int
  ar_BasePath :: string

text \<open>The values without an environment variable or a flag.\<close>

definition default_args :: args where
  "default_args =
     \<lparr>ar_LoggingToFileEnabled = False, ar_LogfilePath = ''logs/event-log-collector.log'', ar_DebugEnabled = False,
      ar_Config = ''configs/'', ar_Port = 8078, ar_Addr = ''localhost'', ar_Scheme = ''http'', ar_ServerReadTimeout = 60,
      ar_ServerWriteTimeout = 60, ar_BasePath = []\<rparr>"

section \<open>The logger\<close>

datatype level = DebugLevel | InfoLevel | WarnLevel | ErrorLevel | DPanicLevel | PanicLevel | FatalLevel

fun level_num :: "level \<Rightarrow> int" where
  "level_num DebugLevel = -1"
| "level_num InfoLevel = 0"
| "level_num WarnLevel = 1"
| "level_num ErrorLevel = 2"
| "level_num DPanicLevel = 3"
| "level_num PanicLevel = 4"
| "level_num FatalLevel = 5"

datatype time_encoder = EpochTimeEncoder | ISO8601TimeEncoder

datatype sink = Stdout | Logfile string

record log_core =
  lc_sink :: sink
  lc_json :: bool
  lc_EncodeTime :: time_encoder
  lc_level :: level

record log_entry =
  le_level :: level
  le_message :: string
  le_fields :: "(string \<times> string) list"

record logger =
  lg_cores :: "log_core list"
  lg_with :: "(string \<times> string) list"

record logging =
  ls_once :: bool
  ls_args :: args
  ls_filterLabel :: string
  ls_global :: logger
  ls_written :: "(log_core \<times> log_entry) list"

definition logging_init :: logging where
  "logging_init =
     \<lparr>ls_once = False, ls_args = default_args\<lparr>ar_LogfilePath := [], ar_Config := [], ar_Port := 0, ar_Addr := [], ar_Scheme := [],
        ar_ServerReadTimeout := 0, ar_ServerWriteTimeout := 0\<rparr>,
      ls_filterLabel = ''[filtered]'', ls_global = \<lparr>lg_cores = [], lg_with = []\<rparr>, ls_written = []\<rparr>"

datatype ending = Returns | Panics string | Exits

text \<open>\<open>log\<close> of the sugared logger.\<close>

definition enabled :: "logger \<Rightarrow> level \<Rightarrow> log_core list" where
  "enabled lg lvl = filter (\<lambda>c. level_num (lc_level c) \<le> level_num lvl) (lg_cores lg)"

definition after_write :: "level \<Rightarrow> string \<Rightarrow> ending" where
  "after_write lvl msg = (case lvl of PanicLevel \<Rightarrow> Panics msg | FatalLevel \<Rightarrow> Exits | _ \<Rightarrow> Returns)"

definition sugared_log :: "logger \<Rightarrow> level \<Rightarrow> string \<Rightarrow> (string \<times> string) list \<Rightarrow> logging \<Rightarrow> logging \<times> ending" where
  "sugared_log lg lvl msg context s =
     (if level_num lvl < level_num DPanicLevel \<and> enabled lg lvl = [] then (s, Returns)
      else (s\<lparr>ls_written := ls_written s @
                map (\<lambda>c. (c, \<lparr>le_level = lvl, le_message = msg, le_fields = lg_with lg @ context\<rparr>)) (enabled lg lvl)\<rparr>,
            after_write lvl msg))"

section \<open>Setup\<close>

text \<open>The encoder for the file is made before the time format is set, and the configuration is passed by value:
  only the encoder for the console gets the format. The parser exits the process for a command line it
  refuses.\<close>

definition Setup :: "args option \<Rightarrow> logging \<Rightarrow> logging option" where
  "Setup parsed s =
     (if ls_once s then Some s
      else (case parsed of
              None \<Rightarrow> None
            | Some a \<Rightarrow>
                let production = \<not> ar_DebugEnabled a;
                    ec = (if production then EpochTimeEncoder else ISO8601TimeEncoder);
                    level = (if production then InfoLevel else DebugLevel);
                    encoder = ec;
                    ec = ISO8601TimeEncoder;
                    core = [\<lparr>lc_sink = Stdout, lc_json = False, lc_EncodeTime = ec, lc_level = level\<rparr>];
                    core = (if ar_LoggingToFileEnabled a
                            then core @ [\<lparr>lc_sink = Logfile (ar_LogfilePath a), lc_json = True, lc_EncodeTime = encoder,
                                          lc_level = level\<rparr>]
                            else core)
                in Some (s\<lparr>ls_once := True, ls_args := a, ls_filterLabel := ''************'',
                           ls_global := \<lparr>lg_cores = core, lg_with = []\<rparr>\<rparr>)))"

section \<open>The functions of the package\<close>

definition Logger :: "logging \<Rightarrow> logger" where
  "Logger s = ls_global s"

definition LoggerWithUniqueID :: "string \<Rightarrow> logging \<Rightarrow> logger" where
  "LoggerWithUniqueID uid s = (ls_global s)\<lparr>lg_with := lg_with (ls_global s) @ [(''uid'', uid)]\<rparr>"

text \<open>The masking library is a parameter, which gets the label.\<close>

definition MaskSensitiveData :: "(string \<Rightarrow> 'a \<Rightarrow> 'a) \<Rightarrow> logging \<Rightarrow> 'a \<Rightarrow> 'a" where
  "MaskSensitiveData MaskDetails s v = MaskDetails (ls_filterLabel s) v"

datatype correlation_key = requestIdKey | sessionIdKey

definition WithRqId :: "(correlation_key \<rightharpoonup> string) \<Rightarrow> string \<Rightarrow> (correlation_key \<rightharpoonup> string)" where
  "WithRqId ctx rqId = ctx(requestIdKey \<mapsto> rqId)"

definition WithSessionId :: "(correlation_key \<rightharpoonup> string) \<Rightarrow> string \<Rightarrow> (correlation_key \<rightharpoonup> string)" where
  "WithSessionId ctx sessionId = ctx(sessionIdKey \<mapsto> sessionId)"

definition Debugf :: "string \<Rightarrow> logging \<Rightarrow> logging \<times> ending" where
  "Debugf msg s = sugared_log (Logger s) DebugLevel msg [] s"

definition Debugw :: "string \<Rightarrow> (string \<times> string) list \<Rightarrow> logging \<Rightarrow> logging \<times> ending" where
  "Debugw msg kvs s = sugared_log (Logger s) DebugLevel msg kvs s"

definition Infof :: "string \<Rightarrow> logging \<Rightarrow> logging \<times> ending" where
  "Infof msg s = sugared_log (Logger s) InfoLevel msg [] s"

definition Infow :: "string \<Rightarrow> (string \<times> string) list \<Rightarrow> logging \<Rightarrow> logging \<times> ending" where
  "Infow msg kvs s = sugared_log (Logger s) InfoLevel msg kvs s"

definition Warnf :: "string \<Rightarrow> logging \<Rightarrow> logging \<times> ending" where
  "Warnf msg s = sugared_log (Logger s) WarnLevel msg [] s"

definition Warnw :: "string \<Rightarrow> (string \<times> string) list \<Rightarrow> logging \<Rightarrow> logging \<times> ending" where
  "Warnw msg kvs s = sugared_log (Logger s) WarnLevel msg kvs s"

definition Errorf :: "string \<Rightarrow> logging \<Rightarrow> logging \<times> ending" where
  "Errorf msg s = sugared_log (Logger s) ErrorLevel msg [] s"

definition Errorw :: "string \<Rightarrow> (string \<times> string) list \<Rightarrow> logging \<Rightarrow> logging \<times> ending" where
  "Errorw msg kvs s = sugared_log (Logger s) ErrorLevel msg kvs s"

definition Fatalf :: "string \<Rightarrow> logging \<Rightarrow> logging \<times> ending" where
  "Fatalf msg s = sugared_log (Logger s) FatalLevel msg [] s"

definition Fatalw :: "string \<Rightarrow> (string \<times> string) list \<Rightarrow> logging \<Rightarrow> logging \<times> ending" where
  "Fatalw msg kvs s = sugared_log (Logger s) FatalLevel msg kvs s"

definition Panicf :: "string \<Rightarrow> logging \<Rightarrow> logging \<times> ending" where
  "Panicf msg s = sugared_log (Logger s) PanicLevel msg [] s"

definition Panicw :: "string \<Rightarrow> (string \<times> string) list \<Rightarrow> logging \<Rightarrow> logging \<times> ending" where
  "Panicw msg kvs s = sugared_log (Logger s) PanicLevel msg kvs s"

definition Println :: "string \<Rightarrow> logging \<Rightarrow> logging \<times> ending" where
  "Println msg s = sugared_log (Logger s) InfoLevel msg [] s"

definition Printf :: "string \<Rightarrow> logging \<Rightarrow> logging \<times> ending" where
  "Printf msg s = Infof msg s"

definition Fatal :: "string \<Rightarrow> logging \<Rightarrow> logging \<times> ending" where
  "Fatal msg s = sugared_log (Logger s) FatalLevel msg [] s"

lemmas logging_defs = Debugf_def Debugw_def Infof_def Infow_def Warnf_def Warnw_def Errorf_def Errorw_def Fatalf_def
  Fatalw_def Panicf_def Panicw_def Println_def Printf_def Fatal_def Logger_def sugared_log_def enabled_def after_write_def

section \<open>What is written where\<close>

lemma Setup_once:
  assumes "Setup p s = Some s'"
  shows "Setup q s' = Some s'"
  using assms by (auto simp: Setup_def Let_def split: if_splits option.splits)

text \<open>The lines for a sink that a call adds.\<close>

definition lines_of :: "sink \<Rightarrow> logging \<Rightarrow> (level \<times> string) list" where
  "lines_of k s = map (\<lambda>(c, e). (le_level e, le_message e)) (filter (\<lambda>(c, e). lc_sink c = k) (ls_written s))"

lemma lines_of_log:
  assumes "Setup (Some a) logging_init = Some s0" "ls_global s = ls_global s0" "sugared_log (Logger s) lvl msg kvs s = (s', e)"
  shows "lines_of k s' = lines_of k s @
    (if (k = Stdout \<or> ar_LoggingToFileEnabled a \<and> k = Logfile (ar_LogfilePath a)) \<and>
        level_num (if ar_DebugEnabled a then DebugLevel else InfoLevel) \<le> level_num lvl
     then [(lvl, msg)] else [])"
proof -
  have "lg_cores (ls_global s) =
    \<lparr>lc_sink = Stdout, lc_json = False, lc_EncodeTime = ISO8601TimeEncoder, lc_level = if ar_DebugEnabled a then DebugLevel else InfoLevel\<rparr> #
    (if ar_LoggingToFileEnabled a
     then [\<lparr>lc_sink = Logfile (ar_LogfilePath a), lc_json = True,
            lc_EncodeTime = (if ar_DebugEnabled a then ISO8601TimeEncoder else EpochTimeEncoder),
            lc_level = if ar_DebugEnabled a then DebugLevel else InfoLevel\<rparr>] else [])"
    using assms(1,2) by (auto simp: Setup_def logging_init_def Let_def)
  then show ?thesis using assms(3)
    by (auto simp: sugared_log_def Logger_def enabled_def lines_of_def split: if_splits)
qed



text \<open>The file keeps the time format of the encoder's default: in production, seconds since 1970.\<close>

lemma file_time_not_formatted:
  assumes "Setup (Some a) logging_init = Some s" "ar_LoggingToFileEnabled a" "\<not> ar_DebugEnabled a" "c \<in> set (lg_cores (ls_global s))"
  shows "lc_EncodeTime c = ISO8601TimeEncoder \<longleftrightarrow> lc_sink c = Stdout"
  using assms by (auto simp: Setup_def logging_init_def Let_def)

end
