(* ===== verification/Services.thy ===== *)
theory Services
  imports Mix_Bi Monitoring Logging
begin

text \<open>
  What the rest of the collector sees of its parts: the methods of the worker interface
  (\<open>pkg/log_processors/types/types.go\<close>) for the three kinds of workers, the tests of a record's service in the
  two transformers, with the lemmas that the transformers of \<open>Mix_Default\<close> and \<open>Mix_Bi\<close> are written with them, and
  the start of the metrics server (\<open>Start\<close> in \<open>pkg/monitoring/monitoring.go\<close>).
\<close>

section \<open>The worker interface\<close>

definition w_EventLog :: "worker \<Rightarrow> EventLogSchema" where
  "w_EventLog w = w_Schema w"

definition w_IsValid :: "worker \<Rightarrow> bool" where
  "w_IsValid w = w_Valid w"

definition w_IsFailed :: "worker \<Rightarrow> bool" where
  "w_IsFailed w = w_Failed w"

definition w_IsWritten :: "worker \<Rightarrow> bool" where
  "w_IsWritten w = w_Written w"

definition w_IsFiltered :: "worker \<Rightarrow> bool" where
  "w_IsFiltered w = w_Filtered w"

definition w_LastError :: "worker \<Rightarrow> worker_error option" where
  "w_LastError w = w_Err w"

definition md_EventLog :: "md_worker \<Rightarrow> EventLogSchema" where
  "md_EventLog w = w_EventLog (md_parent w)"

definition md_IsValid :: "md_worker \<Rightarrow> bool" where
  "md_IsValid w = w_IsValid (md_parent w)"

definition md_IsFailed :: "md_worker \<Rightarrow> bool" where
  "md_IsFailed w = w_IsFailed (md_parent w)"

definition md_IsWritten :: "md_worker \<Rightarrow> bool" where
  "md_IsWritten w = w_IsWritten (md_parent w)"

definition md_IsFiltered :: "md_worker \<Rightarrow> bool" where
  "md_IsFiltered w = w_IsFiltered (md_parent w)"

definition md_LastError :: "md_worker \<Rightarrow> worker_error option" where
  "md_LastError w = w_LastError (md_parent w)"

definition bi_EventLog :: "bi_worker \<Rightarrow> EventLogSchema" where
  "bi_EventLog w = w_EventLog (bi_parent w)"

definition bi_IsValid :: "bi_worker \<Rightarrow> bool" where
  "bi_IsValid w = w_IsValid (bi_parent w)"

definition bi_IsFailed :: "bi_worker \<Rightarrow> bool" where
  "bi_IsFailed w = w_IsFailed (bi_parent w)"

definition bi_IsWritten :: "bi_worker \<Rightarrow> bool" where
  "bi_IsWritten w = w_IsWritten (bi_parent w)"

definition bi_IsFiltered :: "bi_worker \<Rightarrow> bool" where
  "bi_IsFiltered w = w_IsFiltered (bi_parent w)"

definition bi_LastError :: "bi_worker \<Rightarrow> worker_error option" where
  "bi_LastError w = w_LastError (bi_parent w)"

lemmas worker_getters = w_EventLog_def w_IsValid_def w_IsFailed_def w_IsWritten_def w_IsFiltered_def w_LastError_def
  md_EventLog_def md_IsValid_def md_IsFailed_def md_IsWritten_def md_IsFiltered_def md_LastError_def
  bi_EventLog_def bi_IsValid_def bi_IsFailed_def bi_IsWritten_def bi_IsFiltered_def bi_LastError_def

text \<open>\<open>Start\<close> of every worker clears what the interface tells of the record before; the decoded record is kept.\<close>

lemma Start_clears:
  "\<not> w_IsFailed (w_Start r w) \<and> \<not> w_IsValid (w_Start r w) \<and> \<not> w_IsWritten (w_Start r w) \<and> \<not> w_IsFiltered (w_Start r w) \<and>
     w_LastError (w_Start r w) = None \<and> w_EventLog (w_Start r w) = w_EventLog w"
  "\<not> md_IsFailed (md_Start r m) \<and> \<not> md_IsValid (md_Start r m) \<and> \<not> md_IsWritten (md_Start r m) \<and> \<not> md_IsFiltered (md_Start r m) \<and>
     md_LastError (md_Start r m) = None \<and> md_EventLog (md_Start r m) = md_EventLog m"
  "\<not> bi_IsFailed (bi_Start r b) \<and> \<not> bi_IsValid (bi_Start r b) \<and> \<not> bi_IsWritten (bi_Start r b) \<and> \<not> bi_IsFiltered (bi_Start r b) \<and>
     bi_LastError (bi_Start r b) = None \<and> bi_EventLog (bi_Start r b) = bi_EventLog b"
  by (simp_all add: worker_getters w_Start_def md_Start_def bi_Start_def)

section \<open>The additional record of mix-default\<close>

text \<open>It is called when there is a joined call summary.\<close>

definition writeAdditionalCallSummaryRecord :: "'p writer \<Rightarrow> 'p \<Rightarrow> EventLogSchema \<Rightarrow> 'p" where
  "writeAdditionalCallSummaryRecord wr p joined = fst (wr p (marshal_schema joined))"

lemma md_Write_additional:
  "md_Write wr p w =
     (let p1 = (case md_joinedCallSummary w of None \<Rightarrow> p | Some s \<Rightarrow> writeAdditionalCallSummaryRecord wr p s);
          (p2, w') = w_Write wr p1 (md_parent w)
      in (p2, w\<lparr>md_parent := w'\<rparr>))"
  by (simp add: md_Write_def writeAdditionalCallSummaryRecord_def cong: option.case_cong)

section \<open>The service of a record\<close>

definition isAsraasRecord :: "EventLogSchema \<Rightarrow> bool" where
  "isAsraasRecord s = (elv_Service (el_Value s) = ''ASRaaS'')"

definition isNluaasRecord :: "EventLogSchema \<Rightarrow> bool" where
  "isNluaasRecord s = (elv_Service (el_Value s) = ''NLUaaS'')"

definition isTtsaasRecord :: "EventLogSchema \<Rightarrow> bool" where
  "isTtsaasRecord s = (elv_Service (el_Value s) = ''TTSaaS'')"

definition isDlgaasRecord :: "EventLogSchema \<Rightarrow> bool" where
  "isDlgaasRecord s = (elv_Service (el_Value s) = ''DLGaaS'')"

definition isNIIEvent :: "EventLogSchema \<Rightarrow> bool" where
  "isNIIEvent s = (elv_Service (el_Value s) = ''NIIEventLog'')"

abbreviation bi_isAsraasRecord :: "EventLogSchema \<Rightarrow> bool" where
  "bi_isAsraasRecord \<equiv> isAsraasRecord"

abbreviation bi_isNluaasRecord :: "EventLogSchema \<Rightarrow> bool" where
  "bi_isNluaasRecord \<equiv> isNluaasRecord"

abbreviation bi_isTtsaasRecord :: "EventLogSchema \<Rightarrow> bool" where
  "bi_isTtsaasRecord \<equiv> isTtsaasRecord"

abbreviation bi_isDlgaasRecord :: "EventLogSchema \<Rightarrow> bool" where
  "bi_isDlgaasRecord \<equiv> isDlgaasRecord"

abbreviation bi_isCallSummary :: "EventLogSchema \<Rightarrow> bool" where
  "bi_isCallSummary \<equiv> isCallSummary"

lemmas service_tests = isAsraasRecord_def isNluaasRecord_def isTtsaasRecord_def isDlgaasRecord_def isNIIEvent_def

lemma Transform_by_tests:
  "Transform s =
     (if isNIIEvent s then Some s
      else if isDlgaasRecord s then Some s
      else if isNluaasRecord s then transformNlu s
      else if isFinalStatusResponse s then Some s
      else if \<not> isCallSummary s then Some s
      else if isTtsaasRecord s then normalizeTtsClientData s
      else if isAsraasRecord s then transformAsr s
      else Some s)"
  by (simp add: Transform_def service_tests Let_def)

lemma bi_TransformRecord_by_tests:
  "bi_TransformRecord s =
     do { dlg \<leftarrow> (if bi_isDlgaasRecord s then isTargetDlgEventType s else Some False);
          (if dlg then map_option Some (newDlgMetric s)
           else if bi_isNluaasRecord s then map_option Some (newNluMetric s)
           else if bi_isTtsaasRecord s then map_option Some (newTtsMetric s)
           else if bi_isAsraasRecord s \<and> bi_isCallSummary s \<and> isCallSummaryMerged s
           then map_option (\<lambda>a. Some (AsrM a)) (newAsrMetric s)
           else Some None) }"
  by (simp add: bi_TransformRecord_def service_tests Let_def)

section \<open>The metrics server\<close>

record metrics_server =
  ms_once :: bool
  ms_registered :: "string list"
  ms_routes :: "string list"
  ms_listens :: "int option"

definition metrics_init :: metrics_server where
  "metrics_init = \<lparr>ms_once = False, ms_registered = [], ms_routes = [], ms_listens = None\<rparr>"

definition monitoring_Start :: "(string \<Rightarrow> string option) \<Rightarrow> int \<Rightarrow> metrics_server \<Rightarrow> metrics_server" where
  "monitoring_Start env port m =
     (if ms_once m then m
      else if \<not> isMonitoringEnabled env then m\<lparr>ms_once := True\<rparr>
      else m\<lparr>ms_once := True, ms_registered := ms_registered m @ [''build_info'', ''go''],
             ms_routes := ms_routes m @ [''/metrics'', ''/ping''], ms_listens := Some port\<rparr>)"

text \<open>The goroutine of the server: \<open>ListenAndServe\<close> returns only with an error, which is passed to \<open>Fatal\<close>.\<close>

definition server_ends :: "string \<Rightarrow> metrics_server \<Rightarrow> logging \<Rightarrow> logging \<times> ending" where
  "server_ends err m s = (case ms_listens m of None \<Rightarrow> (s, Returns) | Some _ \<Rightarrow> Fatal err s)"

text \<open>The three parts of one client may all call \<open>Start\<close>: the routes are there once, as the HTTP library demands.\<close>

lemma monitoring_Start_once: "monitoring_Start env' port' (monitoring_Start env port m) = monitoring_Start env port m"
  by (simp add: monitoring_Start_def)

lemma monitoring_routes:
  "ms_routes (monitoring_Start env port metrics_init) = (if isMonitoringEnabled env then [''/metrics'', ''/ping''] else [])"
  "distinct (ms_routes (monitoring_Start env port metrics_init))"
  by (simp_all add: monitoring_Start_def metrics_init_def)

text \<open>A port that is taken ends the collector: the metrics of one program on a machine keep the next from running.\<close>

lemma taken_port_is_fatal:
  assumes "isMonitoringEnabled env"
  shows "snd (server_ends err (monitoring_Start env port metrics_init) s) = Exits"
  using assms by (simp add: server_ends_def monitoring_Start_def metrics_init_def logging_defs)

end
