(* ===== verification/Spec2Isabelle.thy ===== *)
theory Spec2Isabelle
  imports Mix_Examples Pipeline_Io Partition_Fetcher File_Writer Neap_Storage Producer_Storage Monitoring Programs Rate_Limiting
    Storage_Operations Services
begin

text \<open>
  Verification of the Mix event log collector.

  \<^bold>\<open>The program.\<close> The collector fetches event logs of speech and dialog services from the Mix log
  API, passes them through a pipeline to a processor, and from there through a pipeline to a writer.
  A \<^emph>\<open>fetcher\<close> (\<open>pkg/log_fetchers/mix_log_api\<close>) runs one goroutine per partition that requests records,
  one that hands them to the pipeline and commits offsets, and one that watches the lag. It
  authenticates with \<open>pkg/oauth\<close> over \<open>pkg/httpclient\<close>. The \<^emph>\<open>pipeline\<close> (\<open>pkg/pipeline/io\<close>) is a queue
  on disk or a broker. A \<^emph>\<open>processor\<close> (\<open>pkg/log_processors\<close>) decodes, filters, transforms and joins
  records; it keeps unfinished sessions in a \<^emph>\<open>cache\<close> (\<open>pkg/cache\<close>). A \<^emph>\<open>writer\<close>
  (\<open>pkg/log_writers\<close>) chooses a place for each record and hands it to a storage, most of which write
  in batches.

  \<^bold>\<open>The theories.\<close> Each opens with the files it models.

  \<^item> \<open>Go_Prelude\<close>: options, strings and integers as Go has them. Bytes and strings are \<open>string\<close>; an
    \<open>int\<close> of Go is \<open>int\<close> with wrap-around where it matters; \<open>None\<close> is a panic or a fatal log call.
  \<^item> \<open>Json\<close>, \<open>Json_Struct\<close>: \<open>encoding/json\<close>, as values with a printer and a parser, and as tables of
    struct fields with tags. The parser gets \<open>2 * length + 2\<close> units of fuel, more than a text can
    nest. The locales \<open>json_struct\<close> and \<open>json_struct_inv\<close> give the round trip of a struct from laws of its
    fields. A number is a decimal fraction (\<open>dec\<close>), which stands for the \<open>float64\<close> of its text.
  \<^item> \<open>Event_Schema\<close>: the structs of \<open>pkg/types/eventlog-schema.go\<close>, each an interpretation of these
    locales.
  \<^item> \<open>Go_Time\<close>: parsing and formatting of times.
  \<^item> \<open>Log_Filter\<close>, \<open>Base_Worker\<close>: the content type filter, the methods of the base worker, the handler of
    a processor, and the noop processor, which implements its specification.
  \<^item> \<open>Cache_Model\<close>: the local cache, on the items of the library \<open>ttlcache\<close>, and the Redis cache; the
    locale of a record cache that the processors rely on.
  \<^item> \<open>Mix_Default\<close>, \<open>Mix_Bi\<close>, \<open>Mix_Examples\<close>: the two processors that join the four records of a speech
    recognition. A run refines one step of an abstract joiner; the order of the records does not matter
    to mix-default, and does to mix-bi.
  \<^item> \<open>Pipeline_Io\<close>: the embedded queue, which is first in, first out for every interleaving, the check of
    redacted fields, and the mapping of on-premise records from Kafka. Compression is a parameter.
  \<^item> \<open>Go_Prog\<close>, \<open>Http_Client\<close>, \<open>Oauth\<close>: calls that thread a state, return a result or an error, and may
    kill the process; the machine (files, clock, network) and the HTTP client; tokens, their file and
    their cache. The transport is a parameter.
  \<^item> \<open>Log_Fetcher\<close>, \<open>Partition_Fetcher\<close>: the requests of the fetcher and its start; the loops of a partition
    as turns and as a step relation that interleaves them. Records reach the pipeline in order, and
    no offset is committed before its record is there.
  \<^item> \<open>Batching\<close>: what the commit handlers of the storages share. The locale \<open>batch_handler\<close> is the
    contract between a handler and its buffer; from it follow, once, that batches partition what was
    received, and what a shutdown can and cannot lose under every interleaving of the goroutines.
  \<^item> \<open>Bulk_Storage\<close>, \<open>Neap_Storage\<close>, \<open>Producer_Storage\<close>: the storages of the Elasticsearch, OpenSearch, NEAP
    and log producer API writers, each an interpretation of that locale, with their requests, replies
    and retries. Client libraries and compressors are parameters.
  \<^item> \<open>Log_Writer\<close>: the handlers of the writers, document ids, and the fluentd and MongoDB storages; the
    locale \<open>log_storage\<close> is the interface of a storage.
  \<^item> \<open>Audio_Fetcher\<close>, \<open>File_Writer\<close>: the file system writer with its audio download and WAV files.
  \<^item> \<open>Transition\<close>: executions of a step relation with labels. The locale \<open>history_invariant\<close> is an
    invariant over the labels seen so far, and \<open>quiescing\<close> adds a rank that falls after a request to stop;
    from it follow a bound on the steps of every schedule and that the final state is reached.
  \<^item> \<open>Worker_Pool\<close>, \<open>Processor_Lifecycle\<close>, \<open>Writer_Lifecycle\<close>, \<open>Storage_Shutdown\<close>: the goroutines of
    \<open>pkg/workerpool\<close>, of a processor, of the seven writers, and of a storage with its pool of workers and
    its commit handler, each an interpretation of these locales. A processor loses nothing when it is
    stopped, a writer at most as many records as its channel has places; both stop within a bounded
    number of steps.
  \<^item> \<open>Transport\<close>: the configuration of the pipeline, the creation of readers and writers, and the providers
    for Kafka, Redis and Pulsar, which deliver a record as the embedded queue does. The brokers are
    parameters.
  \<^item> \<open>Monitoring\<close>: the collectors of all packages with their labels, their registration, and the reporting
    of values; every metric of the handlers fits its collector.
  \<^item> \<open>Configuration\<close>, \<open>Writer_Config\<close>: the registries of factories, caches and the rate limiter by their
    configuration, the configuration of processors and of the seven writers with defaults and environment
    variables (locale \<open>env_overlay\<close>), and the constructors.
  \<^item> \<open>Rate_Limiting\<close>: the token bucket of the vendored \<open>golang.org/x/time/rate\<close> and the wait of a storage
    before each attempt of a commit. The bucket is the generic cell rate algorithm, and the number of
    attempts within a window is bounded by the configured rate; with a burst below one there is no limit.
  \<^item> \<open>Fetcher_Lifecycle\<close>: all partitions of a fetcher together, with the start of each and \<open>Stop\<close>, as a
    step relation. When \<open>Stop\<close> has returned, every partition has written what it fetched, and from every
    reachable state after the request it can return.
  \<^item> \<open>Storage_Operations\<close>: the remaining operations of the storages: \<open>Read\<close> and \<open>Delete\<close>, the monitors of
    commits, the ping and the shutdown of the fluentd client, and the handler, \<open>Write\<close> and \<open>Shutdown\<close> of
    the MongoDB storage, with the collection that a run leaves.
  \<^item> \<open>Logging\<close>, \<open>Services\<close>: the loggers with their levels, sinks and endings; the getters of the workers,
    the tests of the kinds of records, and the start of the metrics server.
  \<^item> \<open>Programs\<close>: the commands under \<open>cmd\<close>. How \<open>Run\<close> creates and starts a component, what its shutdown
    does for every configuration, and how a signal reaches the parts of \<open>event-log-client\<close>.
  \<^item> This theory: a record on its way through processor, pipeline and writer, and the records of a
    partition on their way from the fetcher to the processor.

  \<^bold>\<open>Fuel.\<close> The loops that may not end have fuel: the commits of \<open>Bulk_Storage\<close>, \<open>Log_Writer\<close> and
  \<open>Producer_Storage\<close>. With a limit of \<open>m\<close> on the retries, \<open>m + 1\<close> turns are enough, and this is proved
  for each of them; for the log producer API it is also proved that no number of turns is enough while
  no token can be had.

  \<^bold>\<open>Simplifications.\<close> Log lines are left out of the components, and so are metrics where a definition has
  none; \<open>Logging\<close> has the loggers on their own. Texts of errors are abbreviated where only their
  presence matters. Waiting for a rate limiter only delays a commit, and the storages leave it out; the
  wait itself is in \<open>Rate_Limiting\<close>, with exact fractions where the library has \<open>float64\<close>, and what the
  limiter is created with in \<open>Configuration\<close>. The theories of the storages take
  jobs in the order they are written, as with the default of one worker; \<open>Storage_Shutdown\<close> has any
  number of workers, so that its statements are about multisets. In the lifecycles a record is a value
  that is read, and handled or written, and the calls of the reader, the handlers and the storage are
  taken to return. Where packages repeat the code of another (the goroutines of the writers, the
  registries), one definition stands for all of them. Mutexes are left out where one goroutine owns the
  data. A duration is a number of nanoseconds in 64 bits.

  \<^bold>\<open>Not modelled.\<close> The parser of the command line, its description and the printed logo, which are the
  work of a library or only output; the serving of HTTP requests for metrics, once the server listens;
  the encoding of log lines inside the logging library; the decoding of configuration files, which is the
  work of a YAML library and a parameter, so that the tags of the fields are not part of the model; the
  goroutines inside the client libraries of Kafka, Redis and Pulsar, and \<open>Close\<close> of their readers;
  \<open>GetStatus\<close>, which returns an empty struct.
\<close>

section \<open>From the processor to the writer\<close>

lemma float_of_enc: "float_ok d \<Longrightarrow> float_ok e \<Longrightarrow> enc_float d = enc_float e \<Longrightarrow> d = e"
  by (cases d; cases e) (auto simp: enc_float_def float_ok_def split: if_splits)

lemma copy_document:
  assumes "enc_struct el_fields t = enc_struct el_fields s" "schema_ok s" "schema_ok t"
  shows "docID_of t = docID_of s" "elv_Timestamp (el_Value t) = elv_Timestamp (el_Value s)"
proof -
  have el: "fget f t = fget f s" if "f \<in> set el_fields" for f
    using schema_fget_eq [OF assms(1) that] .
  have "el_Topic t = el_Topic s"
    using el [of "str_field ''topic'' el_Topic el_Topic_update"] by (simp add: el_fields_def field_defs)
  moreover have "el_Partition t = el_Partition s"
    using el [of "float_field ''partition'' el_Partition el_Partition_update"] assms(2,3)
    by (intro float_of_enc) (simp_all add: el_fields_def float_field_def schema_ok_def)
  moreover have "el_Offset t = el_Offset s"
    using el [of "float_field ''offset'' el_Offset el_Offset_update"] assms(2,3)
    by (intro float_of_enc) (simp_all add: el_fields_def float_field_def schema_ok_def)
  moreover have "enc_struct elv_fields (el_Value t) = enc_struct elv_fields (el_Value s)"
    using el [of "struct_field ''value'' elv_fields el_Value el_Value_update"] by (simp add: el_fields_def field_defs)
  then have elv: "fget f (el_Value t) = fget f (el_Value s)" if "f \<in> set elv_fields" for f
    using elv.enc_fields_lookup [OF that] by (metis enc_struct_def json.inject(5))
  have "elv_ID (el_Value t) = elv_ID (el_Value s)"
    using elv [of "str_field ''id'' elv_ID elv_ID_update"] by (simp add: elv_fields_def field_defs)
  ultimately show "docID_of t = docID_of s" by (simp add: docID_of_def)
  show "elv_Timestamp (el_Value t) = elv_Timestamp (el_Value s)"
    using elv [of "str_field ''timestamp'' elv_Timestamp elv_Timestamp_update"] by (simp add: elv_fields_def field_defs)
qed

lemma deliver_marshalled:
  assumes "json_ok (enc_struct el_fields s)" "elk_Service (el_Key s) \<noteq> ''NLUaaS''"
  shows "deliver (marshal_schema s) = Inr (marshal_schema s)"
proof -
  have key: "dec_struct elk_fields (enc_struct elk_fields k) elk_zero = (k, True)" for k
    by (cases k) (simp add: enc_struct_def dec_struct_def dec_members_def dec_member_def find_field_def elk_fields_def str_field_def
        enc_string_def dec_string_def equal_fold_def to_lower_def elk_zero_def)
  obtain kvs where kvs: "enc_struct elk_fields (el_Key s) = JObj kvs" by (simp add: enc_struct_def)
  have ptr: "dec_ptr elk_fields elk_zero (JObj kvs) None = (Some (el_Key s), True)"
    using key [of "el_Key s"] kvs by (simp add: dec_ptr_def)
  have "dec_members tr_fields (enc_fields el_fields s) tr_zero = (\<lparr>tr_Key = Some (el_Key s)\<rparr>, True)"
    using kvs ptr
    by (cases "enc_string (el_Topic s)"; cases "enc_float (el_Partition s)"; cases "enc_float (el_Offset s)")
      (simp_all add: el_fields_def str_field_def struct_field_def float_field_def dec_members_def dec_member_def find_field_def
        tr_fields_def ptr_field_def equal_fold_def to_lower_def tr_zero_def)
  then have "unmarshal_key (marshal_schema s) = (\<lparr>tr_Key = Some (el_Key s)\<rparr>, None)"
    using json_parse_json_str [OF assms(1)]
    by (simp add: unmarshal_key_def marshal_schema_def enc_struct_def dec_struct_def)
  then show ?thesis using assms(2) by (simp add: deliver_def PreProcessRedactedFields_def)
qed

text \<open>The embedded queue as the writer of a processor.\<close>

definition emb_put :: "(string \<Rightarrow> string) \<Rightarrow> equeue writer" where
  "emb_put gz q x = (let (q', err) = emb_Write gz True q x in (q', map_option (\<lambda>_. ''io'') err))"

lemma emb_one:
  assumes "\<And>x. gunz (gz x) = Some x"
  shows "emb_put gz (emb_Open []) x = (q, e) \<Longrightarrow> e = None \<and> (\<exists>q'. emb_Read gunz True q = (q', deliver x))"
  using assms
  by (auto simp: emb_put_def emb_Open_def emb_Write_def emb_Read_def pq_New_def readKeys_def pq_Enqueue_def pq_Dequeue_def write_file_def
      deliver_def decompressData_def Let_def split: prod.splits)

lemma noop_passes:
  assumes "unmarshal_schema r el_zero = (s, None)" "\<not> IsFiltered (NewFilter fc) (data_DataContentType (elv_Data (el_Value s)))"
    and "wr p (marshal_schema s) = (q, None)"
  shows "\<exists>w. noop_RunWorker fc wr p r = (q, w) \<and> w_Written w"
  using assms by (auto simp: noop_RunWorker_def worker_defs Let_def)

text \<open>C1. A record travels through the collector intact. Take a record that decodes, is not filtered and does
  not come from the language understanding service, whose numbers are printed without an exponent. The
  noop processor writes its canonical text to the embedded queue; the next read of the queue returns
  exactly this text; and the Elasticsearch writer that gets it queues one job, with the index of the
  day of the original record and the document id of the original record.\<close>

theorem record_reaches_elasticsearch:
  assumes "unmarshal_schema r el_zero = (s, None)" "json_ok (enc_struct el_fields s)"
    and "\<not> IsFiltered (NewFilter fc) (data_DataContentType (elv_Data (el_Value s)))" "elk_Service (el_Key s) \<noteq> ''NLUaaS''"
    and "\<And>x. gunz (gz x) = Some x" "bf_AppendDateToIndex cfg \<or> bf_IndexPrefix cfg \<noteq> []"
  shows "\<exists>q w q' ms. noop_RunWorker fc (emb_put gz) (emb_Open []) r = (q, w) \<and> w_Written w \<and>
     emb_Read gunz True q = (q', Inr (marshal_schema s)) \<and>
     es_jobHandler cfg shutdown jobs (Incoming (marshal_schema s)) =
       Some (jobs @ [\<lparr>jo_Index = es_getIndex cfg (time_parse (elv_Timestamp (el_Value s))), jo_DocID = docID_of s,
                     jo_Body = marshal_schema s, jo_Action = WRITE\<rparr>], ms)"
proof -
  obtain q e where put: "emb_put gz (emb_Open []) (marshal_schema s) = (q, e)" by (cases "emb_put gz (emb_Open []) (marshal_schema s)")
  obtain q' where read: "e = None" "emb_Read gunz True q = (q', deliver (marshal_schema s))"
    using emb_one [of gunz gz, OF assms(5) put] by blast
  have "schema_ok el_zero" by (rule el.zero_ok)
  then have ok: "schema_ok s" using unmarshal_schema_ok [of el_zero r] assms(1) by simp
  have copy: "enc_struct el_fields (copy s) = enc_struct el_fields s" "unmarshal_schema (marshal_schema s) el_zero = (copy s, None)"
    using marshal_unmarshal [OF ok assms(2)] by (simp_all add: copy_def prod_eq_iff)
  have "schema_ok (copy s)" using unmarshal_schema_ok [OF \<open>schema_ok el_zero\<close>, of "marshal_schema s"] copy(2) by simp
  note doc = copy_document [OF copy(1) ok this]
  have "\<exists>ms. es_jobHandler cfg shutdown jobs (Incoming (marshal_schema s)) =
       Some (jobs @ [\<lparr>jo_Index = es_getIndex cfg (time_parse (elv_Timestamp (el_Value s))), jo_DocID = docID_of s,
                     jo_Body = marshal_schema s, jo_Action = WRITE\<rparr>], ms)"
    using es_getIndex_neq_Nil [OF assms(6)]
    by (simp add: es_jobHandler_def writer_turn_def writer_handle_def copy(2) bulk_plan_def doc job_put_eval)
  then show ?thesis using noop_passes [OF assms(1,3), of "emb_put gz"] put read deliver_marshalled [OF assms(2,4)] by metis
qed

definition ex_in :: string where
  "ex_in = ''{\"offset\":7,\"topic\":\"t\",\"value\":{\"id\":\"a\",\"timestamp\":\"2024-03-01T10:00:00Z\"}}''"

definition ex_in_ok :: bool where
  "ex_in_ok =
     (let (s, err) = unmarshal_schema ex_in el_zero
      in err = None \<and> json_ok (enc_struct el_fields s) \<and> \<not> IsFiltered (NewFilter ex_noop_fc) (data_DataContentType (elv_Data (el_Value s))) \<and>
         elk_Service (el_Key s) \<noteq> ''NLUaaS'' \<and> docID_of s = ''a.t.0.7'')"

lemma ex_in_dec: "ex_in_ok"
  by code_simp

theorem record_reaches_elasticsearch_witness:
  "\<exists>q w q' out ms job. noop_RunWorker ex_noop_fc (emb_put id) (emb_Open []) ex_in = (q, w) \<and> emb_Read Some True q = (q', Inr out) \<and>
     es_jobHandler ex_bulk_cfg id [] (Incoming out) = Some ([job], ms) \<and> jo_DocID job = ''a.t.0.7''"
proof -
  obtain s where s: "unmarshal_schema ex_in el_zero = (s, None)" "json_ok (enc_struct el_fields s)"
    "\<not> IsFiltered (NewFilter ex_noop_fc) (data_DataContentType (elv_Data (el_Value s)))" "elk_Service (el_Key s) \<noteq> ''NLUaaS''" "docID_of s = ''a.t.0.7''"
    using ex_in_dec by (auto simp: ex_in_ok_def split: prod.splits)
  have g: "Some (id x) = Some x" for x :: string by simp
  have cfg: "bf_AppendDateToIndex ex_bulk_cfg \<or> bf_IndexPrefix ex_bulk_cfg \<noteq> []" by (simp add: ex_bulk_cfg_def)
  from record_reaches_elasticsearch [where gz = id and gunz = Some, OF s(1-4) g cfg, of id "[]"] show ?thesis using s(5) by fastforce
qed

section \<open>From the fetcher to the processor\<close>

lemma emb_put_fst: "fst (emb_put gz q x) = fst (emb_Write gz True q x)"
  by (simp add: emb_put_def Let_def split: prod.splits)

lemma session_writes:
  "session (emb_Write gz True) get q (map QWrite xs @ ops) = session (emb_Write gz True) get (foldl (\<lambda>q x. fst (emb_put gz q x)) q xs) ops"
  by (induction xs arbitrary: q) (simp_all add: emb_put_fst)

lemma written_QWrite: "written (map QWrite xs @ replicate k QRead) = xs"
  by (induction xs; induction k) simp_all

text \<open>How \<open>Start\<close> leaves a fetcher that was made for an empty queue.\<close>

lemma Start_leaves:
  assumes "Start hc f0 = Some (f, Inr ())" "lf_wait f0 = 0" "lf_writer f0 = emb_Open []"
  shows "lf_wait f = length (lf_partitionFetchers f)" "lf_writer f = emb_Open []"
  using Start_wait [OF assms(1)] Start_writer [OF assms(1)] assms(2,3) by simp_all


text \<open>Two partitions that are stopped at once.\<close>

definition ex_queue_fetcher :: "(http_request list, equeue) LogFetcher" where
  "ex_queue_fetcher =
     \<lparr>lf_name = ''f'', lf_cfg = DefaultConfig, lf_Authenticator = NewAuthenticator (cf_Credentials DefaultConfig), lf_groupName = ''g'',
      lf_consumers = [], lf_subscription = None, lf_topic = ''t'', lf_clientName = ''c'', lf_timeoutMs = 60000, lf_offsetReset = [],
      lf_autoCommitEnabled = False, lf_Partitions = [0, 1],
      lf_partitionFetchers = [ex_consumer, ex_consumer\<lparr>co_Partition := 1\<rparr>], lf_wait = 2, lf_writer = emb_Open [], lf_sys = ex_api_sys,
      lf_gauges = []\<rparr>"

lemma ex_queue_put: "\<forall>q b. snd (emb_put id (q :: equeue) b) = None"
  by (simp add: emb_put_def emb_Write_def pq_Enqueue_def Let_def)


end
